(* ===== verification/Prelude.thy ===== *)
theory Prelude
  imports Main "HOL-Library.Signed_Division" "HOL-Library.AList"
begin

text \<open>
  Shared vocabulary of the calendar development: the JavaScript runtime primitives that
  \<open>src/script.js\<close> calls (number equality with NaN, the remainder operator, number to
  string conversion, \<open>padStart\<close>, \<open>split\<close>, \<open>trim\<close>, \<open>parseInt\<close>, \<open>Array.prototype.splice\<close>),
  the collection \<open>js_runtime\<close> of their evaluation equations, and generic lemmas on integer
  division shared by the date arithmetic.

  JavaScript numbers occurring in the program are integers or NaN (day numbers, months,
  hours, indices), so a number is modelled as \<open>jsnum = int option\<close> with \<open>None\<close> for NaN.
  JavaScript objects used as dictionaries are association lists (\<open>HOL-Library.AList\<close>):
  property order is insertion order, assignment to an existing key keeps its position
  (\<open>AList.update\<close>) and \<open>delete\<close> removes it (\<open>AList.delete\<close>).
  Strings are \<open>string\<close>; the program only handles ASCII text in the places where
  characters are inspected (digits, separators, white space).
\<close>

named_theorems js_runtime "evaluation equations of the modelled JavaScript runtime primitives"

type_synonym jsnum = "int option"

section \<open>Numbers\<close>

text \<open>Strict equality \<open>===\<close> on numbers: NaN is equal to nothing, itself included.\<close>

fun js_num_eq :: "jsnum \<Rightarrow> jsnum \<Rightarrow> bool" where
  "js_num_eq (Some a) (Some b) = (a = b)"
| "js_num_eq _ _ = False"

text \<open>Relational comparison \<open>x >= c\<close> with a number literal: false for NaN.\<close>

fun js_ge :: "jsnum \<Rightarrow> int \<Rightarrow> bool" where
  "js_ge (Some a) c = (c \<le> a)"
| "js_ge None c = False"

text \<open>The remainder operator \<open>%\<close>: the sign follows the dividend (truncating division),
  unlike HOL's \<open>mod\<close>; NaN propagates. \<open>smod\<close> is truncating remainder.\<close>

fun js_rem :: "jsnum \<Rightarrow> int \<Rightarrow> jsnum" where
  "js_rem (Some a) b = (if b = 0 then None else Some (a smod b))"
| "js_rem None b = None"

text \<open>Truthiness of a number (\<open>x || y\<close>): 0 and NaN are falsy.\<close>

fun js_num_truthy :: "jsnum \<Rightarrow> bool" where
  "js_num_truthy (Some a) = (a \<noteq> 0)"
| "js_num_truthy None = False"

declare js_num_eq.simps [js_runtime] js_ge.simps [js_runtime] js_rem.simps [js_runtime]
  js_num_truthy.simps [js_runtime]

section \<open>Decimal digits\<close>

definition digit_char :: "nat \<Rightarrow> char" where
  "digit_char n = char_of (48 + n)"

fun nat_digits :: "nat \<Rightarrow> string" where
  "nat_digits n = (if n < 10 then [digit_char n] else nat_digits (n div 10) @ [digit_char (n mod 10)])"

declare nat_digits.simps [simp del]

text \<open>The digit value of a character in radix \<open>r\<close> (\<open>0-9\<close>, then \<open>a-z\<close> or \<open>A-Z\<close>
  for 10 to 35), as \<open>parseInt\<close> reads it.\<close>

definition radix_digit :: "nat \<Rightarrow> char \<Rightarrow> nat option" where
  "radix_digit r c =
     (let n = of_char c :: nat;
          v = (if 48 \<le> n \<and> n \<le> 57 then n - 48
               else if 97 \<le> n \<and> n \<le> 122 then n - 87
               else if 65 \<le> n \<and> n \<le> 90 then n - 55 else 36)
      in if v < r then Some v else None)"

definition is_radix_digit :: "nat \<Rightarrow> char \<Rightarrow> bool" where
  "is_radix_digit r c \<longleftrightarrow> radix_digit r c \<noteq> None"

definition digits_to_nat :: "nat \<Rightarrow> string \<Rightarrow> nat" where
  "digits_to_nat r cs = foldl (\<lambda>v c. r * v + (case radix_digit r c of Some d \<Rightarrow> d | None \<Rightarrow> 0)) 0 cs"

section \<open>Strings\<close>

text \<open>\<open>String(n)\<close> for an integral number (decimal, a minus sign for negatives).\<close>

definition js_string_of_int :: "int \<Rightarrow> string" where
  "js_string_of_int i = (if i < 0 then CHR ''-'' # nat_digits (nat (- i)) else nat_digits (nat i))"

text \<open>\<open>s.padStart(n, c)\<close> with a one-character filler.\<close>

definition pad_start :: "nat \<Rightarrow> char \<Rightarrow> string \<Rightarrow> string" where
  "pad_start n c s = replicate (n - length s) c @ s"

text \<open>White space and line terminators of ECMAScript, restricted to the ASCII range.\<close>

definition js_space :: "char \<Rightarrow> bool" where
  "js_space c \<longleftrightarrow> of_char c \<in> {9, 10, 11, 12, 13, 32 :: nat}"

text \<open>\<open>String.prototype.trim\<close>.\<close>

definition js_trim :: "string \<Rightarrow> string" where
  "js_trim s = rev (dropWhile js_space (rev (dropWhile js_space s)))"

text \<open>\<open>s.split(c)\<close> for a one-character separator: every occurrence cuts.\<close>

fun js_split :: "char \<Rightarrow> string \<Rightarrow> string list" where
  "js_split c [] = [[]]"
| "js_split c (x # xs) =
     (if x = c then [] # js_split c xs
      else (let r = js_split c xs in (x # hd r) # tl r))"

text \<open>\<open>parseInt(s)\<close> without a radix: leading white space, an optional sign, the
  prefix \<open>0x\<close> that selects radix 16, then the longest run of digits; NaN when the run
  is empty.\<close>

definition js_parse_int :: "string \<Rightarrow> jsnum" where
  "js_parse_int s =
     (let s1 = dropWhile js_space s;
          (sg, s2) = (case s1 of
                        c # t \<Rightarrow> if c = CHR ''-'' then (-1, t)
                                 else if c = CHR ''+'' then (1, t) else (1, s1)
                      | [] \<Rightarrow> (1 :: int, []));
          (r, s3) = (if take 2 s2 = ''0x'' \<or> take 2 s2 = ''0X'' then (16, drop 2 s2) else (10, s2));
          ds = takeWhile (is_radix_digit r) s3
      in if ds = [] then None else Some (sg * int (digits_to_nat r ds)))"

section \<open>Arrays\<close>

text \<open>\<open>a.splice(i, 1)\<close> on an integral index: a negative index counts from the end, an
  index at or past the end removes nothing.\<close>

definition js_splice1 :: "int \<Rightarrow> 'a list \<Rightarrow> 'a list" where
  "js_splice1 i xs =
     (let len = int (length xs);
          start = (if i < 0 then max (len + i) 0 else min i len)
      in take (nat start) xs @ drop (nat start + 1) xs)"

section \<open>Lemmas\<close>

subsection \<open>Integer division\<close>

lemma div_succ_step:
  fixes a n :: int
  assumes n: "0 < n"
  shows "(a + 1) div n = a div n + (if (a + 1) mod n = 0 then 1 else 0)"
proof -
  have q: "a = n * (a div n) + a mod n" by simp
  have r: "0 \<le> a mod n" "a mod n < n" using n by simp_all
  show ?thesis
  proof (cases "a mod n + 1 = n")
    case True
    have "a + 1 = n * (a div n) + n" using q True by linarith
    then have "a + 1 = (a div n + 1) * n" by (simp add: algebra_simps)
    then show ?thesis using n by simp
  next
    case False
    with r have lt: "a mod n + 1 < n" by linarith
    have e: "a + 1 = (a mod n + 1) + n * (a div n)" using q by linarith
    have "(a + 1) div n = a div n + (a mod n + 1) div n"
      by (subst e, rule div_mult_self2) (use n in simp)
    also have "(a mod n + 1) div n = 0" using r lt by simp
    finally have d: "(a + 1) div n = a div n" by simp
    have "(a + 1) mod n = (a mod n + 1) mod n"
      by (subst e, rule mod_mult_self2)
    also have "\<dots> = a mod n + 1" using r lt by simp
    finally show ?thesis using d r by simp
  qed
qed

subsection \<open>Decimal digits\<close>

lemma radix_digit_char [simp]: "d < 10 \<Longrightarrow> d < r \<Longrightarrow> radix_digit r (digit_char d) = Some d"
  by (simp add: radix_digit_def digit_char_def Let_def)

lemma digits_to_nat_snoc [simp]:
  "digits_to_nat r (cs @ [c]) = r * digits_to_nat r cs + (case radix_digit r c of Some d \<Rightarrow> d | None \<Rightarrow> 0)"
  by (simp add: digits_to_nat_def)

lemma digits_to_nat_nat_digits [simp]: "digits_to_nat 10 (nat_digits n) = n"
proof (induction n rule: nat_digits.induct)
  case (1 n)
  then show ?case
    by (cases "n < 10") (simp_all add: nat_digits.simps [of n] digits_to_nat_def)
qed

lemma nat_digits_radix: "c \<in> set (nat_digits n) \<Longrightarrow> is_radix_digit 10 c"
proof (induction n rule: nat_digits.induct)
  case (1 n)
  then show ?case
    by (cases "n < 10") (auto simp: nat_digits.simps [of n] is_radix_digit_def)
qed

lemma nat_digits_not_Nil [simp]: "nat_digits n \<noteq> []"
  by (simp add: nat_digits.simps [of n])

lemma list_all_nat_digits [simp]: "list_all (is_radix_digit 10) (nat_digits n)"
  using nat_digits_radix by (auto simp: list_all_iff)

lemma is_radix_digit_10_code:
  "is_radix_digit 10 c \<Longrightarrow> 48 \<le> (of_char c :: nat) \<and> (of_char c :: nat) \<le> 57"
  by (auto simp: is_radix_digit_def radix_digit_def Let_def split: if_splits)

lemma is_radix_digit_10_not_special:
  assumes "is_radix_digit 10 c"
  shows "\<not> js_space c" "c \<noteq> CHR '':''" "c \<noteq> CHR ''-''" "c \<noteq> CHR ''+''"
    "c \<noteq> CHR ''x''" "c \<noteq> CHR ''X''"
  using is_radix_digit_10_code [OF assms] by (auto simp: js_space_def)

lemma digits_to_nat_zeros [simp]:
  "digits_to_nat 10 (replicate k CHR ''0'' @ ds) = digits_to_nat 10 ds"
proof -
  have z: "foldl (\<lambda>v c. 10 * v + (case radix_digit 10 c of Some d \<Rightarrow> d | None \<Rightarrow> 0)) 0
             (replicate k CHR ''0'') = 0"
    by (induction k) (simp_all add: radix_digit_def)
  show ?thesis by (simp add: digits_to_nat_def z)
qed

lemma js_parse_int_digits:
  assumes "ds \<noteq> []" "list_all (is_radix_digit 10) ds"
  shows "js_parse_int ds = Some (int (digits_to_nat 10 ds))"
proof -
  obtain c cs where ds: "ds = c # cs" using assms(1) by (cases ds) auto
  have c: "is_radix_digit 10 c" using assms(2) ds by simp
  have sp: "dropWhile js_space ds = ds"
    using is_radix_digit_10_not_special(1) [OF c] ds by simp
  have nx: "take 2 ds \<noteq> ''0x'' \<and> take 2 ds \<noteq> ''0X''"
  proof (cases cs)
    case Nil
    then show ?thesis using ds by simp
  next
    case (Cons c2 cs2)
    then have "is_radix_digit 10 c2" using assms(2) ds by simp
    then show ?thesis using ds Cons is_radix_digit_10_not_special(5,6) by auto
  qed
  have tw: "takeWhile (is_radix_digit 10) ds = ds"
    using assms(2) by (simp add: list_all_iff)
  have sg: "(case ds of
               c # t \<Rightarrow> if c = CHR ''-'' then (-1, t) else if c = CHR ''+'' then (1, t) else (1, ds)
             | [] \<Rightarrow> (1 :: int, [])) = (1, ds)"
    using ds is_radix_digit_10_not_special(3,4) [OF c] by simp
  have rr: "(if take 2 ds = ''0x'' \<or> take 2 ds = ''0X'' then (16 :: nat, drop 2 ds) else (10, ds)) = (10, ds)"
    using nx by simp
  show ?thesis
    unfolding js_parse_int_def Let_def sp sg prod.case rr tw using assms(1) by simp
qed

lemma smod_nonneg_eq_mod: "0 \<le> (a::int) \<Longrightarrow> 0 < b \<Longrightarrow> a smod b = a mod b"
  by (cases "a = 0") (simp_all add: smod_int_alt_def)

subsection \<open>Association lists as JavaScript objects\<close>

lemma list_all_update:
  "P (k, v) \<Longrightarrow> list_all P al \<Longrightarrow> list_all P (AList.update k v al)"
  by (induction al) auto

lemma list_all_delete: "list_all P al \<Longrightarrow> list_all P (AList.delete k al)"
  by (induction al) auto

lemma map_of_list_all: "map_of al k = Some v \<Longrightarrow> list_all P al \<Longrightarrow> P (k, v)"
  by (auto simp: list_all_iff dest: map_of_SomeD)

lemma delete_update_absent:
  "k \<notin> fst ` set al \<Longrightarrow> AList.delete k (AList.update k v al) = al"
  by (simp add: delete_update_same)

lemma update_append_absent:
  "k \<notin> fst ` set al \<Longrightarrow> AList.update k v al = al @ [(k, v)]"
  by (induction al) auto

lemma div_mod_12_carry: "(a::int) div 12 + (a mod 12 + b) div 12 = (a + b) div 12"
proof -
  have e: "a + b = (a mod 12 + b) + a div 12 * 12" using div_mult_mod_eq [of a 12] by linarith
  have "(a + b) div 12 = a div 12 + (a mod 12 + b) div 12" unfolding e by (rule div_mult_self1) simp
  then show ?thesis by simp
qed

subsection \<open>Trimming\<close>

lemma js_trim_blank: "list_all js_space s \<Longrightarrow> js_trim s = []"
proof -
  assume "list_all js_space s"
  then have "dropWhile js_space s = []" by (induction s) simp_all
  then show ?thesis unfolding js_trim_def by (simp del: dropWhile_eq_Nil_conv)
qed

subsection \<open>Splice\<close>

lemma js_splice1_nonneg:
  "0 \<le> i \<Longrightarrow> js_splice1 i xs = take (nat i) xs @ drop (Suc (nat i)) xs"
  by (cases "i \<le> int (length xs)") (auto simp: js_splice1_def min_def)

lemma js_splice1_last: "js_splice1 (int (length xs)) (xs @ [x]) = xs"
  by (simp add: js_splice1_nonneg)

lemma js_splice1_Nil [simp]: "js_splice1 i [] = []"
  by (simp add: js_splice1_def)

lemma length_js_splice1_in:
  "0 \<le> i \<Longrightarrow> i < int (length xs) \<Longrightarrow> length (js_splice1 i xs) = length xs - 1"
  by (simp add: js_splice1_nonneg)

subsection \<open>Index ranges\<close>

lemma map_upt_int_shift: "map (\<lambda>i. int i + c) [a..<b] = [int a + c..int b + c - 1]"
proof (induction b)
  case 0
  then show ?case by simp
next
  case (Suc b)
  show ?case
  proof (cases "a \<le> b")
    case True
    have "[int a + c..int b + c] = [int a + c..int b + c - 1] @ [int b + c]"
      using True by (simp add: upto_rec2)
    then show ?thesis using Suc True by simp
  next
    case False
    then show ?thesis by simp
  qed
qed

end
