(* ===== verification/Task_Store.thy ===== *)
theory Task_Store
  imports Prelude
begin

text \<open>
  The in-memory task store of \<open>src/script.js\<close>: the one-time task index \<open>tasks\<close>
  (line 32), a JavaScript object from date keys to objects from time keys to arrays of
  \<open>{desc}\<close> entries, and the array \<open>recurringTasks\<close> of weekly and yearly rules
  (line 35). The mutations are the one-time branch of \<open>addTask\<close> (lines 322--332), the
  pushes of its recurring branches (lines 336--353), \<open>deleteTask\<close> (lines 370--383) and
  \<open>deleteRecurringTask\<close> (lines 389--396). A deletion returns \<open>None\<close> when its guard
  fails: the source then neither changes nor saves anything.

  The invariant \<open>tasks_wf\<close> is the pruning invariant of the store: keys are unique and
  no empty slot array or empty date object is kept. Every mutation keeps it. The
  abstraction \<open>slot_tasks\<close> reads the index as a function from date and time to the
  list of entries (empty where the source has no key); the lemmas \<open>slot_tasks_addOneTime\<close>
  and \<open>slot_tasks_deleteTask\<close> show that the nested updates implement "append to one
  slot" and "splice one slot" on that function.
\<close>

section \<open>Data\<close>

record task =
  desc :: string

type_synonym slot_map = "(string \<times> task list) list"
type_synonym task_index = "(string \<times> slot_map) list"

text \<open>A recurring rule as pushed by \<open>addTask\<close>: \<open>{dayOfWeek, time, desc, repeat: 'weekly'}\<close>
  or \<open>{month, day, time, desc, repeat: 'yearly'}\<close>. The numbers come from \<open>Date\<close>
  getters and may be NaN.\<close>

datatype recurring =
  Weekly (dayOfWeek: jsnum) (wtime: string) (wdesc: string)
| Yearly (ymonth: jsnum) (yday: jsnum) (ytime: string) (ydesc: string)

fun rule_time :: "recurring \<Rightarrow> string" where
  "rule_time (Weekly _ t _) = t"
| "rule_time (Yearly _ _ t _) = t"

fun rule_desc :: "recurring \<Rightarrow> string" where
  "rule_desc (Weekly _ _ d) = d"
| "rule_desc (Yearly _ _ _ d) = d"

section \<open>Operations\<close>

text \<open>\<open>tasks[date]\<close> and \<open>tasks[date][time]\<close>, absent keys read as empty.\<close>

definition slots_of :: "task_index \<Rightarrow> string \<Rightarrow> slot_map" where
  "slots_of tasks date = (case map_of tasks date of Some s \<Rightarrow> s | None \<Rightarrow> [])"

definition slot_tasks :: "task_index \<Rightarrow> string \<Rightarrow> string \<Rightarrow> task list" where
  "slot_tasks tasks date time = (case map_of (slots_of tasks date) time of Some l \<Rightarrow> l | None \<Rightarrow> [])"

text \<open>The one-time branch of \<open>addTask\<close>: create the date object and the slot array
  when missing, then push the entry.\<close>

definition addOneTime :: "string \<Rightarrow> string \<Rightarrow> string \<Rightarrow> task_index \<Rightarrow> task_index" where
  "addOneTime date time d tasks =
     (let slots = slots_of tasks date;
          lst = (case map_of slots time of Some l \<Rightarrow> l | None \<Rightarrow> [])
      in AList.update date (AList.update time (lst @ [\<lparr>desc = d\<rparr>]) slots) tasks)"

text \<open>\<open>deleteTask(date, time, index)\<close>: splice the slot, delete the slot key when its
  array became empty, delete the date key when its object has no keys left.\<close>

definition deleteTask :: "string \<Rightarrow> string \<Rightarrow> int \<Rightarrow> task_index \<Rightarrow> task_index option" where
  "deleteTask date time index tasks =
     (case map_of tasks date of
        None \<Rightarrow> None
      | Some slots \<Rightarrow>
          (case map_of slots time of
             None \<Rightarrow> None
           | Some lst \<Rightarrow>
               (let lst' = js_splice1 index lst;
                    slots1 = AList.update time lst' slots;
                    slots2 = (if lst' = [] then AList.delete time slots1 else slots1);
                    tasks1 = AList.update date slots2 tasks
                in Some (if slots2 = [] then AList.delete date tasks1 else tasks1))))"

definition addRecurring :: "recurring \<Rightarrow> recurring list \<Rightarrow> recurring list" where
  "addRecurring r rs = rs @ [r]"

definition deleteRecurringTask :: "int \<Rightarrow> recurring list \<Rightarrow> recurring list option" where
  "deleteRecurringTask index rs =
     (if 0 \<le> index \<and> index < int (length rs) then Some (js_splice1 index rs) else None)"

section \<open>The pruning invariant\<close>

definition slots_wf :: "slot_map \<Rightarrow> bool" where
  "slots_wf slots \<longleftrightarrow> slots \<noteq> [] \<and> distinct (map fst slots) \<and> list_all (\<lambda>(t, l). l \<noteq> []) slots"

definition tasks_wf :: "task_index \<Rightarrow> bool" where
  "tasks_wf tasks \<longleftrightarrow> distinct (map fst tasks) \<and> list_all (\<lambda>(d, s). slots_wf s) tasks"

lemma tasks_wf_slots:
  "tasks_wf tasks \<Longrightarrow> map_of tasks date = Some slots \<Longrightarrow> slots_wf slots"
  using map_of_list_all [of tasks date slots "\<lambda>(d, s). slots_wf s"] by (simp add: tasks_wf_def)

lemma slots_wf_entry:
  "slots_wf slots \<Longrightarrow> map_of slots time = Some l \<Longrightarrow> l \<noteq> []"
  using map_of_list_all [of slots time l "\<lambda>(t, l). l \<noteq> []"] by (simp add: slots_wf_def)

lemma slots_wf_update:
  assumes "distinct (map fst slots)" "list_all (\<lambda>(t, l). l \<noteq> []) slots" "l \<noteq> []"
  shows "slots_wf (AList.update time l slots)"
  using assms by (simp add: slots_wf_def distinct_update list_all_update)

lemma tasks_wf_update:
  "tasks_wf tasks \<Longrightarrow> slots_wf s \<Longrightarrow> tasks_wf (AList.update date s tasks)"
  by (simp add: tasks_wf_def distinct_update list_all_update)

lemma tasks_wf_delete: "tasks_wf tasks \<Longrightarrow> tasks_wf (AList.delete date tasks)"
  by (simp add: tasks_wf_def distinct_delete list_all_delete)

lemma slots_of_wf:
  "tasks_wf tasks \<Longrightarrow> distinct (map fst (slots_of tasks date)) \<and> list_all (\<lambda>(t, l). l \<noteq> []) (slots_of tasks date)"
  by (cases "map_of tasks date")
     (auto simp: slots_of_def slots_wf_def dest: tasks_wf_slots)

section \<open>The mutations keep the invariant\<close>

lemma addOneTime_wf: "tasks_wf tasks \<Longrightarrow> tasks_wf (addOneTime date time d tasks)"
  unfolding addOneTime_def Let_def
  by (intro tasks_wf_update slots_wf_update) (simp_all add: slots_of_wf)

lemma deleteTask_wf:
  assumes wf: "tasks_wf tasks" and del: "deleteTask date time index tasks = Some tasks'"
  shows "tasks_wf tasks'"
proof -
  obtain slots lst where s: "map_of tasks date = Some slots" and l: "map_of slots time = Some lst"
    using del by (auto simp: deleteTask_def split: option.splits)
  let ?lst' = "js_splice1 index lst"
  let ?slots1 = "AList.update time ?lst' slots"
  let ?slots2 = "if ?lst' = [] then AList.delete time ?slots1 else ?slots1"
  have sw: "slots_wf slots" using wf s by (rule tasks_wf_slots)
  then have d2: "distinct (map fst ?slots2)"
    by (simp add: slots_wf_def distinct_update distinct_delete)
  have a2: "list_all (\<lambda>(t, l). l \<noteq> []) ?slots2"
    using sw by (simp add: slots_wf_def delete_update_same list_all_delete list_all_update)
  have t': "tasks' = (if ?slots2 = [] then AList.delete date (AList.update date ?slots2 tasks)
                      else AList.update date ?slots2 tasks)"
    using del s l by (simp add: deleteTask_def Let_def)
  show ?thesis
  proof (cases "?slots2 = []")
    case True
    then show ?thesis using t' wf by (simp add: delete_update_same tasks_wf_delete)
  next
    case False
    then have "slots_wf ?slots2" using d2 a2 by (simp only: slots_wf_def) simp
    then show ?thesis using t' wf False by (simp add: tasks_wf_update)
  qed
qed

lemma addRecurring_length: "length (addRecurring r rs) = Suc (length rs)"
  by (simp add: addRecurring_def)

section \<open>Functional behaviour\<close>

text \<open>Adding appends to exactly one slot of the abstract index.\<close>

lemma slot_tasks_addOneTime:
  "slot_tasks (addOneTime date time d tasks) date' time' =
     (if date' = date \<and> time' = time then slot_tasks tasks date time @ [\<lparr>desc = d\<rparr>]
      else slot_tasks tasks date' time')"
  by (auto simp: addOneTime_def slot_tasks_def slots_of_def update_conv' Let_def
           split: option.splits)

text \<open>A deletion that runs splices exactly one slot of the abstract index; pruning the
  emptied keys is invisible in the abstraction.\<close>

lemma slot_tasks_deleteTask:
  assumes del: "deleteTask date time index tasks = Some tasks'"
  shows "slot_tasks tasks' date' time' =
           (if date' = date \<and> time' = time then js_splice1 index (slot_tasks tasks date time)
            else slot_tasks tasks date' time')"
proof -
  obtain slots lst where s: "map_of tasks date = Some slots" and l: "map_of slots time = Some lst"
    using del by (auto simp: deleteTask_def split: option.splits)
  let ?lst' = "js_splice1 index lst"
  let ?slots1 = "AList.update time ?lst' slots"
  let ?slots2 = "if ?lst' = [] then AList.delete time ?slots1 else ?slots1"
  have t': "tasks' = (if ?slots2 = [] then AList.delete date (AList.update date ?slots2 tasks)
                      else AList.update date ?slots2 tasks)"
    using del s l by (simp add: deleteTask_def Let_def)
  have m2: "map_of ?slots2 t = (if t = time then (if ?lst' = [] then None else Some ?lst') else map_of slots t)"
    for t by (simp add: update_conv' delete_conv')
  have new: "slots_of tasks' date' = (if date' = date then ?slots2 else slots_of tasks date')"
    using t' by (auto simp: slots_of_def update_conv' delete_conv')
  have empty: "?slots2 = [] \<Longrightarrow> map_of slots t = None" if "t \<noteq> time" for t
    using m2 [of t] that by auto
  show ?thesis
    using s l m2 new empty by (auto simp: slot_tasks_def slots_of_def split: option.splits)
qed

text \<open>A deletion whose date or slot does not exist does nothing.\<close>

lemma deleteTask_None:
  "deleteTask date time index tasks = None \<longleftrightarrow> map_of (slots_of tasks date) time = None"
  by (auto simp: deleteTask_def slots_of_def Let_def split: option.splits)

text \<open>Claim C3: on a store that satisfies the pruning invariant, adding a one-time entry
  and then deleting it at the index it was given restores the index exactly, keys and
  their order included; in particular a date that had no entries has no key again.\<close>

theorem deleteTask_addOneTime:
  assumes wf: "tasks_wf tasks"
  shows "deleteTask date time (int (length (slot_tasks tasks date time))) (addOneTime date time d tasks)
           = Some tasks"
proof (cases "map_of tasks date")
  case None
  then have nd: "date \<notin> fst ` set tasks" by (simp add: map_of_eq_None_iff)
  show ?thesis
    using None nd
    by (simp add: deleteTask_def addOneTime_def slot_tasks_def slots_of_def Let_def
                  update_conv' delete_update_same js_splice1_def)
next
  case (Some slots)
  have sw: "slots_wf slots" using wf Some by (rule tasks_wf_slots)
  have ut: "AList.update date slots tasks = tasks" using Some by (rule update_triv)
  show ?thesis
  proof (cases "map_of slots time")
    case None
    then have nt: "time \<notin> fst ` set slots" by (simp add: map_of_eq_None_iff)
    have "slots \<noteq> []" using sw by (simp add: slots_wf_def)
    then show ?thesis
      using Some None nt ut
      by (simp add: deleteTask_def addOneTime_def slot_tasks_def slots_of_def Let_def
                    update_conv' delete_update_same js_splice1_def)
  next
    case Sl: (Some lst)
    have ne: "lst \<noteq> []" using sw Sl by (rule slots_wf_entry)
    have us: "AList.update time lst slots = slots" using Sl by (rule update_triv)
    have "slots \<noteq> []" using sw by (simp add: slots_wf_def)
    then show ?thesis
      using Some Sl ne us ut
      by (simp add: deleteTask_def addOneTime_def slot_tasks_def slots_of_def Let_def
                    update_conv' js_splice1_last)
  qed
qed

text \<open>The example of the specification: adding "Gym" on 2024-05-01 at 09:00 to an empty
  store and deleting index 0 leaves no key for the date.\<close>

theorem deleteTask_addOneTime_witness:
  "tasks_wf [] \<and> deleteTask ''2024-05-01'' ''09:00'' 0 (addOneTime ''2024-05-01'' ''09:00'' ''Gym'' []) = Some []"
proof -
  have wf: "tasks_wf []" by (simp add: tasks_wf_def)
  have "slot_tasks [] ''2024-05-01'' ''09:00'' = []" by (simp add: slot_tasks_def slots_of_def)
  then show ?thesis using wf deleteTask_addOneTime [OF wf, of "''2024-05-01''" "''09:00''" "''Gym''"] by simp
qed

lemma deleteRecurringTask_out_of_range:
  "index < 0 \<or> int (length rs) \<le> index \<Longrightarrow> deleteRecurringTask index rs = None"
  by (auto simp: deleteRecurringTask_def)

lemma deleteRecurringTask_in_range:
  "0 \<le> index \<Longrightarrow> index < int (length rs) \<Longrightarrow>
   deleteRecurringTask index rs = Some (take (nat index) rs @ drop (Suc (nat index)) rs)"
  by (simp add: deleteRecurringTask_def js_splice1_nonneg)

lemma slot_tasks_nonempty_map_of:
  "slot_tasks ts d t \<noteq> [] \<Longrightarrow> map_of (slots_of ts d) t \<noteq> None"
  by (auto simp: slot_tasks_def split: option.splits)

lemma deleteTask_Some:
  "slot_tasks ts d t \<noteq> [] \<Longrightarrow> \<exists>ts'. deleteTask d t i ts = Some ts'"
  using deleteTask_None [of d t i ts] slot_tasks_nonempty_map_of [of ts d t] by (cases "deleteTask d t i ts") auto

text \<open>Claim C28: the boundary indices of \<open>deleteTask\<close> on an existing slot: an index past
  the end removes nothing (the abstract index is unchanged), but the index -1 is not
  a no-op: \<open>splice(-1, 1)\<close> removes the last entry of the slot.\<close>

theorem deleteTask_boundary_index:
  assumes "slot_tasks ts d t = xs @ [x]"
  shows "(\<exists>ts'. deleteTask d t (-1) ts = Some ts' \<and> slot_tasks ts' d t = xs)
       \<and> (\<exists>ts'. deleteTask d t (int (length xs) + 1) ts = Some ts' \<and> (\<forall>d' t'. slot_tasks ts' d' t' = slot_tasks ts d' t'))"
proof -
  obtain ts1 where t1: "deleteTask d t (-1) ts = Some ts1"
    using deleteTask_Some assms by fastforce
  obtain ts2 where t2: "deleteTask d t (int (length xs) + 1) ts = Some ts2"
    using deleteTask_Some assms by fastforce
  have "slot_tasks ts1 d t = xs"
    using slot_tasks_deleteTask [OF t1, of d t] assms by (simp add: js_splice1_def)
  moreover have "slot_tasks ts2 d' t' = slot_tasks ts d' t'" for d' t'
    using slot_tasks_deleteTask [OF t2, of d' t'] assms by (simp add: js_splice1_def)
  ultimately show ?thesis using t1 t2 by blast
qed

theorem deleteTask_boundary_index_witness:
  "deleteTask ''2024-05-01'' ''09:00'' (-1) [(''2024-05-01'', [(''09:00'', [\<lparr>desc = ''Gym''\<rparr>, \<lparr>desc = ''Run''\<rparr>])])]
     = Some [(''2024-05-01'', [(''09:00'', [\<lparr>desc = ''Gym''\<rparr>])])]"
proof -
  have "slot_tasks [(''2024-05-01'', [(''09:00'', [\<lparr>desc = ''Gym''\<rparr>, \<lparr>desc = ''Run''\<rparr>])])] ''2024-05-01'' ''09:00''
          = [\<lparr>desc = ''Gym''\<rparr>] @ [\<lparr>desc = ''Run''\<rparr>]"
    by (simp add: slot_tasks_def slots_of_def)
  from deleteTask_boundary_index [OF this] show ?thesis
    by (simp add: deleteTask_def js_splice1_def)
qed

end
