(* ===== verification/Date_Runtime.thy ===== *)
theory Date_Runtime
  imports Prelude
begin

text \<open>
  The ECMAScript \<open>Date\<close> arithmetic that \<open>src/script.js\<close> relies on (ECMA-262,
  section "Date Objects"): day numbers counted from 1970-01-01 (\<open>Day(t)\<close>), the year of
  a day (\<open>DayFromYear\<close>, \<open>YearFromTime\<close>, \<open>InLeapYear\<close>), month and date within the year
  (\<open>MonthFromTime\<close>, \<open>DateFromTime\<close>), \<open>MakeDay\<close> with its normalisation of
  out-of-range months and dates, and \<open>WeekDay\<close>. A time value is an integer number of
  milliseconds or NaN (\<open>int option\<close>); local time differs from UTC by a constant offset
  \<open>tza\<close> (the host's \<open>LocalTZA\<close>, daylight saving time is not modelled).
  The main results: \<open>civil_of_day\<close> and \<open>make_day\<close> are inverse on valid dates
  (\<open>civil_of_make_day\<close>, \<open>civil_of_day_valid\<close>), and the day count of a month
  computed the way the program does it (\<open>new Date(y, m + 1, 0).getDate()\<close>) is the
  length of that month.
\<close>

section \<open>Years\<close>

definition day_from_year :: "int \<Rightarrow> int" where
  "day_from_year y = 365 * (y - 1970) + (y - 1969) div 4 - (y - 1901) div 100 + (y - 1601) div 400"

definition in_leap_year :: "int \<Rightarrow> bool" where
  "in_leap_year y \<longleftrightarrow> (y mod 4 = 0 \<and> (y mod 100 \<noteq> 0 \<or> y mod 400 = 0))"

definition days_in_year :: "int \<Rightarrow> int" where
  "days_in_year y = (if in_leap_year y then 366 else 365)"

lemma day_from_year_succ: "day_from_year (y + 1) = day_from_year y + days_in_year y"
proof -
  have a: "(y - 1968) div 4 = (y - 1969) div 4 + (if y mod 4 = 0 then 1 else 0)"
    using div_succ_step [of 4 "y - 1969"] by (simp add: mod_diff_eq [symmetric])
  have b: "(y - 1900) div 100 = (y - 1901) div 100 + (if y mod 100 = 0 then 1 else 0)"
    using div_succ_step [of 100 "y - 1901"] by (simp add: mod_diff_eq [symmetric])
  have c: "(y - 1600) div 400 = (y - 1601) div 400 + (if y mod 400 = 0 then 1 else 0)"
    using div_succ_step [of 400 "y - 1601"] by (simp add: mod_diff_eq [symmetric])
  have "(100::int) dvd 400" by simp
  then have "y mod 400 mod 100 = y mod 100" by (rule mod_mod_cancel)
  then have l4: "y mod 400 = 0 \<Longrightarrow> y mod 100 = 0" by simp
  have "(4::int) dvd 100" by simp
  then have "y mod 100 mod 4 = y mod 4" by (rule mod_mod_cancel)
  then have l1: "y mod 100 = 0 \<Longrightarrow> y mod 4 = 0" by simp
  have u: "day_from_year (y + 1) = 365 * (y - 1970) + 365 + (y - 1968) div 4 - (y - 1900) div 100 + (y - 1600) div 400"
    unfolding day_from_year_def by (simp add: algebra_simps)
  define i4 where "i4 = (if y mod 4 = 0 then 1 else (0::int))"
  define i100 where "i100 = (if y mod 100 = 0 then 1 else (0::int))"
  define i400 where "i400 = (if y mod 400 = 0 then 1 else (0::int))"
  have d: "days_in_year y = 365 + i4 - i100 + i400"
  proof (cases "y mod 4 = 0")
    case False
    with l1 l4 have "y mod 100 \<noteq> 0" "y mod 400 \<noteq> 0" by auto
    with False show ?thesis by (simp add: days_in_year_def in_leap_year_def i4_def i100_def i400_def)
  next
    case True
    then show ?thesis
      using l4 by (cases "y mod 100 = 0") (auto simp add: days_in_year_def in_leap_year_def i4_def i100_def i400_def)
  qed
  show ?thesis
    using a b c u unfolding d day_from_year_def i4_def [symmetric] i100_def [symmetric] i400_def [symmetric]
    by linarith
qed

lemma days_in_year_ge: "365 \<le> days_in_year y"
  by (simp add: days_in_year_def)

lemma days_in_year_le: "days_in_year y \<le> 366"
  by (simp add: days_in_year_def)

lemma day_from_year_less_succ: "day_from_year y < day_from_year (y + 1)"
  using days_in_year_ge [of y] by (simp add: day_from_year_succ)

lemma day_from_year_less_pred: "day_from_year (y - 1) < day_from_year y"
  using day_from_year_less_succ [of "y - 1"] by simp

lemma day_from_year_strict_mono:
  assumes "y < y'" shows "day_from_year y < day_from_year y'"
  using assms
proof (induction y' rule: int_gr_induct)
  case base
  show ?case by (rule day_from_year_less_succ)
next
  case (step i)
  then show ?case using day_from_year_less_succ [of i] by linarith
qed

lemma day_from_year_mono: "y \<le> y' \<Longrightarrow> day_from_year y \<le> day_from_year y'"
  using day_from_year_strict_mono [of y y'] by (cases "y = y'") auto

lemma year_interval_unique:
  assumes "day_from_year y \<le> d" "d < day_from_year (y + 1)"
    and "day_from_year y' \<le> d" "d < day_from_year (y' + 1)"
  shows "y = y'"
proof (rule ccontr)
  assume "y \<noteq> y'"
  then consider "y + 1 \<le> y'" | "y' + 1 \<le> y" by linarith
  then show False
  proof cases
    case 1
    then show False using day_from_year_mono [OF 1] assms by linarith
  next
    case 2
    then show False using day_from_year_mono [OF 2] assms by linarith
  qed
qed

function year_up :: "int \<Rightarrow> int \<Rightarrow> int" where
  "year_up d y = (if day_from_year (y + 1) \<le> d then year_up d (y + 1) else y)"
  by pat_completeness auto
termination
  by (relation "measure (\<lambda>(d, y). nat (d - day_from_year y))")
     (auto intro: day_from_year_less_succ [THEN order.strict_trans2])

function year_down :: "int \<Rightarrow> int \<Rightarrow> int" where
  "year_down d y = (if d < day_from_year y then year_down d (y - 1) else y)"
  by pat_completeness auto
termination
  by (relation "measure (\<lambda>(d, y). nat (day_from_year y - d))")
     (auto intro: order.strict_trans1 [OF _ day_from_year_less_pred])

declare year_up.simps [simp del] year_down.simps [simp del]

lemma year_down_le: "day_from_year (year_down d y) \<le> d"
proof (induction d y rule: year_down.induct)
  case (1 d y)
  then show ?case by (auto simp: year_down.simps [of d y] not_less)
qed

lemma year_up_bounds:
  "day_from_year y \<le> d \<Longrightarrow>
   day_from_year (year_up d y) \<le> d \<and> d < day_from_year (year_up d y + 1)"
proof (induction d y rule: year_up.induct)
  case (1 d y)
  then show ?case by (auto simp: year_up.simps [of d y] not_le)
qed

definition year_from_day :: "int \<Rightarrow> int" where
  "year_from_day d = year_up d (year_down d (1970 + (400 * d) div 146097))"

lemma year_from_day_bounds:
  "day_from_year (year_from_day d) \<le> d \<and> d < day_from_year (year_from_day d + 1)"
  unfolding year_from_day_def by (rule year_up_bounds [OF year_down_le])

lemma year_from_day_eq:
  "day_from_year y \<le> d \<Longrightarrow> d < day_from_year (y + 1) \<Longrightarrow> year_from_day d = y"
  using year_from_day_bounds [of d] year_interval_unique by blast

section \<open>Months\<close>

definition month_lengths :: "bool \<Rightarrow> int list" where
  "month_lengths leap = [31, if leap then 29 else 28, 31, 30, 31, 30, 31, 31, 30, 31, 30, 31]"

definition month_start :: "bool \<Rightarrow> nat \<Rightarrow> int" where
  "month_start leap m = sum_list (take m (month_lengths leap))"

lemma length_month_lengths [simp]: "length (month_lengths l) = 12"
  by (simp add: month_lengths_def)

lemma month_start_Suc: "m < 12 \<Longrightarrow> month_start l (Suc m) = month_start l m + month_lengths l ! m"
  by (simp add: month_start_def take_Suc_conv_app_nth)

lemma month_start_12: "month_start (in_leap_year y) 12 = days_in_year y"
  by (simp add: month_start_def month_lengths_def days_in_year_def)

lemma month_lengths_pos: "m < 12 \<Longrightarrow> 28 \<le> month_lengths l ! m"
  by (auto simp: month_lengths_def nth_Cons' )

lemma month_lengths_le: "m < 12 \<Longrightarrow> month_lengths l ! m \<le> 31"
  by (auto simp: month_lengths_def nth_Cons')

lemma month_start_mono: "m \<le> m' \<Longrightarrow> m' \<le> 12 \<Longrightarrow> month_start l m \<le> month_start l m'"
proof (induction m' rule: dec_induct)
  case base
  then show ?case by simp
next
  case (step n)
  then show ?case using month_start_Suc [of n l] month_lengths_pos [of n l] by simp
qed

function find_month :: "bool \<Rightarrow> int \<Rightarrow> nat \<Rightarrow> nat" where
  "find_month l k m = (if 11 \<le> m \<or> k < month_start l (Suc m) then m else find_month l k (Suc m))"
  by pat_completeness auto
termination
  by (relation "measure (\<lambda>(l, k, m). 11 - m)") auto

declare find_month.simps [simp del]

lemma find_month_spec:
  "m0 \<le> 11 \<Longrightarrow> month_start l m0 \<le> k \<Longrightarrow> k < month_start l 12 \<Longrightarrow>
   month_start l (find_month l k m0) \<le> k \<and> k < month_start l (Suc (find_month l k m0))
   \<and> find_month l k m0 \<le> 11"
proof (induction l k m0 rule: find_month.induct)
  case (1 l k m)
  show ?case
  proof (cases "11 \<le> m \<or> k < month_start l (Suc m)")
    case True
    with "1.prems" show ?thesis
      by (auto simp: find_month.simps [of l k m] eval_nat_numeral le_Suc_eq)
  next
    case False
    with "1.IH" "1.prems" show ?thesis by (simp add: find_month.simps [of l k m])
  qed
qed


lemma month_interval_unique:
  assumes "month_start l a \<le> k" "k < month_start l (Suc a)" "a \<le> 11"
    and "month_start l b \<le> k" "k < month_start l (Suc b)" "b \<le> 11"
  shows "a = b"
proof (rule ccontr)
  assume "a \<noteq> b"
  then consider "Suc a \<le> b" | "Suc b \<le> a" by linarith
  then show False
  proof cases
    case 1
    have "month_start l (Suc a) \<le> month_start l b"
      using 1 assms(6) by (intro month_start_mono) simp_all
    then show False using assms by linarith
  next
    case 2
    have "month_start l (Suc b) \<le> month_start l a"
      using 2 assms(3) by (intro month_start_mono) simp_all
    then show False using assms by linarith
  qed
qed

section \<open>Calendar dates of day numbers\<close>

text \<open>\<open>civil_of_day d\<close> is (\<open>YearFromTime\<close>, \<open>MonthFromTime\<close>, \<open>DateFromTime\<close>) of day \<open>d\<close>, the month counted from 0; \<open>make_day y m dt\<close> is \<open>MakeDay(y, m, dt)\<close>, which carries a month outside 0..11 into the year and a date outside the month into the neighbouring months.\<close>

definition civil_of_day :: "int \<Rightarrow> int \<times> int \<times> int" where
  "civil_of_day d =
     (let y = year_from_day d; l = in_leap_year y; k = d - day_from_year y; m = find_month l k 0
      in (y, int m, k - month_start l m + 1))"

definition make_day :: "int \<Rightarrow> int \<Rightarrow> int \<Rightarrow> int" where
  "make_day y m dt =
     (let ym = y + m div 12; mn = nat (m mod 12)
      in day_from_year ym + month_start (in_leap_year ym) mn + dt - 1)"

definition valid_ymd :: "int \<Rightarrow> int \<Rightarrow> int \<Rightarrow> bool" where
  "valid_ymd y m dt \<longleftrightarrow> 0 \<le> m \<and> m < 12 \<and> 1 \<le> dt \<and> dt \<le> month_lengths (in_leap_year y) ! nat m"

lemma month_start_0 [simp]: "month_start l 0 = 0"
  by (simp add: month_start_def)

lemma find_month_unique:
  assumes "month_start l m \<le> k" "k < month_start l (Suc m)" "m \<le> 11"
  shows "find_month l k 0 = m"
proof -
  have k12: "k < month_start l 12"
    using assms month_start_mono [of "Suc m" 12 l] by linarith
  have k0: "month_start l 0 \<le> k"
    using assms month_start_mono [of 0 m l] by simp
  from find_month_spec [OF _ k0 k12] assms show ?thesis
    using month_interval_unique by blast
qed

lemma civil_of_make_day:
  assumes "valid_ymd y m dt"
  shows "civil_of_day (make_day y m dt) = (y, m, dt)"
proof -
  let ?l = "in_leap_year y"
  let ?k = "month_start ?l (nat m) + dt - 1"
  from assms have m: "0 \<le> m" "m < 12" and dt: "1 \<le> dt" "dt \<le> month_lengths ?l ! nat m"
    by (auto simp: valid_ymd_def)
  have md: "make_day y m dt = day_from_year y + ?k"
    using m by (simp add: make_day_def)
  have lo: "month_start ?l (nat m) \<le> ?k" using dt by simp
  have hi: "?k < month_start ?l (Suc (nat m))"
    using dt m month_start_Suc [of "nat m" ?l] by simp
  have hi12: "?k < days_in_year y"
    using hi month_start_mono [of "Suc (nat m)" 12 ?l] m month_start_12 [of y] by linarith
  have "month_start ?l 0 \<le> month_start ?l (nat m)"
    using m by (intro month_start_mono) simp_all
  then have k0: "0 \<le> ?k" using dt by simp
  have yr: "year_from_day (day_from_year y + ?k) = y"
    using k0 hi12 by (intro year_from_day_eq) (simp_all add: day_from_year_succ)
  have fm: "find_month ?l ?k 0 = nat m"
    using lo hi m by (intro find_month_unique) simp_all
  show ?thesis
    unfolding md civil_of_day_def Let_def yr using m by (simp add: fm)
qed

lemma civil_of_day_valid:
  "civil_of_day d = (y, m, dt) \<Longrightarrow> valid_ymd y m dt \<and> make_day y m dt = d"
proof -
  assume c: "civil_of_day d = (y, m, dt)"
  let ?y = "year_from_day d"
  let ?l = "in_leap_year ?y"
  let ?k = "d - day_from_year ?y"
  let ?m = "find_month ?l ?k 0"
  have yb: "day_from_year ?y \<le> d" "d < day_from_year (?y + 1)"
    using year_from_day_bounds [of d] by simp_all
  have k12: "?k < month_start ?l 12"
    using yb by (simp add: month_start_12 day_from_year_succ)
  have spec: "month_start ?l ?m \<le> ?k \<and> ?k < month_start ?l (Suc ?m) \<and> ?m \<le> 11"
    using find_month_spec [of 0 ?l ?k] k12 yb by simp
  have c': "(?y, int ?m, ?k - month_start ?l ?m + 1) = (y, m, dt)"
    using c unfolding civil_of_day_def Let_def .
  then have eqs: "y = ?y" "m = int ?m" "dt = ?k - month_start ?l ?m + 1"
    by (simp_all only: prod.inject) blast+
  have "valid_ymd y m dt"
    using spec month_start_Suc [of ?m ?l] unfolding eqs valid_ymd_def by simp
  moreover have "make_day y m dt = d"
    using spec unfolding eqs by (simp add: make_day_def)
  ultimately show ?thesis by blast
qed

lemma make_day_succ_month_0:
  assumes "0 \<le> m" "m < 12"
  shows "make_day y (m + 1) 0 = make_day y m (month_lengths (in_leap_year y) ! nat m)"
proof (cases "m = 11")
  case True
  have "make_day y 12 0 = day_from_year (y + 1) - 1" by (simp add: make_day_def)
  also have "\<dots> = day_from_year y + month_start (in_leap_year y) 12 - 1"
    by (simp add: day_from_year_succ month_start_12)
  also have "month_start (in_leap_year y) 12 = month_start (in_leap_year y) 11 + month_lengths (in_leap_year y) ! 11"
    using month_start_Suc [of 11 "in_leap_year y"] by (simp add: eval_nat_numeral)
  finally show ?thesis using True by (simp add: make_day_def)
next
  case False
  with assms have m: "m + 1 < 12" by simp
  then have "nat (m + 1) = Suc (nat m)" using assms by simp
  then show ?thesis
    using assms m month_start_Suc [of "nat m" "in_leap_year y"] by (simp add: make_day_def)
qed

lemma make_day_0_0: "make_day y 0 0 = make_day (y - 1) 11 31"
proof -
  have "make_day (y - 1) 11 31 = make_day (y - 1) 11 (month_lengths (in_leap_year (y - 1)) ! 11)"
    by (simp add: month_lengths_def)
  also have "\<dots> = make_day (y - 1) 12 0"
    using make_day_succ_month_0 [of 11 "y - 1"] by simp
  also have "\<dots> = make_day y 0 0" by (simp add: make_day_def)
  finally show ?thesis by simp
qed

section \<open>Time values and Date objects\<close>

text \<open>A time value is milliseconds since the epoch, UTC; \<open>None\<close> is NaN (an Invalid
  Date). The local-time getters add the offset \<open>tza\<close>.\<close>

type_synonym time_value = "int option"

definition ms_per_day :: int where
  "ms_per_day = 86400000"

definition day_of :: "int \<Rightarrow> int" where
  "day_of t = t div ms_per_day"

definition week_day :: "int \<Rightarrow> int" where
  "week_day d = (d + 4) mod 7"

definition local_civil :: "int \<Rightarrow> int \<Rightarrow> int \<times> int \<times> int" where
  "local_civil tza t = civil_of_day (day_of (t + tza))"

text \<open>The local-time getters on a valid time value, and on a possibly invalid one
  (\<open>getFullYear\<close>, \<open>getMonth\<close>, \<open>getDate\<close>, \<open>getDay\<close>: NaN for an Invalid Date).\<close>

definition year_of :: "int \<Rightarrow> int \<Rightarrow> int" where
  "year_of tza t = fst (local_civil tza t)"

definition month_of :: "int \<Rightarrow> int \<Rightarrow> int" where
  "month_of tza t = fst (snd (local_civil tza t))"

definition date_of :: "int \<Rightarrow> int \<Rightarrow> int" where
  "date_of tza t = snd (snd (local_civil tza t))"

definition weekday_of :: "int \<Rightarrow> int \<Rightarrow> int" where
  "weekday_of tza t = week_day (day_of (t + tza))"

definition get_full_year :: "int \<Rightarrow> time_value \<Rightarrow> jsnum" where
  "get_full_year tza tv = map_option (year_of tza) tv"

definition get_month :: "int \<Rightarrow> time_value \<Rightarrow> jsnum" where
  "get_month tza tv = map_option (month_of tza) tv"

definition get_date :: "int \<Rightarrow> time_value \<Rightarrow> jsnum" where
  "get_date tza tv = map_option (date_of tza) tv"

definition get_day :: "int \<Rightarrow> time_value \<Rightarrow> jsnum" where
  "get_day tza tv = map_option (weekday_of tza) tv"

text \<open>\<open>new Date(y, m, d)\<close> (ECMA-262 21.4.2.1): a year between 0 and 99 stands for
  1900 + y; the result is local midnight of \<open>MakeDay(yr, m, d)\<close>. It is never NaN for
  the arguments the program passes (\<open>TimeClip\<close> is not modelled).\<close>

definition js_full_year :: "int \<Rightarrow> int" where
  "js_full_year y = (if 0 \<le> y \<and> y \<le> 99 then 1900 + y else y)"

definition make_local :: "int \<Rightarrow> int \<Rightarrow> int \<Rightarrow> int \<Rightarrow> int" where
  "make_local tza y m d = make_day (js_full_year y) m d * ms_per_day - tza"

text \<open>\<open>new Date(s)\<close> for a string \<open>s\<close>: the date-only form \<open>YYYY-MM-DD\<close> of the
  ECMAScript date time string format denotes UTC midnight. Every other string is an
  Invalid Date here (ECMAScript leaves them to the implementation; the program only
  passes strings built by \<open>formatDate\<close>).\<close>

fun parse_iso_date :: "string \<Rightarrow> int option" where
  "parse_iso_date [y1, y2, y3, y4, s1, m1, m2, s2, d1, d2] =
     (if s1 = CHR ''-'' \<and> s2 = CHR ''-'' \<and> list_all (is_radix_digit 10) [y1, y2, y3, y4, m1, m2, d1, d2]
      then (let y = int (digits_to_nat 10 [y1, y2, y3, y4]);
                mo = int (digits_to_nat 10 [m1, m2]);
                d = int (digits_to_nat 10 [d1, d2])
            in if 1 \<le> mo \<and> mo \<le> 12 \<and> 1 \<le> d \<and> d \<le> 31 then Some (make_day y (mo - 1) d) else None)
      else None)"
| "parse_iso_date _ = None"

definition new_date_string :: "string \<Rightarrow> time_value" where
  "new_date_string s = map_option (\<lambda>d. d * ms_per_day) (parse_iso_date s)"

text \<open>\<open>setMonth(m)\<close>: the local year and date are kept, the month replaced, and
  \<open>MakeDay\<close> normalises a date past the end of the new month into the next one.\<close>

definition set_month :: "int \<Rightarrow> int \<Rightarrow> int \<Rightarrow> int" where
  "set_month tza t m =
     (let lt = t + tza; (y, _, dt) = civil_of_day (day_of lt)
      in make_day y m dt * ms_per_day + lt mod ms_per_day - tza)"

section \<open>Lemmas on Date objects\<close>

lemma day_of_days [simp]: "day_of (d * ms_per_day + r) = d + r div ms_per_day"
  by (simp add: day_of_def ms_per_day_def)

lemma day_of_midnight [simp]: "day_of (d * ms_per_day) = d"
  by (simp add: day_of_def ms_per_day_def)

lemma week_day_range: "0 \<le> week_day d \<and> week_day d < 7"
  by (simp add: week_day_def)

lemma js_full_year_large [simp]: "100 \<le> y \<Longrightarrow> js_full_year y = y"
  by (simp add: js_full_year_def)

lemma local_civil_make_local:
  "local_civil tza (make_local tza y m d) = civil_of_day (make_day (js_full_year y) m d)"
  by (simp add: local_civil_def make_local_def)

lemma weekday_of_make_local: "weekday_of tza (make_local tza y m d) = week_day (make_day (js_full_year y) m d)"
  by (simp add: weekday_of_def make_local_def)

text \<open>The local-time getters stay in their ranges.\<close>

lemma month_of_range: "0 \<le> month_of tza t \<and> month_of tza t < 12"
proof -
  obtain y m d where c: "civil_of_day (day_of (t + tza)) = (y, m, d)" by (cases "civil_of_day (day_of (t + tza))") auto
  then have "valid_ymd y m d" using civil_of_day_valid by blast
  then show ?thesis using c by (simp add: month_of_def local_civil_def valid_ymd_def)
qed


lemma date_of_range:
  "1 \<le> date_of tza t \<and> date_of tza t \<le> month_lengths (in_leap_year (year_of tza t)) ! nat (month_of tza t)"
proof -
  obtain y m d where c: "local_civil tza t = (y, m, d)" by (cases "local_civil tza t") auto
  then have "valid_ymd y m d" using civil_of_day_valid by (simp add: local_civil_def)
  then show ?thesis using c by (simp add: valid_ymd_def date_of_def year_of_def month_of_def)
qed


text \<open>\<open>new Date(y, m, d)\<close> of a valid date (of the year \<open>js_full_year y\<close>) reads back as
  that date in local time.\<close>

lemma make_local_civil:
  "valid_ymd (js_full_year y) m d \<Longrightarrow>
   year_of tza (make_local tza y m d) = js_full_year y \<and> month_of tza (make_local tza y m d) = m
   \<and> date_of tza (make_local tza y m d) = d"
  by (simp add: year_of_def month_of_def date_of_def local_civil_make_local civil_of_make_day)

text \<open>A date string is parsed as UTC midnight and read in local time: the local
  calendar day is the parsed day moved by \<open>tza div ms_per_day\<close> days, that is the
  previous day wherever the local time is behind UTC.\<close>

lemma local_day_of_utc_midnight: "day_of (D * ms_per_day + tza) = D + tza div ms_per_day"
  by (rule day_of_days)

lemma week_day_shift: "week_day (a + s) = week_day (b + s) \<longleftrightarrow> week_day a = week_day b"
  by (simp add: week_day_def mod_eq_dvd_iff algebra_simps)

lemma tza_day_shift:
  "- ms_per_day \<le> tza \<Longrightarrow> tza < ms_per_day \<Longrightarrow> tza div ms_per_day = (if tza < 0 then -1 else 0)"
  by (auto simp: ms_per_day_def div_eq_minus1 intro: div_pos_pos_trivial)

lemma nat_less_12 [simp]: "m < 12 \<Longrightarrow> nat m < 12"
  by linarith

lemma valid_month_index: "valid_ymd y m d \<Longrightarrow> nat m < 12"
  unfolding valid_ymd_def by linarith

text \<open>\<open>setMonth\<close> reads the local year and date and rebuilds the day with \<open>MakeDay\<close>;
  \<open>MakeDay\<close> carries the month into the year.\<close>

lemma local_civil_set_month:
  "local_civil tza t = (y, m, dt) \<Longrightarrow> local_civil tza (set_month tza t m') = civil_of_day (make_day y m' dt)"
  by (simp add: set_month_def local_civil_def ms_per_day_def day_of_def)

lemma make_day_normal: "make_day y m dt = make_day (y + m div 12) (m mod 12) dt"
  by (simp add: make_day_def)

end
