(* ===== verification/Date_Utils.thy ===== *)
theory Date_Utils
  imports Date_Runtime
begin

text \<open>
  The two pure helpers of \<open>src/script.js\<close>: \<open>formatDate\<close> (lines 50--52), which builds
  the \<open>YYYY-MM-DD\<close> keys of the task index, and \<open>convertTo12Hour\<close> (lines 59--65), which
  labels the hour slots of the day view; and the \<open>HH:00\<close> slot keys built in
  \<open>renderDayView\<close> (line 196). The lemmas show that a key of a valid date in the years
  1000--9999 is parsed back by \<open>new Date(key)\<close> to the same calendar day
  (\<open>parse_formatDate\<close>), and compute the label of every slot key.
\<close>

section \<open>Definitions\<close>

definition formatDate :: "int \<Rightarrow> int \<Rightarrow> int \<Rightarrow> string" where
  "formatDate year month day =
     js_string_of_int year @ ''-'' @ pad_start 2 CHR ''0'' (js_string_of_int month) @ ''-''
     @ pad_start 2 CHR ''0'' (js_string_of_int day)"

definition convertTo12Hour :: "string \<Rightarrow> string" where
  "convertTo12Hour time24 =
     (let parts = js_split CHR '':'' time24;
          hourStr = hd parts;
          minute = (case tl parts of m # _ \<Rightarrow> m | [] \<Rightarrow> ''undefined'');
          hour = js_parse_int hourStr;
          ampm = (if js_ge hour 12 then ''PM'' else ''AM'');
          hour12 = (case js_rem hour 12 of Some h \<Rightarrow> if h \<noteq> 0 then h else 12 | None \<Rightarrow> 12)
      in js_string_of_int hour12 @ '':'' @ minute @ '' '' @ ampm)"

text \<open>The slot key of an hour: \<open>`${String(hour).padStart(2, '0')}:00`\<close>.\<close>

definition time24_of_hour :: "nat \<Rightarrow> string" where
  "time24_of_hour hour = pad_start 2 CHR ''0'' (js_string_of_int (int hour)) @ '':00''"

section \<open>Digit strings\<close>

lemma length_nat_digits_le: "0 < k \<Longrightarrow> length (nat_digits n) \<le> k \<longleftrightarrow> n < 10 ^ k"
proof (induction n arbitrary: k rule: nat_digits.induct)
  case (1 n)
  show ?case
  proof (cases "n < 10")
    case True
    have "10 ^ 1 \<le> (10::nat) ^ k" using "1.prems" by (intro power_increasing) simp_all
    then show ?thesis using "1.prems" True
      by (simp add: nat_digits.simps [of n])
  next
    case False
    then obtain j where k: "k = Suc j" using "1.prems" by (cases k) auto
    show ?thesis
    proof (cases "j = 0")
      case True
      with False k show ?thesis by (simp add: nat_digits.simps [of n])
    next
      case j: False
      with "1.IH" False k have "length (nat_digits (n div 10)) \<le> j \<longleftrightarrow> n div 10 < 10 ^ j"
        by simp
      then show ?thesis using False k
        by (simp add: nat_digits.simps [of n] div_less_iff_less_mult mult.commute)
    qed
  qed
qed

lemma length_nat_digits_eq:
  "10 ^ k \<le> n \<Longrightarrow> n < 10 ^ Suc k \<Longrightarrow> length (nat_digits n) = Suc k"
proof -
  assume lo: "10 ^ k \<le> n" and hi: "n < 10 ^ Suc k"
  have "length (nat_digits n) \<le> Suc k" using hi length_nat_digits_le [of "Suc k" n] by simp
  moreover have "\<not> length (nat_digits n) \<le> k"
  proof (cases k)
    case 0
    then show ?thesis by (simp add: nat_digits.simps [of n])
  next
    case (Suc j)
    then show ?thesis using lo length_nat_digits_le [of k n] by simp
  qed
  ultimately show ?thesis by simp
qed

lemma four_digits:
  assumes "1000 \<le> y" "y < 10000"
  obtains a b c d where "js_string_of_int y = [a, b, c, d]"
    "list_all (is_radix_digit 10) [a, b, c, d]" "int (digits_to_nat 10 [a, b, c, d]) = y"
proof -
  have "length (nat_digits (nat y)) = 4"
    using assms length_nat_digits_eq [of 3 "nat y"] by simp
  then obtain a b c d where e: "nat_digits (nat y) = [a, b, c, d]"
    by (auto simp: length_Suc_conv numeral_eq_Suc)
  have "list_all (is_radix_digit 10) (nat_digits (nat y))" by simp
  moreover have "digits_to_nat 10 (nat_digits (nat y)) = nat y" by simp
  ultimately show ?thesis using that [of a b c d] assms e by (simp add: js_string_of_int_def)
qed

lemma two_digits:
  assumes "0 \<le> m" "m < 100"
  obtains a b where "pad_start 2 CHR ''0'' (js_string_of_int m) = [a, b]"
    "list_all (is_radix_digit 10) [a, b]" "int (digits_to_nat 10 [a, b]) = m"
proof (cases "m < 10")
  case True
  define b where "b = digit_char (nat m)"
  have e: "nat_digits (nat m) = [b]"
    using True by (simp add: nat_digits.simps [of "nat m"] b_def)
  have "list_all (is_radix_digit 10) (nat_digits (nat m))" by simp
  moreover have "digits_to_nat 10 (nat_digits (nat m)) = nat m" by simp
  moreover have "is_radix_digit 10 CHR ''0''" by (simp add: is_radix_digit_def radix_digit_def)
  moreover have "digits_to_nat 10 [CHR ''0'', b] = digits_to_nat 10 [b]"
    using digits_to_nat_zeros [of 1 "[b]"] by simp
  ultimately show ?thesis using that [of "CHR ''0''" b] assms e
    by (simp add: js_string_of_int_def pad_start_def)
next
  case False
  then have "length (nat_digits (nat m)) = 2"
    using assms length_nat_digits_eq [of 1 "nat m"] by simp
  then obtain a b where e: "nat_digits (nat m) = [a, b]"
    by (auto simp: length_Suc_conv numeral_eq_Suc)
  have "list_all (is_radix_digit 10) (nat_digits (nat m))" by simp
  moreover have "digits_to_nat 10 (nat_digits (nat m)) = nat m" by simp
  ultimately show ?thesis using that [of a b] assms e
    by (simp add: js_string_of_int_def pad_start_def)
qed

section \<open>Date keys\<close>

text \<open>A key built by \<open>formatDate\<close> from a valid date of a four-digit year is read back
  by \<open>new Date(key)\<close> as that calendar day (0-based month \<open>m\<close>, key month \<open>m + 1\<close>).\<close>

lemma parse_formatDate:
  assumes y: "1000 \<le> y" "y \<le> 9999" and v: "valid_ymd y m d"
  shows "parse_iso_date (formatDate y (m + 1) d) = Some (make_day y m d)"
proof -
  from v have m: "0 \<le> m" "m < 12" and d: "1 \<le> d" "d \<le> month_lengths (in_leap_year y) ! nat m"
    by (auto simp: valid_ymd_def)
  have "nat m < 12" using m by simp
  then have d31: "d \<le> 31" using d month_lengths_le [of "nat m" "in_leap_year y"] by simp
  have y': "y < 10000" using y by simp
  obtain y1 y2 y3 y4 where ye: "js_string_of_int y = [y1, y2, y3, y4]"
    and yd: "list_all (is_radix_digit 10) [y1, y2, y3, y4]"
    and yv: "int (digits_to_nat 10 [y1, y2, y3, y4]) = y"
    by (rule four_digits [OF y(1) y'])
  have m': "0 \<le> m + 1" "m + 1 < 100" using m by simp_all
  obtain m1 m2 where me: "pad_start 2 CHR ''0'' (js_string_of_int (m + 1)) = [m1, m2]"
    and md: "list_all (is_radix_digit 10) [m1, m2]"
    and mv: "int (digits_to_nat 10 [m1, m2]) = m + 1"
    by (rule two_digits [OF m'])
  have d': "0 \<le> d" "d < 100" using d d31 by simp_all
  obtain d1 d2 where de: "pad_start 2 CHR ''0'' (js_string_of_int d) = [d1, d2]"
    and dd: "list_all (is_radix_digit 10) [d1, d2]"
    and dv: "int (digits_to_nat 10 [d1, d2]) = d"
    by (rule two_digits [OF d'])
  have key: "formatDate y (m + 1) d = [y1, y2, y3, y4, CHR ''-'', m1, m2, CHR ''-'', d1, d2]"
    by (simp add: formatDate_def ye me de)
  show ?thesis
    unfolding key using yd md dd yv mv dv m d d31 by (simp add: Let_def)
qed

section \<open>Hour labels\<close>

lemma time24_of_hour_split:
  assumes "h < 100"
  obtains a b where "time24_of_hour h = [a, b] @ '':00''"
    "list_all (is_radix_digit 10) [a, b]" "int (digits_to_nat 10 [a, b]) = int h"
proof -
  have h: "0 \<le> int h" "int h < 100" using assms by simp_all
  show ?thesis using two_digits [OF h] that unfolding time24_of_hour_def by blast
qed

text \<open>The label of the slot key of hour \<open>h\<close>: hours 0 and 12 are shown as 12, the
  others modulo 12, before noon with AM and from noon on with PM.\<close>

lemma convertTo12Hour_time24:
  assumes "h < 24"
  shows "convertTo12Hour (time24_of_hour h) =
           js_string_of_int (if h mod 12 = 0 then 12 else int (h mod 12)) @ '':00 ''
           @ (if h < 12 then ''AM'' else ''PM'')"
proof -
  have h: "h < 100" using assms by simp
  obtain a b where e: "time24_of_hour h = [a, b] @ '':00''"
    and ds: "list_all (is_radix_digit 10) [a, b]" and v: "int (digits_to_nat 10 [a, b]) = int h"
    by (rule time24_of_hour_split [OF h])
  have sp: "js_split CHR '':'' (time24_of_hour h) = [[a, b], ''00'']"
    using ds is_radix_digit_10_not_special(2) unfolding e by simp
  have pi: "js_parse_int [a, b] = Some (int h)"
    using js_parse_int_digits [of "[a, b]"] ds v by simp
  have r: "int h smod 12 = int (h mod 12)"
    by (simp add: smod_nonneg_eq_mod zmod_int)
  show ?thesis
    unfolding convertTo12Hour_def Let_def sp using pi r by simp
qed

end
