(* ===== verification/Recurrence.thy ===== *)
theory Recurrence
  imports Task_Store Date_Utils
begin

text \<open>
  Recurrence matching in \<open>src/script.js\<close>: \<open>hasTasks(date)\<close> (lines 141--167), which
  marks a calendar cell, and the date fields that \<open>hasTasks\<close>, \<open>renderDayView\<close>
  (lines 235, 256--257) and \<open>addTask\<close> (lines 335, 344--346) read from
  \<open>new Date(dateKey)\<close>. The rules a weekly or yearly submission pushes are built here
  from the same fields (\<open>weekly_rule\<close>, \<open>yearly_rule\<close>).

  The results: the loop with its early return decides "some rule matches"
  (\<open>any_rule_matches_iff\<close>); under the store invariant \<open>hasTasks\<close> is the
  specification's \<open>hasAnyTaskOn\<close> (a non-empty slot on that date, or a matching rule);
  and the date fields of a key are those of the calendar day \<open>tza div ms_per_day\<close> days
  away from it, because the key is parsed as UTC and read in local time; the rules
  recorded have the field ranges of the specification's RecurringRule
  (\<open>rule_fields_ok\<close>), NaN exactly for keys that do not parse.
\<close>

section \<open>Definitions\<close>

text \<open>(\<open>getDay()\<close>, \<open>getMonth() + 1\<close>, \<open>getDate()\<close>) of \<open>new Date(date)\<close>; NaN for a string
  that is no date.\<close>

definition date_parts :: "int \<Rightarrow> string \<Rightarrow> jsnum \<times> jsnum \<times> jsnum" where
  "date_parts tza date =
     (let dateObj = new_date_string date
      in (get_day tza dateObj, map_option (\<lambda>m. m + 1) (get_month tza dateObj), get_date tza dateObj))"

fun rule_matches :: "jsnum \<times> jsnum \<times> jsnum \<Rightarrow> recurring \<Rightarrow> bool" where
  "rule_matches (dow, m, d) (Weekly dw _ _) = js_num_eq dw dow"
| "rule_matches (dow, m, d) (Yearly mo dy _ _) = (js_num_eq mo m \<and> js_num_eq dy d)"

text \<open>The \<open>for\<close> loop over \<open>recurringTasks\<close> with its early \<open>return true\<close>.\<close>

fun any_rule_matches :: "jsnum \<times> jsnum \<times> jsnum \<Rightarrow> recurring list \<Rightarrow> bool" where
  "any_rule_matches p [] = False"
| "any_rule_matches p (r # rs) = (if rule_matches p r then True else any_rule_matches p rs)"

text \<open>\<open>tasks[date] && Object.keys(tasks[date]).length > 0\<close>.\<close>

definition has_one_time :: "task_index \<Rightarrow> string \<Rightarrow> bool" where
  "has_one_time tasks date = (case map_of tasks date of Some s \<Rightarrow> 0 < length s | None \<Rightarrow> False)"

definition hasTasks :: "int \<Rightarrow> task_index \<Rightarrow> recurring list \<Rightarrow> string \<Rightarrow> bool" where
  "hasTasks tza tasks recurringTasks date =
     (if has_one_time tasks date then True
      else any_rule_matches (date_parts tza date) recurringTasks)"

text \<open>The rules pushed by the weekly and the yearly branch of \<open>addTask\<close>.\<close>

definition weekly_rule :: "int \<Rightarrow> string \<Rightarrow> string \<Rightarrow> string \<Rightarrow> recurring" where
  "weekly_rule tza selectedDate selectedTime d =
     Weekly (get_day tza (new_date_string selectedDate)) selectedTime d"

definition yearly_rule :: "int \<Rightarrow> string \<Rightarrow> string \<Rightarrow> string \<Rightarrow> recurring" where
  "yearly_rule tza selectedDate selectedTime d =
     (let dateObj = new_date_string selectedDate
      in Yearly (map_option (\<lambda>m. m + 1) (get_month tza dateObj)) (get_date tza dateObj) selectedTime d)"

text \<open>The field ranges of the specification's RecurringRule (section 3): a weekday
  0--6, a month 1--12, a day 1--31; NaN (\<open>None\<close>) is read as "no range".\<close>

fun rule_fields_ok :: "recurring \<Rightarrow> bool" where
  "rule_fields_ok (Weekly dw _ _) = (case dw of None \<Rightarrow> True | Some w \<Rightarrow> 0 \<le> w \<and> w \<le> 6)"
| "rule_fields_ok (Yearly mo dy _ _) =
     ((case mo of None \<Rightarrow> True | Some m \<Rightarrow> 1 \<le> m \<and> m \<le> 12) \<and> (case dy of None \<Rightarrow> True | Some d \<Rightarrow> 1 \<le> d \<and> d \<le> 31))"

section \<open>The loop and the specification\<close>

lemma any_rule_matches_iff: "any_rule_matches p rs \<longleftrightarrow> (\<exists>r \<in> set rs. rule_matches p r)"
  by (induction rs) auto

lemma has_one_time_wf:
  assumes "tasks_wf tasks"
  shows "has_one_time tasks date \<longleftrightarrow> (\<exists>time. slot_tasks tasks date time \<noteq> [])"
proof (cases "map_of tasks date")
  case None
  then show ?thesis by (simp add: has_one_time_def slot_tasks_def slots_of_def)
next
  case (Some s)
  have sw: "slots_wf s" using assms Some by (rule tasks_wf_slots)
  then obtain t l where "s = (t, l) # tl s" by (cases s) (auto simp: slots_wf_def)
  then have "map_of s t = Some l" by (metis map_of_Cons_code(2))
  moreover have "l \<noteq> []" using sw calculation by (rule slots_wf_entry)
  ultimately have "slot_tasks tasks date t \<noteq> []"
    using Some by (simp add: slot_tasks_def slots_of_def)
  then have "\<exists>time. slot_tasks tasks date time \<noteq> []" by blast
  moreover have "0 < length s" using sw by (simp add: slots_wf_def)
  ultimately show ?thesis using Some by (simp add: has_one_time_def)
qed

section \<open>Date fields of a key\<close>

lemma new_date_string_formatDate:
  "1000 \<le> y \<Longrightarrow> y \<le> 9999 \<Longrightarrow> valid_ymd y m d \<Longrightarrow>
   new_date_string (formatDate y (m + 1) d) = Some (make_day y m d * ms_per_day)"
  by (simp add: new_date_string_def parse_formatDate)

lemma date_parts_formatDate:
  assumes "1000 \<le> y" "y \<le> 9999" "valid_ymd y m d"
  shows "date_parts tza (formatDate y (m + 1) d) =
           (let D = make_day y m d + tza div ms_per_day
            in (Some (week_day D), Some (fst (snd (civil_of_day D)) + 1), Some (snd (snd (civil_of_day D)))))"
  using assms
  by (simp add: date_parts_def new_date_string_formatDate get_day_def get_month_def get_date_def
                weekday_of_def month_of_def date_of_def local_civil_def Let_def)

section \<open>hasTasks implements hasAnyTaskOn\<close>

text \<open>Claim C2: on a store that satisfies the pruning invariant, \<open>hasTasks\<close> holds of a
  date key exactly when some time slot of that date has an entry or some recurring rule
  matches the date fields read from the key (the specification's \<open>hasAnyTaskOn\<close>).\<close>

theorem hasTasks_spec:
  "tasks_wf tasks \<Longrightarrow>
   hasTasks tza tasks rs date \<longleftrightarrow>
     (\<exists>time. slot_tasks tasks date time \<noteq> []) \<or> (\<exists>r \<in> set rs. rule_matches (date_parts tza date) r)"
  by (simp add: hasTasks_def has_one_time_wf any_rule_matches_iff)

text \<open>A weekly rule for Mondays marks 2024-05-07 when local time is four hours behind UTC.\<close>

theorem hasTasks_spec_witness:
  "tasks_wf [] \<and> hasTasks (-14400000) [] [Weekly (Some 1) ''10:00'' ''Standup''] ''2024-05-07''"
proof -
  have wf: "tasks_wf []" by (simp add: tasks_wf_def)
  have "rule_matches (date_parts (-14400000) ''2024-05-07'') (Weekly (Some 1) ''10:00'' ''Standup'')"
    by code_simp
  then show ?thesis using wf hasTasks_spec [OF wf, of "-14400000" "[Weekly (Some 1) ''10:00'' ''Standup'']"]
    by auto
qed

section \<open>Date fields of keys and the time zone\<close>

lemma weekly_rule_parts: "weekly_rule tza k t x = Weekly (fst (date_parts tza k)) t x"
  by (simp add: weekly_rule_def date_parts_def Let_def)

lemma yearly_rule_parts:
  "yearly_rule tza k t x = Yearly (fst (snd (date_parts tza k))) (snd (snd (date_parts tza k))) t x"
  by (simp add: yearly_rule_def date_parts_def Let_def)

lemma hasTasks_single_rule: "hasTasks tza [] [r] k \<longleftrightarrow> rule_matches (date_parts tza k) r"
  by (simp add: hasTasks_def has_one_time_def)

lemma date_parts_shift:
  assumes "1000 \<le> y" "y \<le> 9999" "valid_ymd y m d" "- ms_per_day \<le> tza" "tza < ms_per_day"
  shows "date_parts tza (formatDate y (m + 1) d) =
           (let D = make_day y m d - (if tza < 0 then 1 else 0)
            in (Some (week_day D), Some (fst (snd (civil_of_day D)) + 1), Some (snd (snd (civil_of_day D)))))"
  using date_parts_formatDate [OF assms(1-3), of tza] tza_day_shift [OF assms(4,5)]
  by (simp add: Let_def)

text \<open>Claim C20: where local time is at or ahead of UTC (by less than a day), the date
  fields that the program reads from a key are those of the key's own date: weekday,
  month (1-based) and day.\<close>

theorem key_fields_east:
  assumes "1000 \<le> y" "y \<le> 9999" "valid_ymd y m d" "0 \<le> tza" "tza < ms_per_day"
  shows "date_parts tza (formatDate y (m + 1) d) = (Some (week_day (make_day y m d)), Some (m + 1), Some d)"
proof -
  have "- ms_per_day \<le> tza" using assms(4) by (simp add: ms_per_day_def)
  then show ?thesis
    using date_parts_shift [OF assms(1-3)] assms(3-5) civil_of_make_day [OF assms(3)] by simp
qed

theorem key_fields_east_witness:
  "date_parts 3600000 ''2024-05-07'' = (Some 2, Some 5, Some 7)"
proof -
  have k: "''2024-05-07'' = formatDate 2024 (4 + 1) 7" by code_simp
  have v: "valid_ymd 2024 4 7" by code_simp
  have w: "week_day (make_day 2024 4 7) = 2" by code_simp
  have "date_parts 3600000 (formatDate 2024 (4 + 1) 7) = (Some (week_day (make_day 2024 4 7)), Some (4 + 1), Some 7)"
    by (rule key_fields_east) (simp_all add: v ms_per_day_def)
  then show ?thesis unfolding k w by simp
qed

text \<open>Claim C17: where local time is behind UTC (by less than a day), the date fields
  the program reads from a key are those of the day before the key's date: the key is
  parsed as UTC midnight and read in local time.\<close>

theorem key_fields_west:
  assumes "1000 \<le> y" "y \<le> 9999" "valid_ymd y m d" "- ms_per_day \<le> tza" "tza < 0"
  shows "date_parts tza (formatDate y (m + 1) d) =
           (let D = make_day y m d - 1
            in (Some (week_day D), Some (fst (snd (civil_of_day D)) + 1), Some (snd (snd (civil_of_day D)))))"
proof -
  have "tza < ms_per_day" using assms(5) by (simp add: ms_per_day_def)
  then show ?thesis using date_parts_shift [OF assms(1-4)] assms(5) by simp
qed

theorem key_fields_west_witness:
  "date_parts (-18000000) ''2024-05-07'' = (Some 1, Some 5, Some 6)"
proof -
  have k: "''2024-05-07'' = formatDate 2024 (4 + 1) 7" by code_simp
  have v: "valid_ymd 2024 4 7" by code_simp
  have c: "week_day (make_day 2024 4 7 - 1) = 1" "civil_of_day (make_day 2024 4 7 - 1) = (2024, 4, 6)"
    by code_simp+
  have "date_parts (-18000000) (formatDate 2024 (4 + 1) 7) =
          (let D = make_day 2024 4 7 - 1
           in (Some (week_day D), Some (fst (snd (civil_of_day D)) + 1), Some (snd (snd (civil_of_day D)))))"
    by (rule key_fields_west) (simp_all add: v ms_per_day_def)
  then show ?thesis unfolding k using c by (simp add: Let_def)
qed

text \<open>Claim C15: a weekly task created on a date fires exactly on the dates with the same
  weekday, whatever the time zone (the shift of the key parsing is the same on both
  sides).\<close>

theorem weekly_rule_fires:
  assumes "1000 \<le> y1" "y1 \<le> 9999" "valid_ymd y1 m1 d1"
    and "1000 \<le> y2" "y2 \<le> 9999" "valid_ymd y2 m2 d2"
  shows "hasTasks tza [] [weekly_rule tza (formatDate y1 (m1 + 1) d1) t x] (formatDate y2 (m2 + 1) d2)
           \<longleftrightarrow> week_day (make_day y1 m1 d1) = week_day (make_day y2 m2 d2)"
  using date_parts_formatDate [OF assms(1-3), of tza] date_parts_formatDate [OF assms(4-6), of tza]
  by (simp add: hasTasks_single_rule weekly_rule_parts Let_def week_day_shift)

theorem weekly_rule_fires_witness:
  "hasTasks 0 [] [weekly_rule 0 (formatDate 2024 (4 + 1) 6) ''10:00'' ''Standup''] (formatDate 2024 (4 + 1) 13)"
proof -
  have v: "valid_ymd 2024 4 6" "valid_ymd 2024 4 13" by code_simp+
  have w: "week_day (make_day 2024 4 6) = week_day (make_day 2024 4 13)" by code_simp
  show ?thesis using weekly_rule_fires [OF _ _ v(1) _ _ v(2), of 0 "''10:00''" "''Standup''"] w by simp
qed

text \<open>Claim C16: where local time is at or ahead of UTC, a yearly task created on a date
  fires exactly on the dates of any year with the same month and day.\<close>

theorem yearly_rule_fires_east:
  assumes "1000 \<le> y1" "y1 \<le> 9999" "valid_ymd y1 m1 d1"
    and "1000 \<le> y2" "y2 \<le> 9999" "valid_ymd y2 m2 d2"
    and "0 \<le> tza" "tza < ms_per_day"
  shows "hasTasks tza [] [yearly_rule tza (formatDate y1 (m1 + 1) d1) t x] (formatDate y2 (m2 + 1) d2)
           \<longleftrightarrow> m1 = m2 \<and> d1 = d2"
proof -
  have "- ms_per_day \<le> tza" using assms(7) by (simp add: ms_per_day_def)
  then show ?thesis
    using date_parts_shift [OF assms(1-3), of tza] date_parts_shift [OF assms(4-6), of tza] assms(7,8)
      civil_of_make_day [OF assms(3)] civil_of_make_day [OF assms(6)]
    by (simp add: hasTasks_single_rule yearly_rule_parts Let_def)
qed

theorem yearly_rule_fires_east_witness:
  "hasTasks 0 [] [yearly_rule 0 (formatDate 2023 (11 + 1) 25) ''09:00'' ''Holiday''] (formatDate 2030 (11 + 1) 25)
   \<and> \<not> hasTasks 0 [] [yearly_rule 0 (formatDate 2023 (11 + 1) 25) ''09:00'' ''Holiday''] (formatDate 2024 (11 + 1) 24)"
proof -
  have v: "valid_ymd 2023 11 25" "valid_ymd 2030 11 25" "valid_ymd 2024 11 24" by code_simp+
  have z: "(0::int) < ms_per_day" by (simp add: ms_per_day_def)
  show ?thesis
    using yearly_rule_fires_east [OF _ _ v(1) _ _ v(2) _ z, of "''09:00''" "''Holiday''"]
      yearly_rule_fires_east [OF _ _ v(1) _ _ v(3) _ z, of "''09:00''" "''Holiday''"]
    by simp
qed

lemma date_parts_key:
  assumes "k = formatDate y (m + 1) d" "1000 \<le> y" "y \<le> 9999" "valid_ymd y m d"
    and "- ms_per_day \<le> tza" "tza < ms_per_day"
  shows "date_parts tza k =
           (if tza < 0 then (let D = make_day y m d - 1
              in (Some (week_day D), Some (fst (snd (civil_of_day D)) + 1), Some (snd (snd (civil_of_day D)))))
            else (Some (week_day (make_day y m d)), Some (m + 1), Some d))"
  using date_parts_shift [OF assms(2-6)] civil_of_make_day [OF assms(4)] assms(1)
  by (simp add: Let_def)

text \<open>Claim C18: the two recurrence examples of the specification cannot both hold in any
  time zone within a day of UTC: the weekly Monday rule shows on Tuesday 2024-05-07
  exactly when local time is behind UTC, and the yearly December 25 rule shows on
  2023-12-25 exactly when local time is not behind UTC.\<close>

theorem spec_examples_timezone:
  assumes "- ms_per_day \<le> tza" "tza < ms_per_day"
  shows "(hasTasks tza [] [Weekly (Some 1) ''10:00'' ''Standup''] ''2024-05-07'' \<longleftrightarrow> tza < 0)
       \<and> (hasTasks tza [] [Yearly (Some 12) (Some 25) ''10:00'' ''Holiday''] ''2023-12-25'' \<longleftrightarrow> 0 \<le> tza)"
proof -
  have k1: "date_parts tza ''2024-05-07'' =
              (if tza < 0 then (let D = make_day 2024 4 7 - 1
                 in (Some (week_day D), Some (fst (snd (civil_of_day D)) + 1), Some (snd (snd (civil_of_day D)))))
               else (Some (week_day (make_day 2024 4 7)), Some (4 + 1), Some 7))"
    by (rule date_parts_key [OF _ _ _ _ assms]) code_simp+
  have k2: "date_parts tza ''2023-12-25'' =
              (if tza < 0 then (let D = make_day 2023 11 25 - 1
                 in (Some (week_day D), Some (fst (snd (civil_of_day D)) + 1), Some (snd (snd (civil_of_day D)))))
               else (Some (week_day (make_day 2023 11 25)), Some (11 + 1), Some 25))"
    by (rule date_parts_key [OF _ _ _ _ assms]) code_simp+
  have c: "week_day (make_day 2024 4 7 - 1) = 1" "week_day (make_day 2024 4 7) = 2"
    "civil_of_day (make_day 2023 11 25 - 1) = (2023, 11, 24)"
    by code_simp+
  show ?thesis by (simp add: hasTasks_single_rule k1 k2 c Let_def)
qed

theorem spec_examples_timezone_witness:
  "hasTasks (-18000000) [] [Weekly (Some 1) ''10:00'' ''Standup''] ''2024-05-07''
   \<and> \<not> hasTasks 3600000 [] [Weekly (Some 1) ''10:00'' ''Standup''] ''2024-05-07''"
  using spec_examples_timezone [of "-18000000"] spec_examples_timezone [of 3600000]
  by (simp add: ms_per_day_def)

lemma valid_ymd_march_1: "valid_ymd y 2 1"
  by (simp add: valid_ymd_def month_lengths_def)

text \<open>Claim C19: where local time is behind UTC, a yearly task created on March 1 of a leap
  year records February 29, so it shows on March 1 of the leap years 2024 and 2028 but
  not on March 1 of 2025.\<close>

theorem yearly_leap_day_west:
  assumes "- ms_per_day \<le> tza" "tza < 0"
  shows "hasTasks tza [] [yearly_rule tza ''2024-03-01'' t x] ''2024-03-01''
       \<and> \<not> hasTasks tza [] [yearly_rule tza ''2024-03-01'' t x] ''2025-03-01''
       \<and> hasTasks tza [] [yearly_rule tza ''2024-03-01'' t x] ''2028-03-01''"
proof -
  have b: "tza < ms_per_day" using assms(2) by (simp add: ms_per_day_def)
  have p: "date_parts tza (formatDate y 3 1) = (let D = make_day y 2 1 - 1
              in (Some (week_day D), Some (fst (snd (civil_of_day D)) + 1), Some (snd (snd (civil_of_day D)))))"
    if "1000 \<le> y" "y \<le> 9999" for y
    using date_parts_key [OF refl that valid_ymd_march_1 assms(1) b] assms(2) by simp
  have k: "''2024-03-01'' = formatDate 2024 3 1" "''2025-03-01'' = formatDate 2025 3 1"
    "''2028-03-01'' = formatDate 2028 3 1"
    by code_simp+
  have c: "civil_of_day (make_day 2024 2 1 - 1) = (2024, 1, 29)"
    "civil_of_day (make_day 2025 2 1 - 1) = (2025, 1, 28)"
    "civil_of_day (make_day 2028 2 1 - 1) = (2028, 1, 29)"
    by code_simp+
  show ?thesis unfolding k by (simp add: hasTasks_single_rule yearly_rule_parts p [of 2024] p [of 2025] p [of 2028] c Let_def)
qed

theorem yearly_leap_day_west_witness:
  "\<not> hasTasks (-18000000) [] [yearly_rule (-18000000) ''2024-03-01'' ''09:00'' ''Rent''] ''2025-03-01''"
  using yearly_leap_day_west [of "-18000000" "''09:00''" "''Rent''"] by (simp add: ms_per_day_def)

text \<open>Claim C30: the rules \<open>addTask\<close> records have the types of the specification's
  RecurringRule: the weekday read from the key is in 0..6, the month (\<open>getMonth() + 1\<close>)
  in 1..12 and the day in 1..31, for every key and time zone; a field is NaN exactly
  when the key is not a date the parser accepts.\<close>

theorem recorded_rule_fields:
  "rule_fields_ok (weekly_rule tza k t x) \<and> rule_fields_ok (yearly_rule tza k t x)
   \<and> (dayOfWeek (weekly_rule tza k t x) = None \<longleftrightarrow> new_date_string k = None)
   \<and> (ymonth (yearly_rule tza k t x) = None \<longleftrightarrow> new_date_string k = None)
   \<and> (yday (yearly_rule tza k t x) = None \<longleftrightarrow> new_date_string k = None)"
proof (cases "new_date_string k")
  case (Some tv)
  have w: "0 \<le> weekday_of tza tv \<and> weekday_of tza tv \<le> 6"
    using week_day_range [of "day_of (tv + tza)"] by (simp add: weekday_of_def)
  have m: "0 \<le> month_of tza tv \<and> month_of tza tv < 12" by (rule month_of_range)
  have d: "1 \<le> date_of tza tv \<and> date_of tza tv \<le> 31"
    using date_of_range [of tza tv] month_lengths_le [of "nat (month_of tza tv)" "in_leap_year (year_of tza tv)"] m
    by simp
  show ?thesis using Some w m d
    by (simp add: weekly_rule_def yearly_rule_def get_day_def get_month_def get_date_def Let_def)
next
  case None
  then show ?thesis
    by (simp add: weekly_rule_def yearly_rule_def get_day_def get_month_def get_date_def Let_def)
qed

end
