(* ===== verification/Month_Grid.thy ===== *)
theory Month_Grid
  imports Recurrence
begin

text \<open>
  The month grid of \<open>renderCalendar(date)\<close> (\<open>src/script.js\<close>, lines 71--134). The DOM
  element of a cell is modelled by what it shows and does: its day number, whether it is
  \<open>inactive\<close>, whether it is highlighted as today, whether it carries the \<open>has-task\<close>
  class, and the date key its click handler opens (\<open>None\<close>: no handler). The header
  text is \<open>monthYear_text\<close> (English month names). The value of
  \<open>new Date()\<close> read for the today highlight is the parameter \<open>today\<close>.

  The results: the grid has 42 cells; \<open>firstDay\<close>, \<open>daysInMonth\<close> and
  \<open>prevMonthDays\<close> as the code computes them with \<open>Date\<close> arithmetic are the weekday of
  the first of the month and the lengths of the month and of the month before; the
  active cells are the days \<open>1..daysInMonth\<close> in order, each with the key of its own
  date; inactive cells carry no key; every day number lies in 1..31 and blank cells
  surround the month; exactly one cell is today's when the grid shows today's month.
  The month quantities come from \<open>new Date(year, month, ...)\<close>, which reads a year
  0--99 as 1900 + year: for those years the grid has the layout of the 1900s
  (\<open>renderCalendar_two_digit_year\<close>).
\<close>

section \<open>Definitions\<close>

record cell =
  dayNumber :: int
  inactive :: bool
  isToday :: bool
  hasTask :: bool
  fullDate :: "string option"

text \<open>An inactive cell of the previous or the next month (lines 97--105): a number,
  the class \<open>inactive\<close>, no handler.\<close>

definition blank_cell :: "int \<Rightarrow> cell" where
  "blank_cell n = \<lparr>dayNumber = n, inactive = True, isToday = False, hasTask = False, fullDate = None\<rparr>"

text \<open>A day of the month (lines 107--129): its key, the today highlight, the
  \<open>has-task\<close> class and the handler that opens the day.\<close>

definition day_cell ::
  "int \<Rightarrow> int \<Rightarrow> task_index \<Rightarrow> recurring list \<Rightarrow> int \<Rightarrow> int \<Rightarrow> int \<Rightarrow> cell" where
  "day_cell tza today tasks recurringTasks year month n =
     (let fullDate = formatDate year (month + 1) n
      in \<lparr>dayNumber = n, inactive = False,
          isToday = (n = date_of tza today \<and> month = month_of tza today
                     \<and> year = year_of tza today),
          hasTask = hasTasks tza tasks recurringTasks fullDate,
          fullDate = Some fullDate\<rparr>)"

text \<open>One iteration of the loop over \<open>i\<close> (lines 93--133).\<close>

definition calendar_cell ::
  "int \<Rightarrow> int \<Rightarrow> task_index \<Rightarrow> recurring list \<Rightarrow> int \<Rightarrow> int \<Rightarrow> int \<Rightarrow> int \<Rightarrow> int \<Rightarrow> int \<Rightarrow> cell" where
  "calendar_cell tza today tasks recurringTasks year month firstDay daysInMonth prevMonthDays i =
     (if i < firstDay then blank_cell (prevMonthDays - firstDay + i + 1)
      else if firstDay + daysInMonth \<le> i then blank_cell (i - firstDay - daysInMonth + 1)
      else day_cell tza today tasks recurringTasks year month (i - firstDay + 1))"

definition renderCalendar :: "int \<Rightarrow> int \<Rightarrow> task_index \<Rightarrow> recurring list \<Rightarrow> int \<Rightarrow> cell list" where
  "renderCalendar tza today tasks recurringTasks date =
     (let year = year_of tza date;
          month = month_of tza date;
          firstDay = weekday_of tza (make_local tza year month 1);
          daysInMonth = date_of tza (make_local tza year (month + 1) 0);
          prevMonthDays = date_of tza (make_local tza year month 0);
          totalCells = 42
      in map (\<lambda>i. calendar_cell tza today tasks recurringTasks year month firstDay daysInMonth
                    prevMonthDays (int i)) [0..<totalCells])"

text \<open>The header (lines 76--78): \<open>date.toLocaleDateString(undefined, {month: 'long',
  year: 'numeric'})\<close>, the long month name and the year of the date in local time. The
  locale is the host's default; the model fixes the English (\<open>en-US\<close>) pattern
  \<open>MMMM y\<close>, for the years 1 and later (earlier years are written with an era by ECMA-402
  and are not modelled).\<close>

definition month_long_name :: "int \<Rightarrow> string" where
  "month_long_name m = [''January'', ''February'', ''March'', ''April'', ''May'', ''June'', ''July'',
     ''August'', ''September'', ''October'', ''November'', ''December''] ! nat m"

definition monthYear_text :: "int \<Rightarrow> int \<Rightarrow> string" where
  "monthYear_text tza date = month_long_name (month_of tza date) @ '' '' @ js_string_of_int (year_of tza date)"

section \<open>The quantities of the month\<close>

definition prev_month_length :: "int \<Rightarrow> int \<Rightarrow> int" where
  "prev_month_length y m = (if m = 0 then 31 else month_lengths (in_leap_year y) ! (nat m - 1))"

lemma days_in_month_js:
  assumes "0 \<le> m" "m < 12"
  shows "date_of tza (make_local tza y (m + 1) 0) = month_lengths (in_leap_year (js_full_year y)) ! nat m"
proof -
  have v: "valid_ymd (js_full_year y) m (month_lengths (in_leap_year (js_full_year y)) ! nat m)"
    using assms month_lengths_pos [of "nat m" "in_leap_year (js_full_year y)"] by (simp add: valid_ymd_def)
  have "make_local tza y (m + 1) 0 = make_local tza y m (month_lengths (in_leap_year (js_full_year y)) ! nat m)"
    using assms by (simp add: make_local_def make_day_succ_month_0)
  then show ?thesis using make_local_civil [OF v] by simp
qed

lemma prev_month_days_js:
  assumes "0 \<le> m" "m < 12"
  shows "date_of tza (make_local tza y m 0) = prev_month_length (js_full_year y) m"
proof (cases "m = 0")
  case True
  have v: "valid_ymd (js_full_year y - 1) 11 31" by (simp add: valid_ymd_def month_lengths_def)
  have "make_day (js_full_year y) 0 0 = make_day (js_full_year y - 1) 11 31" by (rule make_day_0_0)
  then show ?thesis using True civil_of_make_day [OF v]
    by (simp add: prev_month_length_def date_of_def local_civil_make_local)
next
  case False
  then have m1: "0 \<le> m - 1" "m - 1 < 12" using assms by simp_all
  have "date_of tza (make_local tza y (m - 1 + 1) 0) = month_lengths (in_leap_year (js_full_year y)) ! nat (m - 1)"
    by (rule days_in_month_js [OF m1])
  moreover have "nat (m - 1) = nat m - 1" using False assms by simp
  ultimately show ?thesis using False by (simp add: prev_month_length_def)
qed

lemma prev_month_length_range: "0 \<le> m \<Longrightarrow> m < 12 \<Longrightarrow> 28 \<le> prev_month_length y m \<and> prev_month_length y m \<le> 31"
  by (auto simp: prev_month_length_def month_lengths_pos month_lengths_le)

section \<open>The grid\<close>

lemma week_day_make_day_range: "0 \<le> week_day d \<and> week_day d \<le> 6"
  using week_day_range [of d] by simp

lemma renderCalendar_unfold:
  assumes "year = year_of tza date" "month = month_of tza date"
  shows "renderCalendar tza today tasks rs date =
           map (\<lambda>i. calendar_cell tza today tasks rs year month (week_day (make_day (js_full_year year) month 1))
                       (month_lengths (in_leap_year (js_full_year year)) ! nat month)
                       (prev_month_length (js_full_year year) month) (int i))
               [0..<42]"
  using assms month_of_range [of tza date]
  by (simp add: renderCalendar_def weekday_of_make_local days_in_month_js prev_month_days_js Let_def)

lemma upt_three_blocks:
  "a \<le> b \<Longrightarrow> b \<le> n \<Longrightarrow> [0..<n] = [0..<a] @ [a..<b] @ [b..<n]"
proof -
  assume ab: "a \<le> b" and bn: "b \<le> n"
  have "[0..<n] = [0..<a] @ [a..<n]"
    using upt_add_eq_append [of 0 a "n - a"] ab bn by simp
  moreover have "[a..<n] = [a..<b] @ [b..<n]"
    using upt_add_eq_append [of a b "n - b"] ab bn by simp
  ultimately show ?thesis by simp
qed

lemma map_blocks:
  fixes f :: "nat \<Rightarrow> 'a"
  assumes "\<And>i. i < a \<Longrightarrow> f i = g1 (int i + c1)"
    and "\<And>i. a \<le> i \<Longrightarrow> i < b \<Longrightarrow> f i = g2 (int i + c2)"
    and "\<And>i. b \<le> i \<Longrightarrow> i < n \<Longrightarrow> f i = g3 (int i + c3)"
    and "a \<le> b" "b \<le> n"
  shows "map f [0..<n] = map g1 [c1..int a + c1 - 1] @ map g2 [int a + c2..int b + c2 - 1]
                         @ map g3 [int b + c3..int n + c3 - 1]"
proof -
  have "map f [0..<a] = map (g1 \<circ> (\<lambda>i. int i + c1)) [0..<a]"
    using assms(1) by (intro map_cong) auto
  moreover have "map f [a..<b] = map (g2 \<circ> (\<lambda>i. int i + c2)) [a..<b]"
    using assms(2) by (intro map_cong) auto
  moreover have "map f [b..<n] = map (g3 \<circ> (\<lambda>i. int i + c3)) [b..<n]"
    using assms(3) by (intro map_cong) auto
  ultimately show ?thesis
    using upt_three_blocks [OF assms(4,5)]
    by (simp only: map_append map_map [symmetric] map_upt_int_shift) simp
qed

lemma dim_range:
  "0 \<le> m \<Longrightarrow> m < 12 \<Longrightarrow> 28 \<le> month_lengths l ! nat m \<and> month_lengths l ! nat m \<le> 31"
  using month_lengths_pos [of "nat m" l] month_lengths_le [of "nat m" l] by simp

lemma renderCalendar_blocks_aux:
  assumes fd: "0 \<le> fd" "fd \<le> 6" and dim: "28 \<le> dim" "dim \<le> 31"
  shows "map (\<lambda>i. calendar_cell tza today tasks rs year month fd dim prev (int i)) [0..<42] =
           map blank_cell [prev - fd + 1..prev] @ map (day_cell tza today tasks rs year month) [1..dim]
           @ map blank_cell [1..42 - fd - dim]"
proof -
  let ?f = "\<lambda>i. calendar_cell tza today tasks rs year month fd dim prev (int i)"
  have "map ?f [0..<42] =
          map blank_cell [prev - fd + 1..int (nat fd) + (prev - fd + 1) - 1]
          @ map (day_cell tza today tasks rs year month) [int (nat fd) + (1 - fd)..int (nat (fd + dim)) + (1 - fd) - 1]
          @ map blank_cell [int (nat (fd + dim)) + (1 - fd - dim)..int 42 + (1 - fd - dim) - 1]"
  proof (rule map_blocks)
    fix i :: nat
    assume "i < nat fd"
    then show "?f i = blank_cell (int i + (prev - fd + 1))"
      by (simp add: calendar_cell_def algebra_simps)
  next
    fix i :: nat
    assume "nat fd \<le> i" "i < nat (fd + dim)"
    then show "?f i = day_cell tza today tasks rs year month (int i + (1 - fd))"
      using fd by (simp add: calendar_cell_def algebra_simps)
  next
    fix i :: nat
    assume "nat (fd + dim) \<le> i" "i < 42"
    then show "?f i = blank_cell (int i + (1 - fd - dim))"
      using fd dim by (simp add: calendar_cell_def algebra_simps)
  next
    show "nat fd \<le> nat (fd + dim)" using dim by simp
    show "nat (fd + dim) \<le> 42" using fd dim by simp
  qed
  moreover have "int (nat fd) + (prev - fd + 1) - 1 = prev" "int (nat fd) + (1 - fd) = 1"
    "int (nat (fd + dim)) + (1 - fd) - 1 = dim" "int (nat (fd + dim)) + (1 - fd - dim) = 1"
    "int 42 + (1 - fd - dim) - 1 = 42 - fd - dim"
    using fd dim by simp_all
  ultimately show ?thesis by (simp only:)
qed

lemma renderCalendar_blocks:
  "renderCalendar tza today tasks rs date =
     (let year = year_of tza date; month = month_of tza date;
          fd = week_day (make_day (js_full_year year) month 1);
          dim = month_lengths (in_leap_year (js_full_year year)) ! nat month;
          prev = prev_month_length (js_full_year year) month
      in map blank_cell [prev - fd + 1..prev] @ map (day_cell tza today tasks rs year month) [1..dim]
         @ map blank_cell [1..42 - fd - dim])"
proof -
  let ?year = "year_of tza date"
  let ?month = "month_of tza date"
  have m: "0 \<le> ?month" "?month < 12" using month_of_range [of tza date] by simp_all
  show ?thesis
    unfolding renderCalendar_unfold [OF refl refl] Let_def
    using week_day_make_day_range dim_range [OF m]
    by (intro renderCalendar_blocks_aux) simp_all
qed

lemma filter_active_blocks:
  "filter (\<lambda>c. \<not> inactive c) (map blank_cell xs @ map (day_cell tza today tasks rs year month) ys @ map blank_cell zs)
     = map (day_cell tza today tasks rs year month) ys"
  by (simp add: blank_cell_def day_cell_def Let_def filter_map comp_def)

lemma takeWhile_inactive_blocks:
  "ys \<noteq> [] \<Longrightarrow>
   takeWhile inactive (map blank_cell xs @ map (day_cell tza today tasks rs year month) ys @ zs)
     = map blank_cell xs"
  by (induction xs) (auto simp: blank_cell_def day_cell_def Let_def neq_Nil_conv)

lemma fullDate_blocks:
  "c \<in> set (map blank_cell xs @ map (day_cell tza today tasks rs year month) ys @ map blank_cell zs) \<Longrightarrow>
   fullDate c = (if inactive c then None else Some (formatDate year (month + 1) (dayNumber c)))"
  by (auto simp: blank_cell_def day_cell_def Let_def)

lemma length_upto_prev: "0 \<le> fd \<Longrightarrow> length [prev - fd + 1..prev] = nat fd"
  by simp

lemma takeWhile_inactive_rev_blocks:
  "ys \<noteq> [] \<Longrightarrow>
   takeWhile inactive (rev (map blank_cell zs) @ rev (map (day_cell tza today tasks rs year month) ys) @ xs)
     = rev (map blank_cell zs)"
proof -
  assume ne: "ys \<noteq> []"
  have h: "takeWhile inactive (rev (map blank_cell zs) @ rest) = rev (map blank_cell zs) @ takeWhile inactive rest"
    for rest by (rule takeWhile_append2) (auto simp: blank_cell_def)
  show ?thesis using ne by (cases ys rule: rev_cases) (simp_all add: h day_cell_def Let_def)
qed

lemma filter_eq_distinct: "distinct xs \<Longrightarrow> c \<in> set xs \<Longrightarrow> filter (\<lambda>n. n = c) xs = [c]"
  by (induction xs) (auto simp: filter_empty_conv)

text \<open>Every day of the displayed month has its cell in the grid.\<close>

lemma day_cell_in_grid:
  assumes "1 \<le> k" "k \<le> month_lengths (in_leap_year (js_full_year (year_of tza date))) ! nat (month_of tza date)"
  shows "day_cell tza today ts rs (year_of tza date) (month_of tza date) k \<in> set (renderCalendar tza today ts rs date)"
  using assms by (simp add: renderCalendar_blocks Let_def)

section \<open>Correctness of the grid\<close>

text \<open>Claim C1: the month grid has 42 cells; its active cells show the days 1 to the
  length of the displayed month, in order; the leading inactive cells are as many as the
  weekday of the first of the month (0 for Sunday); an active cell's click handler opens
  the key of its own date and an inactive cell has none. The month quantities come from
  \<open>new Date(year, month, ...)\<close>, which reads a year 0--99 as 1900 + year
  (\<open>js_full_year\<close>): for those years the layout is that of the same month in the 1900s,
  while the keys keep the displayed year.\<close>

theorem renderCalendar_correct:
  "let g = renderCalendar tza today tasks rs date; year = year_of tza date; month = month_of tza date
   in length g = 42
      \<and> map dayNumber (filter (\<lambda>c. \<not> inactive c) g) = [1..month_lengths (in_leap_year (js_full_year year)) ! nat month]
      \<and> length (takeWhile inactive g) = nat (week_day (make_day (js_full_year year) month 1))
      \<and> list_all (\<lambda>c. fullDate c = (if inactive c then None
                                     else Some (formatDate year (month + 1) (dayNumber c)))) g"
proof -
  let ?year = "year_of tza date"
  let ?month = "month_of tza date"
  let ?fd = "week_day (make_day (js_full_year ?year) ?month 1)"
  let ?dim = "month_lengths (in_leap_year (js_full_year ?year)) ! nat ?month"
  let ?prev = "prev_month_length (js_full_year ?year) ?month"
  have m: "0 \<le> ?month" "?month < 12" using month_of_range [of tza date] by simp_all
  have fd: "0 \<le> ?fd" "?fd \<le> 6" using week_day_make_day_range by simp_all
  have dim: "28 \<le> ?dim" "?dim \<le> 31" using dim_range [OF m] by simp_all
  have g: "renderCalendar tza today tasks rs date =
             map blank_cell [?prev - ?fd + 1..?prev] @ map (day_cell tza today tasks rs ?year ?month) [1..?dim]
             @ map blank_cell [1..42 - ?fd - ?dim]"
    using renderCalendar_blocks [of tza today tasks rs date] by (simp add: Let_def)
  have ne: "[1..?dim] \<noteq> []" using dim by simp
  have "length (renderCalendar tza today tasks rs date) = 42"
    unfolding g using fd dim by simp
  moreover have "map dayNumber (filter (\<lambda>c. \<not> inactive c) (renderCalendar tza today tasks rs date)) = [1..?dim]"
    unfolding g filter_active_blocks by (simp add: day_cell_def Let_def comp_def)
  moreover have "length (takeWhile inactive (renderCalendar tza today tasks rs date)) = nat ?fd"
    unfolding g using ne fd by (simp add: takeWhile_inactive_blocks)
  moreover have "list_all (\<lambda>c. fullDate c = (if inactive c then None
                    else Some (formatDate ?year (?month + 1) (dayNumber c)))) (renderCalendar tza today tasks rs date)"
    unfolding g list_all_iff by (intro ballI fullDate_blocks) assumption
  ultimately show ?thesis by (simp add: Let_def)
qed

text \<open>The grid of February 2024 (a leap year starting on a Thursday).\<close>

theorem renderCalendar_feb_2024:
  "let g = renderCalendar 0 0 [] [] (make_local 0 2024 1 15)
   in length g = 42 \<and> length (filter (\<lambda>c. \<not> inactive c) g) = 29 \<and> length (takeWhile inactive g) = 4"
proof -
  have y: "year_of 0 (make_local 0 2024 1 15) = 2024" "month_of 0 (make_local 0 2024 1 15) = 1"
    by code_simp+
  have w: "week_day (make_day 2024 1 1) = 4" by code_simp
  have l: "month_lengths (in_leap_year 2024) ! nat 1 = 29" by code_simp
  have j: "js_full_year 2024 = 2024" by simp
  let ?g = "renderCalendar 0 0 [] [] (make_local 0 2024 1 15)"
  have c: "length ?g = 42 \<and> map dayNumber (filter (\<lambda>c. \<not> inactive c) ?g) = [1..29]
           \<and> length (takeWhile inactive ?g) = 4"
    using renderCalendar_correct [of 0 0 "[]" "[]" "make_local 0 2024 1 15"]
    unfolding y j w l Let_def by simp
  then have "length (map dayNumber (filter (\<lambda>c. \<not> inactive c) ?g)) = length [1..(29::int)]" by (simp only:)
  then have "length (filter (\<lambda>c. \<not> inactive c) ?g) = 29" by (simp only: length_map length_upto)
  with c show ?thesis by (simp only: Let_def)
qed

text \<open>Claim C29: bounds of the grid: every cell shows a day number between 1 and 31,
  at most six leading cells are blank, and at least five trailing ones (the 42 cells
  always suffice, the trailing count \<open>42 - firstDay - daysInMonth\<close> is never negative).\<close>

theorem renderCalendar_bounds:
  "let g = renderCalendar tza today tasks rs date
   in list_all (\<lambda>c. 1 \<le> dayNumber c \<and> dayNumber c \<le> 31) g
      \<and> length (takeWhile inactive g) \<le> 6 \<and> 5 \<le> length (takeWhile inactive (rev g))"
proof -
  let ?year = "year_of tza date"
  let ?month = "month_of tza date"
  let ?fd = "week_day (make_day (js_full_year ?year) ?month 1)"
  let ?dim = "month_lengths (in_leap_year (js_full_year ?year)) ! nat ?month"
  let ?prev = "prev_month_length (js_full_year ?year) ?month"
  have m: "0 \<le> ?month" "?month < 12" using month_of_range [of tza date] by simp_all
  have fd: "0 \<le> ?fd" "?fd \<le> 6" using week_day_make_day_range by simp_all
  have dim: "28 \<le> ?dim" "?dim \<le> 31" using dim_range [OF m] by simp_all
  have prev: "28 \<le> ?prev" "?prev \<le> 31" using prev_month_length_range [OF m] by simp_all
  have g: "renderCalendar tza today tasks rs date =
             map blank_cell [?prev - ?fd + 1..?prev] @ map (day_cell tza today tasks rs ?year ?month) [1..?dim]
             @ map blank_cell [1..42 - ?fd - ?dim]"
    by (simp add: renderCalendar_blocks Let_def)
  have ne: "[1..?dim] \<noteq> []" using dim by simp
  have "list_all (\<lambda>c. 1 \<le> dayNumber c \<and> dayNumber c \<le> 31) (renderCalendar tza today tasks rs date)"
    unfolding g using fd dim prev by (auto simp: list_all_iff blank_cell_def day_cell_def Let_def)
  moreover have "length (takeWhile inactive (renderCalendar tza today tasks rs date)) \<le> 6"
    unfolding g using takeWhile_inactive_blocks [OF ne] fd by simp
  moreover have "5 \<le> length (takeWhile inactive (rev (renderCalendar tza today tasks rs date)))"
    unfolding g using takeWhile_inactive_rev_blocks [OF ne, of "[1..42 - ?fd - ?dim]"] fd dim by simp
  ultimately show ?thesis by (simp add: Let_def)
qed

text \<open>Claim C31: the today highlight: exactly one cell of the grid is highlighted when
  the grid shows the current month of \<open>today\<close> and today's date is among its days,
  none otherwise. The last condition fails only on 29 February of the year 0, whose grid
  is laid out from 1900, not a leap year.\<close>

theorem renderCalendar_today:
  "length (filter isToday (renderCalendar tza today tasks rs date)) =
     (if year_of tza date = year_of tza today \<and> month_of tza date = month_of tza today
         \<and> date_of tza today \<le> month_lengths (in_leap_year (js_full_year (year_of tza date))) ! nat (month_of tza date)
      then 1 else 0)"
proof -
  let ?year = "year_of tza date"
  let ?month = "month_of tza date"
  let ?dim = "month_lengths (in_leap_year (js_full_year ?year)) ! nat ?month"
  let ?P = "\<lambda>n. n = date_of tza today \<and> ?month = month_of tza today \<and> ?year = year_of tza today"
  have b: "filter isToday (map blank_cell xs) = []" for xs
    by (simp add: blank_cell_def filter_empty_conv)
  have d: "filter isToday (map (day_cell tza today tasks rs ?year ?month) ys)
             = map (day_cell tza today tasks rs ?year ?month) (filter ?P ys)" for ys
  proof -
    have "isToday \<circ> day_cell tza today tasks rs ?year ?month = ?P"
      by (simp add: fun_eq_iff day_cell_def Let_def)
    then show ?thesis by (simp add: filter_map)
  qed
  have "length (filter ?P [1..?dim]) =
          (if ?year = year_of tza today \<and> ?month = month_of tza today \<and> date_of tza today \<le> ?dim then 1 else 0)"
  proof (cases "?year = year_of tza today \<and> ?month = month_of tza today \<and> date_of tza today \<le> ?dim")
    case True
    have lo: "1 \<le> date_of tza today" using date_of_range [of tza today] by simp
    have hi: "date_of tza today \<le> ?dim" using True by blast
    have "date_of tza today \<in> set [1..?dim]" using lo hi by simp
    then show ?thesis using True filter_eq_distinct [of "[1..?dim]" "date_of tza today"] by simp
  next
    case False
    then show ?thesis by (auto simp: filter_empty_conv)
  qed
  then show ?thesis by (simp add: renderCalendar_blocks Let_def b d)
qed

text \<open>Claim C26: two-digit years: for a date in January of the year 50 the grid has no
  leading blank cell, the layout of January 1950 (1 January 1950 is a Sunday), although
  1 January of the year 50 is a Saturday: \<open>new Date(50, 0, 1)\<close> is a date of 1950.\<close>

theorem renderCalendar_two_digit_year:
  assumes "year_of tza date = 50" "month_of tza date = 0"
  shows "length (takeWhile inactive (renderCalendar tza today ts rs date)) = 0 \<and> week_day (make_day 50 0 1) = 6"
proof -
  have j: "js_full_year 50 = 1950" by (simp add: js_full_year_def)
  have w: "week_day (make_day 1950 0 1) = 0" "week_day (make_day 50 0 1) = 6" by code_simp+
  have d: "month_lengths (in_leap_year 1950) ! 0 = 31" by (simp add: month_lengths_def)
  have "[(1::int)..31] \<noteq> []" by simp
  from takeWhile_inactive_blocks [OF this, of "[]" tza today ts rs 50 0 "map blank_cell [1..42 - 0 - 31]"]
  show ?thesis using assms w by (simp add: renderCalendar_blocks Let_def j d)
qed

theorem renderCalendar_two_digit_year_witness:
  "length (takeWhile inactive (renderCalendar 0 0 [] [] (make_day 50 0 15 * ms_per_day))) = 0"
proof -
  have "year_of 0 (make_day 50 0 15 * ms_per_day) = 50" "month_of 0 (make_day 50 0 15 * ms_per_day) = 0"
    by code_simp+
  from renderCalendar_two_digit_year [OF this, of 0 "[]" "[]"] show ?thesis by blast
qed

end
