(* ===== verification/Day_Agenda.thy ===== *)
theory Day_Agenda
  imports Recurrence
begin

text \<open>
  The day view \<open>renderDayView()\<close> of \<open>src/script.js\<close> (lines 191--288): one slot per hour
  with its key \<open>HH:00\<close> (the target of the slot's click handler, \<open>openTaskModal\<close>), its
  12-hour label, and its task list: the one-time entries of the slot in storage order,
  then the recurring rules that match the selected date and the slot, in storage order.
  Each entry shows its text and carries the target of its delete button
  (\<open>deleteTask(selectedDate, time24, index)\<close> or \<open>deleteRecurringTask(index)\<close>).

  The results: the view has 24 slots, and the entries of each are the specification's
  "one-time entries at (date, time) followed by \<open>recurringAt(date, time)\<close> with the
  original indices" (\<open>renderDayView_spec\<close>); every delete button targets an entry that
  exists (\<open>agenda_delete_targets\<close>).
\<close>

section \<open>Definitions\<close>

datatype delete_ref = DeleteOneTime string string nat | DeleteRecurring nat

record agenda_entry =
  entryText :: string
  isRecurring :: bool
  deleteRef :: delete_ref

record agenda_slot =
  slotTime :: string
  label :: string
  entries :: "agenda_entry list"

text \<open>The \<open>forEach\<close> over \<open>tasks[selectedDate][time24]\<close> (lines 211--230).\<close>

definition one_time_entries :: "string \<Rightarrow> string \<Rightarrow> task_index \<Rightarrow> agenda_entry list" where
  "one_time_entries selectedDate time24 tasks =
     (case map_of tasks selectedDate of
        None \<Rightarrow> []
      | Some slots \<Rightarrow>
          (case map_of slots time24 of
             None \<Rightarrow> []
           | Some lst \<Rightarrow>
               map (\<lambda>(index, task).
                      \<lparr>entryText = (if desc task \<noteq> [] then desc task else ''No Description''),
                       isRecurring = False, deleteRef = DeleteOneTime selectedDate time24 index\<rparr>)
                   (enumerate 0 lst)))"

text \<open>The body of the \<open>forEach\<close> over \<open>recurringTasks\<close> (lines 233--277) for one rule.\<close>

fun recurring_entry :: "int \<Rightarrow> string \<Rightarrow> string \<Rightarrow> nat \<Rightarrow> recurring \<Rightarrow> agenda_entry list" where
  "recurring_entry tza selectedDate time24 index (Weekly dw t d) =
     (if js_num_eq dw (get_day tza (new_date_string selectedDate)) then
        (if t = time24 then
           [\<lparr>entryText = (if d \<noteq> [] then d @ '' (Weekly)'' else ''No Description (Weekly)''),
             isRecurring = True, deleteRef = DeleteRecurring index\<rparr>]
         else [])
      else [])"
| "recurring_entry tza selectedDate time24 index (Yearly mo dy t d) =
     (let dateObj = new_date_string selectedDate
      in if js_num_eq mo (map_option (\<lambda>m. m + 1) (get_month tza dateObj))
            \<and> js_num_eq dy (get_date tza dateObj) then
           (if t = time24 then
              [\<lparr>entryText = (if d \<noteq> [] then d @ '' (Yearly)'' else ''No Description (Yearly)''),
                isRecurring = True, deleteRef = DeleteRecurring index\<rparr>]
            else [])
         else [])"

definition recurring_entries :: "int \<Rightarrow> string \<Rightarrow> string \<Rightarrow> recurring list \<Rightarrow> agenda_entry list" where
  "recurring_entries tza selectedDate time24 recurringTasks =
     concat (map (\<lambda>(index, r). recurring_entry tza selectedDate time24 index r) (enumerate 0 recurringTasks))"

text \<open>One iteration of the hour loop (lines 196--286).\<close>

definition day_slot :: "int \<Rightarrow> task_index \<Rightarrow> recurring list \<Rightarrow> string \<Rightarrow> nat \<Rightarrow> agenda_slot" where
  "day_slot tza tasks recurringTasks selectedDate hour =
     (let time24 = time24_of_hour hour;
          time12 = convertTo12Hour time24
      in \<lparr>slotTime = time24, label = time12,
          entries = one_time_entries selectedDate time24 tasks
                    @ recurring_entries tza selectedDate time24 recurringTasks\<rparr>)"

definition renderDayView :: "int \<Rightarrow> task_index \<Rightarrow> recurring list \<Rightarrow> string \<Rightarrow> agenda_slot list" where
  "renderDayView tza tasks recurringTasks selectedDate =
     map (day_slot tza tasks recurringTasks selectedDate) [0..<24]"

section \<open>The entries in terms of the abstract store\<close>

definition one_time_view :: "string \<Rightarrow> string \<Rightarrow> task \<Rightarrow> nat \<Rightarrow> agenda_entry" where
  "one_time_view date time task index =
     \<lparr>entryText = (if desc task \<noteq> [] then desc task else ''No Description''),
      isRecurring = False, deleteRef = DeleteOneTime date time index\<rparr>"

fun recurring_view :: "nat \<Rightarrow> recurring \<Rightarrow> agenda_entry" where
  "recurring_view index (Weekly _ _ d) =
     \<lparr>entryText = (if d \<noteq> [] then d @ '' (Weekly)'' else ''No Description (Weekly)''),
      isRecurring = True, deleteRef = DeleteRecurring index\<rparr>"
| "recurring_view index (Yearly _ _ _ d) =
     \<lparr>entryText = (if d \<noteq> [] then d @ '' (Yearly)'' else ''No Description (Yearly)''),
      isRecurring = True, deleteRef = DeleteRecurring index\<rparr>"

text \<open>The specification's \<open>recurringAt(date, time)\<close> with the original indices.\<close>

definition recurring_at :: "int \<Rightarrow> string \<Rightarrow> string \<Rightarrow> recurring list \<Rightarrow> (nat \<times> recurring) list" where
  "recurring_at tza date time rs =
     filter (\<lambda>(i, r). rule_matches (date_parts tza date) r \<and> rule_time r = time) (enumerate 0 rs)"

lemma one_time_entries_slot_tasks:
  "one_time_entries date time tasks =
     map (\<lambda>(i, t). one_time_view date time t i) (enumerate 0 (slot_tasks tasks date time))"
  by (auto simp: one_time_entries_def one_time_view_def slot_tasks_def slots_of_def
           split: option.splits)

lemma recurring_entry_view:
  "recurring_entry tza date time i r =
     (if rule_matches (date_parts tza date) r \<and> rule_time r = time then [recurring_view i r] else [])"
  by (cases r) (simp_all add: date_parts_def Let_def)

lemma recurring_entries_at:
  "recurring_entries tza date time rs = map (\<lambda>(i, r). recurring_view i r) (recurring_at tza date time rs)"
proof -
  have "concat (map (\<lambda>(i, r). recurring_entry tza date time i r) xs) =
          map (\<lambda>(i, r). recurring_view i r)
            (filter (\<lambda>(i, r). rule_matches (date_parts tza date) r \<and> rule_time r = time) xs)" for xs
  proof (induction xs)
    case (Cons x xs)
    then show ?case by (cases x) (simp add: recurring_entry_view)
  qed simp
  then show ?thesis by (simp add: recurring_entries_def recurring_at_def)
qed

lemma day_slot_spec:
  "day_slot tza tasks rs date h =
     \<lparr>slotTime = time24_of_hour h, label = convertTo12Hour (time24_of_hour h),
      entries = map (\<lambda>(i, t). one_time_view date (time24_of_hour h) t i)
                    (enumerate 0 (slot_tasks tasks date (time24_of_hour h)))
                @ map (\<lambda>(i, r). recurring_view i r) (recurring_at tza date (time24_of_hour h) rs)\<rparr>"
  by (simp add: day_slot_def one_time_entries_slot_tasks recurring_entries_at Let_def)

lemma deleteRef_recurring_view: "deleteRef (recurring_view i r) = DeleteRecurring i"
  by (cases r) simp_all

lemma view_delete_one_time:
  assumes "DeleteOneTime d t i \<in> set (map deleteRef (concat (map entries (renderDayView tza ts rs date))))"
  shows "d = date \<and> i < length (slot_tasks ts d t)"
proof -
  obtain h e where h: "e \<in> set (entries (day_slot tza ts rs date h))" "deleteRef e = DeleteOneTime d t i"
    using assms by (auto simp: renderDayView_def)
  then show ?thesis
    by (auto simp: day_slot_spec one_time_view_def in_set_enumerate_eq recurring_at_def
        deleteRef_recurring_view)
qed

lemma view_delete_recurring:
  assumes "DeleteRecurring i \<in> set (map deleteRef (concat (map entries (renderDayView tza ts rs date))))"
  shows "i < length rs"
proof -
  obtain h e where h: "e \<in> set (entries (day_slot tza ts rs date h))" "deleteRef e = DeleteRecurring i"
    using assms by (auto simp: renderDayView_def)
  then show ?thesis
    by (auto simp: day_slot_spec one_time_view_def in_set_enumerate_eq recurring_at_def
        deleteRef_recurring_view)
qed


section \<open>Correctness of the day view\<close>

text \<open>Claim C4: the day view has one slot per hour 0..23; slot \<open>h\<close> has the key
  \<open>HH:00\<close> of its hour, the 12-hour label of that key, and as entries the one-time tasks
  stored at (date, key) in storage order followed by the recurring rules that match the
  date at that key, in storage order and with their original indices.\<close>

theorem renderDayView_spec:
  "renderDayView tza tasks rs date =
     map (\<lambda>h. let t = time24_of_hour h
              in \<lparr>slotTime = t, label = convertTo12Hour t,
                  entries = map (\<lambda>(i, x). one_time_view date t x i) (enumerate 0 (slot_tasks tasks date t))
                            @ map (\<lambda>(i, r). recurring_view i r) (recurring_at tza date t rs)\<rparr>)
         [0..<24]"
  by (simp add: renderDayView_def day_slot_spec Let_def)

text \<open>The example of the specification: a Monday with one one-time task and one weekly
  Monday rule at 10:00 shows two entries in storage order, the recurring one marked.\<close>

theorem renderDayView_example:
  "map entryText (entries (renderDayView 0 [(''2024-05-06'', [(''10:00'', [\<lparr>desc = ''Gym''\<rparr>])])]
      [Weekly (Some 1) ''10:00'' ''Standup''] ''2024-05-06'' ! 10)) = [''Gym'', ''Standup (Weekly)'']"
proof -
  have "time24_of_hour 10 = ''10:00''" by code_simp
  moreover have "recurring_at 0 ''2024-05-06'' ''10:00'' [Weekly (Some 1) ''10:00'' ''Standup''] = [(0, Weekly (Some 1) ''10:00'' ''Standup'')]"
    by code_simp
  ultimately show ?thesis
    unfolding renderDayView_def
    by (simp add: day_slot_spec slot_tasks_def slots_of_def one_time_view_def Let_def)
qed

text \<open>Claim C5: every entry of the day view is what its delete button deletes: a one-time
  entry of slot \<open>t\<close> with index \<open>i\<close> shows the \<open>i\<close>-th task stored at
  (selected date, \<open>t\<close>), and a recurring entry with index \<open>i\<close> shows rule \<open>i\<close> of
  \<open>recurringTasks\<close>, which matches the date and the slot.\<close>

theorem agenda_delete_targets:
  "list_all (\<lambda>s. list_all (\<lambda>e.
      case deleteRef e of
        DeleteOneTime d t i \<Rightarrow>
          d = date \<and> t = slotTime s \<and> i < length (slot_tasks tasks d t)
          \<and> e = one_time_view d t (slot_tasks tasks d t ! i) i
      | DeleteRecurring i \<Rightarrow>
          i < length rs \<and> e = recurring_view i (rs ! i)
          \<and> rule_matches (date_parts tza date) (rs ! i) \<and> rule_time (rs ! i) = slotTime s)
      (entries s)) (renderDayView tza tasks rs date)"
proof -
  have one: "(case deleteRef (one_time_view date t x i) of
                DeleteOneTime d t' j \<Rightarrow> d = date \<and> t' = t \<and> j < length (slot_tasks tasks d t')
                   \<and> one_time_view date t x i = one_time_view d t' (slot_tasks tasks d t' ! j) j
              | DeleteRecurring j \<Rightarrow> False)"
    if "(i, x) \<in> set (enumerate 0 (slot_tasks tasks date t))" for t i x
    using that by (simp add: one_time_view_def in_set_enumerate_eq)
  have rec: "(case deleteRef (recurring_view i r) of
                DeleteOneTime d t' j \<Rightarrow> False
              | DeleteRecurring j \<Rightarrow> j < length rs \<and> recurring_view i r = recurring_view j (rs ! j)
                   \<and> rule_matches (date_parts tza date) (rs ! j) \<and> rule_time (rs ! j) = t)"
    if "(i, r) \<in> set (recurring_at tza date t rs)" for t i r
    using that by (cases r) (auto simp: recurring_at_def in_set_enumerate_eq)
  show ?thesis
    unfolding renderDayView_def day_slot_spec list_all_iff
    using one rec by (fastforce split: delete_ref.splits)
qed

end
