(* ===== verification/Json.thy ===== *)
theory Json
  imports Prelude
begin

text \<open>
  The JSON text format as \<open>src/script.js\<close> uses it through \<open>JSON.stringify\<close> and
  \<open>JSON.parse\<close> (ECMA-262 section 25.5, grammar of ECMA-404): the values (\<open>json\<close>),
  the printer \<open>stringify\<close> with the string escapes of \<open>QuoteJSONString\<close>, and the
  parser \<open>json_parse\<close>, a recursive descent whose recursion is bounded by fuel.
  Results: every call of the parser consumes input (\<open>pval_consumes\<close>), so the fuel
  given, one more than the length of the text, is never exhausted (\<open>json_parse_total\<close>);
  parsing a printed value gives it back (\<open>json_parse_stringify\<close>).
\<close>

section \<open>JSON values and \<open>JSON.stringify\<close>\<close>

text \<open>The JSON values: numbers are the integers the program stores (\<open>JSON.stringify\<close>
  writes NaN as \<open>null\<close>); objects keep their properties in order.\<close>

datatype json = JNull | JBool bool | JNum int | JStr string | JArr "json list"
  | JObj "(string \<times> json) list"

text \<open>The lower-case hexadecimal digits of \<open>UnicodeEscape\<close>.\<close>

definition hex_digit :: "nat \<Rightarrow> char" where
  "hex_digit n = ''0123456789abcdef'' ! n"

text \<open>The escaping of \<open>QuoteJSONString\<close>: quote and backslash, the five short escapes,
  other control characters as \<open>\u00xx\<close>.\<close>

definition esc_char :: "char \<Rightarrow> string" where
  "esc_char c =
     (let n = of_char c :: nat in
      if c = CHR 0x22 then [CHR 0x5C, CHR 0x22]
      else if c = CHR 0x5C then [CHR 0x5C, CHR 0x5C]
      else if n = 8 then [CHR 0x5C, CHR ''b''] else if n = 9 then [CHR 0x5C, CHR ''t'']
      else if n = 10 then [CHR 0x5C, CHR ''n''] else if n = 12 then [CHR 0x5C, CHR ''f'']
      else if n = 13 then [CHR 0x5C, CHR ''r'']
      else if n < 32 then [CHR 0x5C, CHR ''u'', CHR ''0'', CHR ''0'', hex_digit (n div 16), hex_digit (n mod 16)]
      else [c])"

definition quote :: "string \<Rightarrow> string" where
  "quote s = CHR 0x22 # concat (map esc_char s) @ [CHR 0x22]"

text \<open>The items joined with commas, as \<open>SerializeJSONArray\<close> and
  \<open>SerializeJSONObject\<close> join them.\<close>

fun join_comma :: "string list \<Rightarrow> string" where
  "join_comma [] = []"
| "join_comma (x # xs) = x @ concat (map (\<lambda>y. CHR '','' # y) xs)"

fun stringify :: "json \<Rightarrow> string" where
  "stringify JNull = ''null''"
| "stringify (JBool b) = (if b then ''true'' else ''false'')"
| "stringify (JNum n) = js_string_of_int n"
| "stringify (JStr s) = quote s"
| "stringify (JArr xs) = CHR ''['' # join_comma (map stringify xs) @ '']''"
| "stringify (JObj kvs) =
     CHR ''{'' # join_comma (map (\<lambda>(k, v). quote k @ CHR '':'' # stringify v) kvs) @ ''}''"

text \<open>Truthiness of a parsed value (\<open>x || default\<close>): \<open>null\<close>, \<open>false\<close>, \<open>0\<close> and the empty
  string are falsy, arrays and objects are truthy.\<close>

fun json_truthy :: "json \<Rightarrow> bool" where
  "json_truthy JNull = False"
| "json_truthy (JBool b) = b"
| "json_truthy (JNum n) = (n \<noteq> 0)"
| "json_truthy (JStr s) = (s \<noteq> [])"
| "json_truthy (JArr _) = True"
| "json_truthy (JObj _) = True"

section \<open>\<open>JSON.parse\<close>\<close>

text \<open>The outcomes of \<open>JSON.parse\<close> other than a value: a \<open>SyntaxError\<close>, a value the model
  does not represent (a number with a fraction or an exponent, a \<open>\u\<close> escape of a code unit
  above 255), and running out of fuel, which never happens (\<open>json_parse_total\<close>).\<close>

datatype json_error = Syntax_Error | Unrepresentable | Out_of_fuel

definition json_ws :: "char \<Rightarrow> bool" where
  "json_ws c \<longleftrightarrow> of_char c \<in> {9, 10, 13, 32 :: nat}"

definition skip_ws :: "string \<Rightarrow> string" where
  "skip_ws s = dropWhile json_ws s"

definition hex4 :: "string \<Rightarrow> nat option" where
  "hex4 s = (if length s = 4 \<and> list_all (is_radix_digit 16) s then Some (digits_to_nat 16 s) else None)"

definition short_escape :: "char \<Rightarrow> char option" where
  "short_escape e =
     (if e = CHR 0x22 then Some (CHR 0x22) else if e = CHR 0x5C then Some (CHR 0x5C)
      else if e = CHR ''/'' then Some (CHR ''/'') else if e = CHR ''b'' then Some (char_of (8::nat))
      else if e = CHR ''t'' then Some (char_of (9::nat)) else if e = CHR ''n'' then Some (char_of (10::nat))
      else if e = CHR ''f'' then Some (char_of (12::nat)) else if e = CHR ''r'' then Some (char_of (13::nat))
      else None)"

text \<open>The characters of a string literal after its opening quote, up to the closing one.\<close>

function pstr :: "string \<Rightarrow> string \<Rightarrow> json_error + string \<times> string" where
  "pstr acc [] = Inl Syntax_Error"
| "pstr acc (c # r) =
     (if c = CHR 0x22 then Inr (acc, r)
      else if c = CHR 0x5C then
        (case r of
           [] \<Rightarrow> Inl Syntax_Error
         | e # r' \<Rightarrow>
             (case short_escape e of
                Some x \<Rightarrow> pstr (acc @ [x]) r'
              | None \<Rightarrow>
                  if e = CHR ''u'' then
                    (case hex4 (take 4 r') of
                       None \<Rightarrow> Inl Syntax_Error
                     | Some v \<Rightarrow> if v < 256 then pstr (acc @ [char_of v]) (drop 4 r') else Inl Unrepresentable)
                  else Inl Syntax_Error))
      else if of_char c < (32::nat) then Inl Syntax_Error
      else pstr (acc @ [c]) r)"
  by pat_completeness auto
termination by (relation "measure (\<lambda>(acc, s). length s)") auto

definition is_digit :: "char \<Rightarrow> bool" where
  "is_digit c \<longleftrightarrow> is_radix_digit 10 c"

text \<open>A number: an optional minus sign, then \<open>0\<close> or a digit run without a leading zero.\<close>

definition pnum :: "string \<Rightarrow> json_error + json \<times> string" where
  "pnum s =
     (let (neg, r) = (if s \<noteq> [] \<and> hd s = CHR ''-'' then (True, tl s) else (False, s));
          ds = takeWhile is_digit r;
          rest = dropWhile is_digit r
      in if ds = [] \<or> (hd ds = CHR ''0'' \<and> 1 < length ds) then Inl Syntax_Error
         else if rest \<noteq> [] \<and> hd rest \<in> {CHR ''.'', CHR ''e'', CHR ''E''} then Inl Unrepresentable
         else Inr (JNum ((if neg then -1 else 1) * int (digits_to_nat 10 ds)), rest))"

text \<open>A value that is not an array or an object, from its first character \<open>c\<close> on:
  a literal, a string or a number.\<close>

definition pscalar :: "char \<Rightarrow> string \<Rightarrow> json_error + json \<times> string" where
  "pscalar c r =
     (if c = CHR ''n'' then (if take 3 r = ''ull'' then Inr (JNull, drop 3 r) else Inl Syntax_Error)
      else if c = CHR ''t'' then (if take 3 r = ''rue'' then Inr (JBool True, drop 3 r) else Inl Syntax_Error)
      else if c = CHR ''f'' then (if take 4 r = ''alse'' then Inr (JBool False, drop 4 r) else Inl Syntax_Error)
      else if c = CHR 0x22 then
        (case pstr [] r of Inl e \<Rightarrow> Inl e | Inr (str, r') \<Rightarrow> Inr (JStr str, r'))
      else if c = CHR ''-'' \<or> is_digit c then pnum (c # r)
      else Inl Syntax_Error)"

text \<open>A value, the rest of an array after an element, an object member, and the rest of an
  object after a member. Each call spends one unit of fuel; a repeated key keeps its
  first position and takes the last value, as \<open>JSON.parse\<close> builds its objects.\<close>

function pval :: "nat \<Rightarrow> string \<Rightarrow> json_error + json \<times> string"
and parr :: "nat \<Rightarrow> json list \<Rightarrow> string \<Rightarrow> json_error + json \<times> string"
and pmem :: "nat \<Rightarrow> (string \<times> json) list \<Rightarrow> string \<Rightarrow> json_error + json \<times> string"
and pobj :: "nat \<Rightarrow> (string \<times> json) list \<Rightarrow> string \<Rightarrow> json_error + json \<times> string" where
  "pval 0 s = Inl Out_of_fuel"
| "pval (Suc n) s =
     (case skip_ws s of
        [] \<Rightarrow> Inl Syntax_Error
      | c # r \<Rightarrow>
          if c = CHR ''['' then
            (let r1 = skip_ws r in
             if r1 \<noteq> [] \<and> hd r1 = CHR '']'' then Inr (JArr [], tl r1)
             else (case pval n r1 of Inl e \<Rightarrow> Inl e | Inr (v, r2) \<Rightarrow> parr n [v] r2))
          else if c = CHR ''{'' then
            (let r1 = skip_ws r in
             if r1 \<noteq> [] \<and> hd r1 = CHR ''}'' then Inr (JObj [], tl r1) else pmem n [] r1)
          else pscalar c r)"
| "parr 0 acc s = Inl Out_of_fuel"
| "parr (Suc n) acc s =
     (let r = skip_ws s in
      if r \<noteq> [] \<and> hd r = CHR '']'' then Inr (JArr acc, tl r)
      else if r \<noteq> [] \<and> hd r = CHR '','' then
        (case pval n (tl r) of Inl e \<Rightarrow> Inl e | Inr (v, r') \<Rightarrow> parr n (acc @ [v]) r')
      else Inl Syntax_Error)"
| "pmem 0 acc s = Inl Out_of_fuel"
| "pmem (Suc n) acc s =
     (let r = skip_ws s in
      if r \<noteq> [] \<and> hd r = CHR 0x22 then
        (case pstr [] (tl r) of
           Inl e \<Rightarrow> Inl e
         | Inr (k, r1) \<Rightarrow>
             (let r2 = skip_ws r1 in
              if r2 \<noteq> [] \<and> hd r2 = CHR '':'' then
                (case pval n (tl r2) of Inl e \<Rightarrow> Inl e | Inr (v, r3) \<Rightarrow> pobj n (AList.update k v acc) r3)
              else Inl Syntax_Error))
      else Inl Syntax_Error)"
| "pobj 0 acc s = Inl Out_of_fuel"
| "pobj (Suc n) acc s =
     (let r = skip_ws s in
      if r \<noteq> [] \<and> hd r = CHR ''}'' then Inr (JObj acc, tl r)
      else if r \<noteq> [] \<and> hd r = CHR '','' then pmem n acc (tl r)
      else Inl Syntax_Error)"
  by pat_completeness auto
termination by (relation "measure (case_sum (case_sum fst fst) (case_sum fst fst))") auto

text \<open>\<open>JSON.parse(text)\<close>: a value, then only white space.\<close>

definition json_parse :: "string \<Rightarrow> json_error + json" where
  "json_parse s =
     (case pval (Suc (length s)) s of
        Inl e \<Rightarrow> Inl e
      | Inr (v, r) \<Rightarrow> if skip_ws r = [] then Inr v else Inl Syntax_Error)"

text \<open>The values \<open>JSON.stringify\<close> prints so that parsing gives them back: object keys are
  distinct at every level (a JavaScript object has distinct property names).\<close>

fun json_wf :: "json \<Rightarrow> bool" where
  "json_wf (JArr xs) = (\<forall>x \<in> set xs. json_wf x)"
| "json_wf (JObj kvs) = (distinct (map fst kvs) \<and> (\<forall>kv \<in> set kvs. json_wf (snd kv)))"
| "json_wf _ = True"

text \<open>A text that may follow a value inside a JSON text: the end, or a separator.\<close>

definition json_delim :: "string \<Rightarrow> bool" where
  "json_delim r \<longleftrightarrow> r = [] \<or> hd r \<in> {CHR '','', CHR '']'', CHR ''}''}"

section \<open>The parser consumes its input and never runs out of fuel\<close>

lemma length_skip_ws: "length (skip_ws s) \<le> length s"
  by (simp add: skip_ws_def length_dropWhile_le)

lemma pstr_consumes: "pstr acc s = Inr (v, rest) \<Longrightarrow> length rest < length s"
proof (induction acc s arbitrary: v rest rule: pstr.induct)
  case (2 acc c r)
  show ?case
  proof (cases "c = CHR 0x5C")
    case True
    show ?thesis
    proof (cases r)
      case (Cons e r')
      show ?thesis
      proof (cases "short_escape e")
        case None
        then obtain w where "e = CHR ''u''" "hex4 (take 4 r') = Some w" "w < 256"
          "pstr (acc @ [char_of w]) (drop 4 r') = Inr (v, rest)"
          using 2(4) True Cons by (auto split: if_splits option.splits)
        then show ?thesis using 2(1) [OF _ True Cons None] True Cons by fastforce
      next
        case (Some a)
        show ?thesis using 2(2) [OF _ True Cons Some] 2(4) True Cons Some by simp
      qed
    qed (use 2 True in simp)
  next
    case False
    then show ?thesis using 2(3) [OF _ False] 2(4) by (auto split: if_splits)
  qed
qed simp

lemma dropWhile_shorter: "takeWhile P r \<noteq> [] \<Longrightarrow> length (dropWhile P r) < length r"
  by (induction r) (auto simp: length_dropWhile_le le_imp_less_Suc split: if_splits)

lemma pnum_consumes:
  assumes "pnum s = Inr (v, rest)"
  shows "length rest < length s"
proof -
  obtain neg r where nr: "(if s \<noteq> [] \<and> hd s = CHR ''-'' then (True, tl s) else (False, s)) = (neg, r)"
    by fastforce
  have "length r \<le> length s" using nr by (auto split: if_splits)
  moreover have "takeWhile is_digit r \<noteq> [] \<and> rest = dropWhile is_digit r"
    using assms nr unfolding pnum_def Let_def by (auto split: if_splits)
  ultimately show ?thesis using dropWhile_shorter [of is_digit r] by simp
qed

lemma length_tl_skip_ws: "skip_ws s \<noteq> [] \<Longrightarrow> length (tl (skip_ws s)) < length s"
  using length_skip_ws [of s] by (cases "skip_ws s") auto

lemma skip_ws_Cons_length: "skip_ws s = c # r \<Longrightarrow> length r < length s"
  using length_skip_ws [of s] by simp

lemma pstr_not_fuel: "pstr acc s \<noteq> Inl Out_of_fuel"
  by (induction acc s rule: pstr.induct) (auto split: list.splits option.splits)

lemma pnum_not_fuel: "pnum s \<noteq> Inl Out_of_fuel"
  by (simp add: pnum_def Let_def split: prod.splits)

lemma pscalar_consumes: "pscalar c r = Inr (v, rest) \<Longrightarrow> length rest \<le> length r"
  using pstr_consumes [of "[]" r] pnum_consumes [of "c # r"]
  by (fastforce simp: pscalar_def split: if_splits sum.splits)

lemma pscalar_not_fuel: "pscalar c r \<noteq> Inl Out_of_fuel"
  using pstr_not_fuel [of "[]" r] pnum_not_fuel [of "c # r"]
  by (auto simp: pscalar_def split: sum.splits)

lemma pval_Suc_arr:
  "skip_ws s = CHR ''['' # r \<Longrightarrow>
   pval (Suc n) s = (if skip_ws r \<noteq> [] \<and> hd (skip_ws r) = CHR '']'' then Inr (JArr [], tl (skip_ws r))
                     else (case pval n (skip_ws r) of Inl e \<Rightarrow> Inl e | Inr (v, r2) \<Rightarrow> parr n [v] r2))"
  by simp

lemma pval_Suc_obj:
  "skip_ws s = CHR ''{'' # r \<Longrightarrow>
   pval (Suc n) s = (if skip_ws r \<noteq> [] \<and> hd (skip_ws r) = CHR ''}'' then Inr (JObj [], tl (skip_ws r))
                     else pmem n [] (skip_ws r))"
  by simp

lemma pval_Suc_scalar:
  "skip_ws s = c # r \<Longrightarrow> c \<noteq> CHR ''['' \<Longrightarrow> c \<noteq> CHR ''{'' \<Longrightarrow> pval (Suc n) s = pscalar c r"
  by simp

lemma parse_consumes_fuel:
  "(\<forall>s v rest. pval n s = Inr (v, rest) \<longrightarrow> length rest < length s)
   \<and> (\<forall>acc s v rest. parr n acc s = Inr (v, rest) \<longrightarrow> length rest < length s)
   \<and> (\<forall>kvs s v rest. pmem n kvs s = Inr (v, rest) \<longrightarrow> length rest < length s)
   \<and> (\<forall>kvs s v rest. pobj n kvs s = Inr (v, rest) \<longrightarrow> length rest < length s)"
proof (induction n)
  case (Suc n)
  have V: "length rest < length s" if "pval n s = Inr (v, rest)" for s v rest
    using Suc.IH that by blast
  have A: "length rest < length s" if "parr n acc s = Inr (v, rest)" for acc s v rest
    using Suc.IH that by blast
  have M: "length rest < length s" if "pmem n kvs s = Inr (v, rest)" for kvs s v rest
    using Suc.IH that by blast
  have O: "length rest < length s" if "pobj n kvs s = Inr (v, rest)" for kvs s v rest
    using Suc.IH that by blast
  have "length rest < length s" if h: "pval (Suc n) s = Inr (v, rest)" for s v rest
  proof -
    obtain c r where cr: "skip_ws s = c # r"
      using h by (cases "skip_ws s") auto
    have lr: "length (skip_ws r) < length s"
      using skip_ws_Cons_length [OF cr] length_skip_ws [of r] by simp
    consider (arr) "c = CHR ''[''" | (obj) "c = CHR ''{''" | (other) "c \<noteq> CHR ''[''" "c \<noteq> CHR ''{''"
      by blast
    then show ?thesis
    proof cases
      case arr
      show ?thesis
        using h lr length_tl_skip_ws [of r] V A unfolding pval_Suc_arr [OF cr [unfolded arr]]
        by (fastforce split: if_splits sum.splits)
    next
      case obj
      show ?thesis
        using h lr length_tl_skip_ws [of r] M unfolding pval_Suc_obj [OF cr [unfolded obj]]
        by (fastforce split: if_splits)
    next
      case other
      show ?thesis using h pval_Suc_scalar [OF cr other] pscalar_consumes [of c r]
        skip_ws_Cons_length [OF cr] by simp
    qed
  qed
  moreover have "length rest < length s" if h: "parr (Suc n) acc s = Inr (v, rest)" for acc s v rest
    using h length_tl_skip_ws [of s] V A by (fastforce simp: Let_def split: if_splits sum.splits)
  moreover have "length rest < length s" if h: "pmem (Suc n) kvs s = Inr (v, rest)" for kvs s v rest
  proof -
    obtain k r1 where k: "skip_ws s \<noteq> []" "hd (skip_ws s) = CHR 0x22" "pstr [] (tl (skip_ws s)) = Inr (k, r1)"
      using h by (auto simp: Let_def split: if_splits sum.splits)
    moreover obtain v' r3 where "skip_ws r1 \<noteq> []" "hd (skip_ws r1) = CHR '':''"
      "pval n (tl (skip_ws r1)) = Inr (v', r3)" "pobj n (AList.update k v' kvs) r3 = Inr (v, rest)"
      using h k by (auto simp: Let_def split: if_splits sum.splits)
    ultimately show ?thesis
      using V O length_tl_skip_ws [of s] length_tl_skip_ws [of r1] pstr_consumes
      by (fastforce simp: Let_def)
  qed
  moreover have "length rest < length s" if h: "pobj (Suc n) kvs s = Inr (v, rest)" for kvs s v rest
    using h length_tl_skip_ws [of s] M by (fastforce simp: Let_def split: if_splits)
  ultimately show ?case by blast
qed simp

lemma pval_consumes: "pval n s = Inr (v, rest) \<Longrightarrow> length rest < length s"
  using parse_consumes_fuel by blast

lemma parr_consumes: "parr n acc s = Inr (v, rest) \<Longrightarrow> length rest < length s"
  using parse_consumes_fuel by blast

lemma parse_enough_fuel:
  "(\<forall>s. length s < n \<longrightarrow> pval n s \<noteq> Inl Out_of_fuel)
   \<and> (\<forall>acc s. length s < n \<longrightarrow> parr n acc s \<noteq> Inl Out_of_fuel)
   \<and> (\<forall>kvs s. length s < n \<longrightarrow> pmem n kvs s \<noteq> Inl Out_of_fuel)
   \<and> (\<forall>kvs s. length s < n \<longrightarrow> pobj n kvs s \<noteq> Inl Out_of_fuel)"
proof (induction n)
  case (Suc n)
  have V: "pval n s \<noteq> Inl Out_of_fuel" if "length s < n" for s
    using Suc.IH that by blast
  have A: "parr n acc s \<noteq> Inl Out_of_fuel" if "length s < n" for acc s
    using Suc.IH that by blast
  have M: "pmem n kvs s \<noteq> Inl Out_of_fuel" if "length s < n" for kvs s
    using Suc.IH that by blast
  have O: "pobj n kvs s \<noteq> Inl Out_of_fuel" if "length s < n" for kvs s
    using Suc.IH that by blast
  have "pval (Suc n) s \<noteq> Inl Out_of_fuel" if h: "length s < Suc n" for s
  proof (cases "skip_ws s")
    case (Cons c r)
    have lr: "length (skip_ws r) < n"
      using skip_ws_Cons_length [OF Cons] length_skip_ws [of r] h by simp
    consider (arr) "c = CHR ''[''" | (obj) "c = CHR ''{''" | (other) "c \<noteq> CHR ''[''" "c \<noteq> CHR ''{''"
      by blast
    then show ?thesis
    proof cases
      case arr
      have "parr n [v] r2 \<noteq> Inl Out_of_fuel" if "pval n (skip_ws r) = Inr (v, r2)" for v r2
        using A pval_consumes [OF that] lr by simp
      then show ?thesis
        using V [OF lr] unfolding pval_Suc_arr [OF Cons [unfolded arr]]
        by (auto split: sum.splits)
    next
      case obj
      show ?thesis using M [OF lr] unfolding pval_Suc_obj [OF Cons [unfolded obj]] by simp
    next
      case other
      show ?thesis using pval_Suc_scalar [OF Cons other] pscalar_not_fuel [of c r] by simp
    qed
  qed simp
  moreover have "parr (Suc n) acc s \<noteq> Inl Out_of_fuel" if h: "length s < Suc n" for acc s
  proof -
    have "parr n (acc @ [v]) r' \<noteq> Inl Out_of_fuel" if "pval n (tl (skip_ws s)) = Inr (v, r')" for v r'
      using A pval_consumes [OF that] length_tl_skip_ws [of s] h
      by (cases "skip_ws s = []") auto
    moreover have "pval n (tl (skip_ws s)) \<noteq> Inl Out_of_fuel" if "skip_ws s \<noteq> []"
      using V length_tl_skip_ws [OF that] h by simp
    ultimately show ?thesis by (auto simp: Let_def split: sum.splits)
  qed
  moreover have "pmem (Suc n) kvs s \<noteq> Inl Out_of_fuel" if h: "length s < Suc n" for kvs s
  proof -
    have "pval n (tl (skip_ws r1)) \<noteq> Inl Out_of_fuel
          \<and> (\<forall>v r3. pval n (tl (skip_ws r1)) = Inr (v, r3) \<longrightarrow> pobj n (AList.update k v kvs) r3 \<noteq> Inl Out_of_fuel)"
      if "skip_ws s \<noteq> []" "pstr [] (tl (skip_ws s)) = Inr (k, r1)" "skip_ws r1 \<noteq> []" for k r1
    proof -
      have "length (tl (skip_ws r1)) < n"
        using length_tl_skip_ws [OF that(1)] pstr_consumes [OF that(2)] length_tl_skip_ws [OF that(3)] h
        by simp
      then show ?thesis using V O pval_consumes by fastforce
    qed
    then show ?thesis using pstr_not_fuel [of "[]" "tl (skip_ws s)"]
      by (auto simp: Let_def split: sum.splits)
  qed
  moreover have "pobj (Suc n) kvs s \<noteq> Inl Out_of_fuel" if h: "length s < Suc n" for kvs s
    using M length_tl_skip_ws [of s] h by (auto simp: Let_def)
  ultimately show ?case by blast
qed simp

text \<open>\<open>JSON.parse\<close> as modelled always ends with a value or a real parse error.\<close>

lemma json_parse_blank: "list_all json_ws s \<Longrightarrow> json_parse s = Inl Syntax_Error"
proof -
  assume "list_all json_ws s"
  then have "skip_ws s = []" unfolding skip_ws_def by (induction s) simp_all
  then show ?thesis by (simp add: json_parse_def)
qed

lemma json_parse_total: "json_parse s \<noteq> Inl Out_of_fuel"
proof -
  have "pval (Suc (length s)) s \<noteq> Inl Out_of_fuel"
    using parse_enough_fuel by blast
  then show ?thesis by (auto simp: json_parse_def split: sum.splits)
qed

section \<open>Parsing a printed value gives it back\<close>

lemma radix_digit_hex_digit: "d < 16 \<Longrightarrow> radix_digit 16 (hex_digit d) = Some d"
proof -
  have "list_all (\<lambda>d. radix_digit 16 (hex_digit d) = Some d) [0..<16]"
    by (simp add: hex_digit_def radix_digit_def upt_rec)
  moreover assume "d < 16"
  ultimately show ?thesis by (simp add: list_all_iff)
qed

lemma hex4_control: "n < 32 \<Longrightarrow> hex4 [CHR ''0'', CHR ''0'', hex_digit (n div 16), hex_digit (n mod 16)] = Some n"
proof -
  assume n: "n < 32"
  have z: "CHR ''0'' = hex_digit 0" by (simp add: hex_digit_def)
  have d: "n div 16 < 16" "n mod 16 < 16" using n by simp_all
  show ?thesis unfolding z
    by (simp add: hex4_def is_radix_digit_def radix_digit_hex_digit d digits_to_nat_def)
qed
lemma of_char_quote_bs: "of_char (CHR 0x22) = (34::nat)" "of_char (CHR 0x5C) = (92::nat)"
  by simp_all

lemma pstr_esc_char: "pstr acc (esc_char c @ r) = pstr (acc @ [c]) r"
proof -
  define n where "n = (of_char c :: nat)"
  have c: "c = char_of n" by (simp add: n_def)
  have q: "c \<noteq> CHR 0x22" "c \<noteq> CHR 0x5C" if "n \<noteq> 34" "n \<noteq> 92"
    using that of_char_quote_bs by (auto simp: n_def)
  consider (dq) "c = CHR 0x22" | (bs) "c = CHR 0x5C" | (short) "n \<in> {8, 9, 10, 12, 13}"
    | (ctl) "n \<notin> {8, 9, 10, 12, 13}" "n < 32"
    | (plain) "c \<noteq> CHR 0x22" "c \<noteq> CHR 0x5C" "\<not> n < 32"
    by fastforce
  then show ?thesis
  proof cases
    case dq
    then show ?thesis by (simp add: esc_char_def short_escape_def)
  next
    case bs
    then show ?thesis by (simp add: esc_char_def short_escape_def)
  next
    case short
    then have "c \<noteq> CHR 0x22" "c \<noteq> CHR 0x5C" using q by auto
    with short show ?thesis
      by (auto simp: esc_char_def short_escape_def n_def [symmetric] Let_def c)
  next
    case ctl
    then have "c \<noteq> CHR 0x22" "c \<noteq> CHR 0x5C" using q by auto
    moreover have u: "short_escape (CHR ''u'') = None" by (simp add: short_escape_def)
    ultimately show ?thesis using ctl hex4_control [OF ctl(2)]
      by (simp add: esc_char_def n_def [symmetric] Let_def c [symmetric])
  next
    case plain
    then show ?thesis by (simp add: esc_char_def n_def [symmetric] Let_def)
  qed
qed

lemma pstr_escaped: "pstr acc (concat (map esc_char s) @ CHR 0x22 # r) = Inr (acc @ s, r)"
  by (induction s arbitrary: acc) (simp_all add: pstr_esc_char)

lemma json_delim_not_digit: "json_delim r \<Longrightarrow> r \<noteq> [] \<Longrightarrow> \<not> is_digit (hd r)"
  using is_radix_digit_10_code [of "hd r"] by (auto simp: json_delim_def is_digit_def)

lemma takeWhile_digits_delim:
  "list_all is_digit ds \<Longrightarrow> json_delim r \<Longrightarrow> takeWhile is_digit (ds @ r) = ds \<and> dropWhile is_digit (ds @ r) = r"
proof (induction ds)
  case Nil
  then show ?case using json_delim_not_digit [of r] by (cases r) auto
qed auto

lemma is_digit_fun: "is_digit = is_radix_digit 10"
  by (rule ext) (simp add: is_digit_def)

lemma nat_digits_hd: "0 < m \<Longrightarrow> hd (nat_digits m) \<noteq> CHR ''0''"
proof (induction m rule: nat_digits.induct)
  case (1 m)
  show ?case
  proof (cases "m < 10")
    case True
    then have "of_char (digit_char m) \<noteq> (48::nat)" using 1(2) by (simp add: digit_char_def)
    then show ?thesis using True by (auto simp: nat_digits.simps [of m])
  next
    case False
    then show ?thesis using 1 by (simp add: nat_digits.simps [of m] nat_digits_not_Nil)
  qed
qed

lemma nat_digits_no_leading_zero:
  "hd (nat_digits m) = CHR ''0'' \<Longrightarrow> length (nat_digits m) = 1"
  using nat_digits_hd [of m] by (cases "m = 0") (auto simp: nat_digits.simps [of 0] digit_char_def)

lemma pnum_string_of_int: "json_delim r \<Longrightarrow> pnum (js_string_of_int i @ r) = Inr (JNum i, r)"
proof -
  assume r: "json_delim r"
  have dg: "list_all is_digit (nat_digits m)" for m by (simp add: is_digit_fun)
  have nz: "\<not> (hd (nat_digits m) = CHR ''0'' \<and> 1 < length (nat_digits m))" for m
    using nat_digits_no_leading_zero [of m] by auto
  have nd: "\<not> (r \<noteq> [] \<and> hd r \<in> {CHR ''.'', CHR ''e'', CHR ''E''})"
    using r by (auto simp: json_delim_def)
  show ?thesis
  proof (cases "i < 0")
    case True
    then show ?thesis using takeWhile_digits_delim [OF dg r, of "nat (- i)"] nz [of "nat (- i)"] nd
      by (simp add: pnum_def js_string_of_int_def Let_def)
  next
    case False
    have "hd (nat_digits (nat i) @ r) \<noteq> CHR ''-''"
      using dg [of "nat i"] is_radix_digit_10_not_special(3) nat_digits_not_Nil [of "nat i"]
      by (cases "nat_digits (nat i)") (auto simp: is_digit_def)
    then show ?thesis using False takeWhile_digits_delim [OF dg r, of "nat i"] nz [of "nat i"] nd
      by (simp add: pnum_def js_string_of_int_def Let_def)
  qed
qed

lemma digit_not_ws: "is_radix_digit 10 c \<Longrightarrow> \<not> json_ws c"
  using is_radix_digit_10_code [of c] by (auto simp: json_ws_def)

lemma stringify_start:
  "\<exists>c t. stringify j = c # t \<and> \<not> json_ws c \<and> c \<noteq> CHR '']'' \<and> c \<noteq> CHR ''}''"
proof (cases j)
  case (JNum i)
  obtain d ds where d: "nat_digits (nat \<bar>i\<bar>) = d # ds"
    using nat_digits_not_Nil by (cases "nat_digits (nat \<bar>i\<bar>)") auto
  then have "is_radix_digit 10 d" using list_all_nat_digits [of "nat \<bar>i\<bar>"] by simp
  then have "\<not> json_ws d" "d \<noteq> CHR '']''" "d \<noteq> CHR ''}''"
    using digit_not_ws is_radix_digit_10_code [of d] by auto
  then show ?thesis using JNum d
    by (cases "i < 0") (auto simp: js_string_of_int_def json_ws_def)
qed (auto simp: json_ws_def quote_def)

lemma skip_ws_stringify: "skip_ws (stringify j @ r) = stringify j @ r"
  using stringify_start [of j] by (auto simp: skip_ws_def)

lemma stringify_not_close:
  "stringify j @ r \<noteq> [] \<and> hd (stringify j @ r) \<noteq> CHR '']'' \<and> hd (stringify j @ r) \<noteq> CHR ''}''"
  using stringify_start [of j] by auto

lemma json_delim_comma: "json_delim (CHR '','' # r)" and json_delim_bracket: "json_delim (CHR '']'' # r)"
  and json_delim_brace: "json_delim (CHR ''}'' # r)"
  by (simp_all add: json_delim_def)

lemma skip_ws_punct:
  "skip_ws (CHR '','' # r) = CHR '','' # r" "skip_ws (CHR '']'' # r) = CHR '']'' # r"
  "skip_ws (CHR ''}'' # r) = CHR ''}'' # r" "skip_ws (CHR '':'' # r) = CHR '':'' # r"
  "skip_ws (CHR 0x22 # r) = CHR 0x22 # r"
  by (simp_all add: skip_ws_def json_ws_def)

lemma parr_stringify:
  assumes "\<And>y n r. y \<in> set ys \<Longrightarrow> length (stringify y) < n \<Longrightarrow> json_delim r \<Longrightarrow>
             pval n (stringify y @ r) = Inr (y, r)"
    and "length (concat (map (\<lambda>y. CHR '','' # stringify y) ys)) < m" "json_delim r"
  shows "parr m acc (concat (map (\<lambda>y. CHR '','' # stringify y) ys) @ CHR '']'' # r) = Inr (JArr (acc @ ys), r)"
  using assms
proof (induction ys arbitrary: acc m)
  case Nil
  then obtain m' where "m = Suc m'" by (cases m) auto
  then show ?case by (simp add: skip_ws_punct)
next
  case (Cons y ys)
  then obtain m' where m: "m = Suc m'" by (cases m) auto
  let ?rest = "concat (map (\<lambda>y. CHR '','' # stringify y) ys) @ CHR '']'' # r"
  have d: "json_delim ?rest" by (cases ys) (simp_all add: json_delim_def)
  have v: "pval m' (stringify y @ ?rest) = Inr (y, ?rest)"
    using Cons.prems(1) [of y m' ?rest] Cons.prems(2) m d by simp
  have p: "parr m' (acc @ [y]) ?rest = Inr (JArr (acc @ y # ys), r)"
    using Cons.IH [of m' "acc @ [y]"] Cons.prems m by simp
  show ?case using v p m by (simp add: skip_ws_punct)
qed

lemma json_delim_members: "json_delim (concat (map (\<lambda>(k, v). CHR '','' # f k v) xs) @ CHR ''}'' # r)"
  by (cases xs) (auto simp: json_delim_def split: prod.splits)

lemma pmem_member:
  "pmem (Suc m) acc (quote k @ CHR '':'' # s) =
     (case pval m s of Inl e \<Rightarrow> Inl e | Inr (v, r3) \<Rightarrow> pobj m (AList.update k v acc) r3)"
proof -
  have "quote k @ CHR '':'' # s = CHR 0x22 # (concat (map esc_char k) @ CHR 0x22 # CHR '':'' # s)"
    by (simp add: quote_def)
  then show ?thesis by (simp add: skip_ws_punct pstr_escaped Let_def)
qed

lemma length_quote: "2 \<le> length (quote k)"
  by (simp add: quote_def)

lemma pobj_stringify:
  assumes "\<And>k v n r. (k, v) \<in> set kvs \<Longrightarrow> length (stringify v) < n \<Longrightarrow> json_delim r \<Longrightarrow>
             pval n (stringify v @ r) = Inr (v, r)"
    and "distinct (map fst (acc @ kvs))"
    and "length (concat (map (\<lambda>(k, v). CHR '','' # quote k @ CHR '':'' # stringify v) kvs)) < m" "json_delim r"
  shows "pobj m acc (concat (map (\<lambda>(k, v). CHR '','' # quote k @ CHR '':'' # stringify v) kvs) @ CHR ''}'' # r)
           = Inr (JObj (acc @ kvs), r)"
  using assms
proof (induction kvs arbitrary: acc m)
  case Nil
  then obtain m' where "m = Suc m'" by (cases m) auto
  then show ?case by (simp add: skip_ws_punct)
next
  case (Cons kv kvs)
  obtain k v where kv: "kv = (k, v)" by fastforce
  let ?rest = "concat (map (\<lambda>(k, v). CHR '','' # quote k @ CHR '':'' # stringify v) kvs) @ CHR ''}'' # r"
  have len: "2 + length (stringify v) + length (concat (map (\<lambda>(k, v). CHR '','' # quote k @ CHR '':'' # stringify v) kvs)) < m"
    using Cons.prems(3) kv length_quote [of k] by simp
  then have "2 \<le> m" by simp
  then obtain m' where m: "m = Suc (Suc m')" using add_2_eq_Suc le_Suc_ex by metis
  have d: "json_delim ?rest" by (cases kvs) (auto simp: json_delim_def)
  have v: "pval m' (stringify v @ ?rest) = Inr (v, ?rest)"
    using Cons.prems(1) [of k v m' ?rest] kv len m d by simp
  have new: "k \<notin> fst ` set acc" using Cons.prems(2) kv by simp
  have h1: "pval n (stringify v' @ r') = Inr (v', r')"
    if "(k', v') \<in> set kvs" "length (stringify v') < n" "json_delim r'" for k' v' n r'
    using Cons.prems(1) [of k' v' n r'] that by simp
  have h2: "distinct (map fst ((acc @ [(k, v)]) @ kvs))" using Cons.prems(2) kv by simp
  have h3: "length (concat (map (\<lambda>(k, v). CHR '','' # quote k @ CHR '':'' # stringify v) kvs)) < m'"
    using len m by simp
  have p: "pobj m' (acc @ [(k, v)]) ?rest = Inr (JObj (acc @ kv # kvs), r)"
    using Cons.IH [OF h1 h2 h3 Cons.prems(4)] kv by simp
  have "pobj m acc (concat (map (\<lambda>(k, v). CHR '','' # quote k @ CHR '':'' # stringify v) (kv # kvs)) @ CHR ''}'' # r)
          = pmem (Suc m') acc (quote k @ CHR '':'' # stringify v @ ?rest)"
    using m kv by (simp add: skip_ws_punct del: pmem.simps)
  then show ?case using v p new by (simp add: pmem_member update_append_absent del: pmem.simps)
qed

lemma join_comma_Cons: "join_comma (map f (x # xs)) = f x @ concat (map (\<lambda>y. CHR '','' # f y) xs)"
  by (simp add: comp_def)

lemma map_cons_case_prod: "map (\<lambda>y. c # y) (map (\<lambda>(k, v). f k v) xs) = map (\<lambda>(k, v). c # f k v) xs"
  by (induction xs) auto

lemma stringify_JObj_Cons:
  "stringify (JObj ((k, v) # kvs)) =
     CHR ''{'' # quote k @ CHR '':'' # stringify v
     @ concat (map (\<lambda>(k, v). CHR '','' # quote k @ CHR '':'' # stringify v) kvs) @ ''}''"
  by (simp only: stringify.simps join_comma.simps list.map map_cons_case_prod prod.case append_assoc append_Cons)

lemma pval_stringify:
  "json_wf j \<Longrightarrow> length (stringify j) < n \<Longrightarrow> json_delim r \<Longrightarrow> pval n (stringify j @ r) = Inr (j, r)"
proof (induction j arbitrary: n r rule: stringify.induct)
  case 1
  then obtain m where "n = Suc m" by (cases n) auto
  then show ?case by (simp add: skip_ws_def json_ws_def pscalar_def)
next
  case (2 b)
  then obtain m where "n = Suc m" by (cases n) auto
  then show ?case by (cases b) (simp_all add: skip_ws_def json_ws_def pscalar_def)
next
  case (3 i)
  then obtain m where n: "n = Suc m" by (cases n) auto
  obtain c t where ct: "js_string_of_int i @ r = c # t"
    using stringify_start [of "JNum i"] by auto
  have sk: "skip_ws (js_string_of_int i @ r) = c # t"
    using skip_ws_stringify [of "JNum i" r] ct by simp
  have c: "c = CHR ''-'' \<or> is_digit c"
  proof (cases "i < 0")
    case False
    then obtain ds where "nat_digits (nat i) = c # ds"
      using ct nat_digits_not_Nil [of "nat i"] by (cases "nat_digits (nat i)") (auto simp: js_string_of_int_def)
    then show ?thesis using list_all_nat_digits [of "nat i"] by (simp add: is_digit_def)
  qed (use ct in \<open>simp add: js_string_of_int_def\<close>)
  have nb: "c \<noteq> CHR ''['' \<and> c \<noteq> CHR ''{'' \<and> c \<noteq> CHR ''n'' \<and> c \<noteq> CHR ''t'' \<and> c \<noteq> CHR ''f'' \<and> c \<noteq> CHR 0x22"
    using c is_radix_digit_10_code [of c] by (auto simp: is_digit_def)
  have "pval n (js_string_of_int i @ r) = pnum (c # t)"
    using nb c by (simp add: n sk pscalar_def)
  then show ?case using pnum_string_of_int [OF 3(3), of i] ct by simp
next
  case (4 s)
  then obtain m where "n = Suc m" by (cases n) auto
  then show ?case by (simp add: quote_def skip_ws_punct pscalar_def pstr_escaped)
next
  case (5 xs)
  then obtain m where n: "n = Suc m" by (cases n) auto
  show ?case
  proof (cases xs)
    case Nil
    then show ?thesis using n by (simp add: skip_ws_def json_ws_def)
  next
    case (Cons x xs')
    let ?rest = "concat (map (\<lambda>y. CHR '','' # stringify y) xs') @ CHR '']'' # r"
    have eq: "stringify (JArr xs) @ r = CHR ''['' # (stringify x @ ?rest)"
      using Cons by (simp add: comp_def)
    have d: "json_delim ?rest" by (cases xs') (simp_all add: json_delim_def)
    have v: "pval m (stringify x @ ?rest) = Inr (x, ?rest)"
      using "5.IH" [of x m ?rest] "5.prems" Cons n d by (simp add: join_comma_Cons)
    have h1: "pval k (stringify y @ r') = Inr (y, r')"
      if "y \<in> set xs'" "length (stringify y) < k" "json_delim r'" for y k r'
      using "5.IH" [of y k r'] "5.prems"(1) Cons that by simp
    have h2: "length (concat (map (\<lambda>y. CHR '','' # stringify y) xs')) < m"
      using "5.prems"(2) n Cons by (simp add: comp_def)
    have a: "parr m [x] ?rest = Inr (JArr (x # xs'), r)"
      using parr_stringify [OF h1 h2 "5.prems"(3), of "[x]"] by simp
    have sk: "skip_ws (CHR ''['' # (stringify x @ ?rest)) = CHR ''['' # (stringify x @ ?rest)"
      by (simp add: skip_ws_def json_ws_def)
    show ?thesis
      unfolding eq n pval_Suc_arr [OF sk] using v a stringify_not_close [of x ?rest] skip_ws_stringify [of x ?rest] Cons
      by simp
  qed
next
  case (6 kvs)
  obtain m where n: "n = Suc m" using "6.prems"(2) by (cases n) auto
  show ?case
  proof (cases kvs)
    case Nil
    then show ?thesis using n by (simp add: skip_ws_def json_ws_def)
  next
    case (Cons kv kvs')
    obtain k v where kv: "kv = (k, v)" by fastforce
    define C where "C = concat (map (\<lambda>(k, v). CHR '','' # quote k @ CHR '':'' # stringify v) kvs')"
    let ?rest = "C @ CHR ''}'' # r"
    have sj: "stringify (JObj kvs) = CHR ''{'' # quote k @ CHR '':'' # stringify v @ C @ ''}''"
      unfolding C_def Cons kv by (rule stringify_JObj_Cons)
    have eq: "stringify (JObj kvs) @ r = CHR ''{'' # (quote k @ CHR '':'' # stringify v @ ?rest)"
      unfolding sj by simp
    have len: "2 + length (stringify v) + length C < m"
      using "6.prems"(2) [unfolded sj] n length_quote [of k] by simp
    obtain m' where m: "m = Suc m'" using len by (cases m) auto
    have d: "json_delim ?rest" unfolding C_def by (rule json_delim_members)
    have v: "pval m' (stringify v @ ?rest) = Inr (v, ?rest)"
      using "6.IH" [of kv k v m' ?rest] "6.prems"(1) len m d unfolding Cons kv by simp
    have h1: "pval k' (stringify y @ r') = Inr (y, r')"
      if "(x, y) \<in> set kvs'" "length (stringify y) < k'" "json_delim r'" for x y k' r'
    proof -
      have "json_wf y" using "6.prems"(1) that(1) unfolding Cons by auto
      then show ?thesis using "6.IH" [of "(x, y)" x y k' r'] that unfolding Cons by simp
    qed
    have h2: "distinct (map fst ([(k, v)] @ kvs'))" using "6.prems"(1) unfolding Cons kv by simp
    have h3: "length (concat (map (\<lambda>(k, v). CHR '','' # quote k @ CHR '':'' # stringify v) kvs')) < m'"
      using len m by (simp add: C_def [symmetric])
    have o: "pobj m' [(k, v)] ?rest = Inr (JObj ((k, v) # kvs'), r)"
      using pobj_stringify [OF h1 h2 h3 "6.prems"(3)] by (simp add: C_def [symmetric])
    have sk: "skip_ws (CHR ''{'' # (quote k @ CHR '':'' # stringify v @ ?rest)) = CHR ''{'' # (quote k @ CHR '':'' # stringify v @ ?rest)"
      by (simp add: skip_ws_def json_ws_def)
    have sk2: "skip_ws (quote k @ CHR '':'' # stringify v @ ?rest) = quote k @ CHR '':'' # stringify v @ ?rest"
      by (simp add: quote_def skip_ws_punct)
    have nc: "quote k @ CHR '':'' # stringify v @ ?rest \<noteq> [] \<and> hd (quote k @ CHR '':'' # stringify v @ ?rest) \<noteq> CHR ''}''"
      by (simp add: quote_def)
    show ?thesis
      unfolding eq n pval_Suc_obj [OF sk] sk2 m using nc v o Cons kv
      by (simp add: pmem_member del: pmem.simps)
  qed
qed

lemma json_parse_stringify: "json_wf j \<Longrightarrow> json_parse (stringify j) = Inr j"
  using pval_stringify [of j "Suc (length (stringify j))" "[]"]
  by (simp add: json_parse_def json_delim_def skip_ws_def)

section \<open>Parsed objects have distinct keys\<close>

lemma pscalar_wf: "pscalar c r = Inr (v, rest) \<Longrightarrow> json_wf v"
  by (auto simp: pscalar_def pnum_def Let_def split: if_splits sum.splits prod.splits)

lemma parse_wf_fuel:
  "(\<forall>s v rest. pval n s = Inr (v, rest) \<longrightarrow> json_wf v)
   \<and> (\<forall>acc s v rest. (\<forall>x \<in> set acc. json_wf x) \<longrightarrow> parr n acc s = Inr (v, rest) \<longrightarrow> json_wf v)
   \<and> (\<forall>kvs s v rest. json_wf (JObj kvs) \<longrightarrow> pmem n kvs s = Inr (v, rest) \<longrightarrow> json_wf v)
   \<and> (\<forall>kvs s v rest. json_wf (JObj kvs) \<longrightarrow> pobj n kvs s = Inr (v, rest) \<longrightarrow> json_wf v)"
proof (induction n)
  case (Suc n)
  have V: "json_wf v" if "pval n s = Inr (v, rest)" for s v rest
    using Suc.IH that by blast
  have A: "json_wf v" if "\<forall>x \<in> set acc. json_wf x" "parr n acc s = Inr (v, rest)" for acc s v rest
    using Suc.IH that by blast
  have M: "json_wf v" if "json_wf (JObj kvs)" "pmem n kvs s = Inr (v, rest)" for kvs s v rest
    using Suc.IH that by blast
  have O: "json_wf v" if "json_wf (JObj kvs)" "pobj n kvs s = Inr (v, rest)" for kvs s v rest
    using Suc.IH that by blast
  have "json_wf v" if h: "pval (Suc n) s = Inr (v, rest)" for s v rest
  proof -
    obtain c r where cr: "skip_ws s = c # r"
      using h by (cases "skip_ws s") auto
    consider (arr) "c = CHR ''[''" | (obj) "c = CHR ''{''" | (other) "c \<noteq> CHR ''[''" "c \<noteq> CHR ''{''"
      by blast
    then show ?thesis
    proof cases
      case arr
      show ?thesis
      proof (cases "skip_ws r \<noteq> [] \<and> hd (skip_ws r) = CHR '']''")
        case True
        then show ?thesis using h unfolding pval_Suc_arr [OF cr [unfolded arr]] by auto
      next
        case False
        then obtain v' r2 where p: "pval n (skip_ws r) = Inr (v', r2)" "parr n [v'] r2 = Inr (v, rest)"
          using h unfolding pval_Suc_arr [OF cr [unfolded arr]] by (auto split: sum.splits)
        show ?thesis by (rule A [OF _ p(2)]) (use V [OF p(1)] in simp)
      qed
    next
      case obj
      show ?thesis
        using h M [of "[]"] unfolding pval_Suc_obj [OF cr [unfolded obj]]
        by (auto split: if_splits)
    next
      case other
      show ?thesis using h pval_Suc_scalar [OF cr other] pscalar_wf by simp
    qed
  qed
  moreover have "json_wf v" if w: "\<forall>x \<in> set acc. json_wf x" and h: "parr (Suc n) acc s = Inr (v, rest)"
    for acc s v rest
  proof (cases "skip_ws s \<noteq> [] \<and> hd (skip_ws s) = CHR '']''")
    case True
    then show ?thesis using h w by (auto simp: Let_def)
  next
    case False
    then obtain v' r' where p: "pval n (tl (skip_ws s)) = Inr (v', r')" "parr n (acc @ [v']) r' = Inr (v, rest)"
      using h by (auto simp: Let_def split: if_splits sum.splits)
    show ?thesis by (rule A [OF _ p(2)]) (use V [OF p(1)] w in simp)
  qed
  moreover have "json_wf v" if w: "json_wf (JObj kvs)" and h: "pmem (Suc n) kvs s = Inr (v, rest)" for kvs s v rest
  proof -
    obtain k r1 where k: "skip_ws s \<noteq> []" "hd (skip_ws s) = CHR 0x22" "pstr [] (tl (skip_ws s)) = Inr (k, r1)"
      using h by (auto simp: Let_def split: if_splits sum.splits)
    moreover obtain v' r3 where p: "skip_ws r1 \<noteq> []" "hd (skip_ws r1) = CHR '':''"
      "pval n (tl (skip_ws r1)) = Inr (v', r3)" "pobj n (AList.update k v' kvs) r3 = Inr (v, rest)"
      using h k by (auto simp: Let_def split: if_splits sum.splits)
    moreover have "set (AList.update k v' kvs) \<subseteq> insert (k, v') (set kvs)"
      by (induction kvs) auto
    then have "\<forall>kv \<in> set (AList.update k v' kvs). json_wf (snd kv)"
      using w V [OF p(3)] by fastforce
    then have "json_wf (JObj (AList.update k v' kvs))"
      using w by (simp add: distinct_update)
    ultimately show ?thesis using O by blast
  qed
  moreover have "json_wf v" if "json_wf (JObj kvs)" "pobj (Suc n) kvs s = Inr (v, rest)" for kvs s v rest
    using that M by (auto simp: Let_def split: if_splits)
  ultimately show ?case by blast
qed simp

lemma json_parse_wf: "json_parse s = Inr j \<Longrightarrow> json_wf j"
proof -
  assume h: "json_parse s = Inr j"
  then obtain r where "pval (Suc (length s)) s = Inr (j, r)"
    by (auto simp: json_parse_def split: sum.splits if_splits)
  then show ?thesis using parse_wf_fuel by blast
qed

end
