(* ===== verification/Persistence.thy ===== *)
theory Persistence
  imports Json Task_Store "HOL-Library.Monad_Syntax"
begin

text \<open>
  The persistence layer of \<open>src/script.js\<close>. \<open>localStorage\<close> is a store of strings
  (\<open>storage\<close>, an association list; \<open>getItem\<close> and \<open>setItem\<close>). The script reads it
  once at start-up (lines 31--38): \<open>JSON.parse(localStorage.getItem('tasks')) || {}\<close>,
  the same for \<open>recurringTasks\<close> with default \<open>[]\<close>, and the raw string
  \<open>journalEntry\<close> with default \<open>''\<close>. It writes it through \<open>saveTasks\<close>,
  \<open>saveRecurringTasks\<close> (lines 401--410) and \<open>saveJournal\<close> (lines 450--453).

  The in-memory objects are written by \<open>JSON.stringify\<close> as the JSON values \<open>enc_tasks\<close>
  and \<open>enc_rules\<close>; the values read back are turned into the model's data by
  \<open>dec_tasks\<close> and \<open>dec_rules\<close>, which accept exactly the shapes the program writes (a
  value of another shape is the error \<open>Unmodelled_Shape\<close>: the program would go on with
  it, the model does not represent it). A text that is not JSON makes \<open>JSON.parse\<close>
  throw at start-up, which stops the script: the error \<open>Parse_Error\<close>.

  Results: saving and loading gives back the saved data (\<open>load_saveTasks\<close>,
  \<open>load_saveRecurringTasks\<close>), each save leaves the other entries alone, absent
  entries and stored falsy JSON values load as the defaults, and a text the parser rejects
  (the empty string included) is a load error.
\<close>

section \<open>The store, the encodings and the load and save operations\<close>

type_synonym storage = "(string \<times> string) list"

definition getItem :: "storage \<Rightarrow> string \<Rightarrow> string option" where
  "getItem st key = map_of st key"

definition setItem :: "string \<Rightarrow> string \<Rightarrow> storage \<Rightarrow> storage" where
  "setItem key v st = AList.update key v st"

text \<open>\<open>JSON.stringify\<close> of the in-memory data: a task is \<open>{desc}\<close>, the index an object of
  objects of arrays; a rule has the properties in the order \<open>addTask\<close> creates them,
  and a NaN field is written as \<open>null\<close>.\<close>

definition enc_task :: "task \<Rightarrow> json" where
  "enc_task t = JObj [(''desc'', JStr (desc t))]"

definition enc_slots :: "slot_map \<Rightarrow> json" where
  "enc_slots slots = JObj (map (\<lambda>(time, lst). (time, JArr (map enc_task lst))) slots)"

definition enc_tasks :: "task_index \<Rightarrow> json" where
  "enc_tasks tasks = JObj (map (\<lambda>(date, slots). (date, enc_slots slots)) tasks)"

fun enc_num :: "jsnum \<Rightarrow> json" where
  "enc_num None = JNull"
| "enc_num (Some n) = JNum n"

fun enc_rule :: "recurring \<Rightarrow> json" where
  "enc_rule (Weekly dw t d) =
     JObj [(''dayOfWeek'', enc_num dw), (''time'', JStr t), (''desc'', JStr d), (''repeat'', JStr ''weekly'')]"
| "enc_rule (Yearly mo dy t d) =
     JObj [(''month'', enc_num mo), (''day'', enc_num dy), (''time'', JStr t), (''desc'', JStr d),
           (''repeat'', JStr ''yearly'')]"

definition enc_rules :: "recurring list \<Rightarrow> json" where
  "enc_rules rs = JArr (map enc_rule rs)"

text \<open>Reading the parsed values back. A \<open>null\<close> number field is read as NaN: the program
  only compares it with \<open>===\<close>, where \<open>null\<close> and NaN both equal no number.\<close>

fun dec_num :: "json \<Rightarrow> jsnum option" where
  "dec_num JNull = Some None"
| "dec_num (JNum n) = Some (Some n)"
| "dec_num _ = None"

fun dec_str :: "json \<Rightarrow> string option" where
  "dec_str (JStr s) = Some s"
| "dec_str _ = None"

definition field :: "(string \<times> json) list \<Rightarrow> string \<Rightarrow> (json \<Rightarrow> 'a option) \<Rightarrow> 'a option" where
  "field kvs key dec = (case map_of kvs key of None \<Rightarrow> None | Some j \<Rightarrow> dec j)"

fun dec_task :: "json \<Rightarrow> task option" where
  "dec_task (JObj kvs) = map_option (\<lambda>d. \<lparr>desc = d\<rparr>) (field kvs ''desc'' dec_str)"
| "dec_task _ = None"

fun dec_slots :: "json \<Rightarrow> slot_map option" where
  "dec_slots (JObj kvs) =
     those (map (\<lambda>(time, j). case j of JArr xs \<Rightarrow> map_option (Pair time) (those (map dec_task xs)) | _ \<Rightarrow> None) kvs)"
| "dec_slots _ = None"

fun dec_tasks :: "json \<Rightarrow> task_index option" where
  "dec_tasks (JObj kvs) = those (map (\<lambda>(date, j). map_option (Pair date) (dec_slots j)) kvs)"
| "dec_tasks _ = None"

fun dec_rule :: "json \<Rightarrow> recurring option" where
  "dec_rule (JObj kvs) =
     (case field kvs ''repeat'' dec_str of
        Some r \<Rightarrow>
          if r = ''weekly'' then
            do { dw \<leftarrow> field kvs ''dayOfWeek'' dec_num; t \<leftarrow> field kvs ''time'' dec_str;
                 d \<leftarrow> field kvs ''desc'' dec_str; Some (Weekly dw t d) }
          else if r = ''yearly'' then
            do { mo \<leftarrow> field kvs ''month'' dec_num; dy \<leftarrow> field kvs ''day'' dec_num;
                 t \<leftarrow> field kvs ''time'' dec_str; d \<leftarrow> field kvs ''desc'' dec_str;
                 Some (Yearly mo dy t d) }
          else None
      | None \<Rightarrow> None)"
| "dec_rule _ = None"

fun dec_rules :: "json \<Rightarrow> recurring list option" where
  "dec_rules (JArr xs) = those (map dec_rule xs)"
| "dec_rules _ = None"

datatype load_error = Parse_Error json_error | Unmodelled_Shape

text \<open>\<open>JSON.parse(localStorage.getItem(key))\<close>: a missing entry is \<open>null\<close>, which
  \<open>JSON.parse\<close> reads as the text \<open>"null"\<close>.\<close>

definition parse_item :: "storage \<Rightarrow> string \<Rightarrow> json_error + json" where
  "parse_item st key = json_parse (case getItem st key of None \<Rightarrow> ''null'' | Some s \<Rightarrow> s)"

text \<open>Lines 31--32: \<open>let tasks = JSON.parse(localStorage.getItem('tasks')) || {}\<close>.\<close>

definition load_tasks :: "storage \<Rightarrow> load_error + task_index" where
  "load_tasks st =
     (case parse_item st ''tasks'' of
        Inl e \<Rightarrow> Inl (Parse_Error e)
      | Inr j \<Rightarrow> if json_truthy j then (case dec_tasks j of None \<Rightarrow> Inl Unmodelled_Shape | Some t \<Rightarrow> Inr t)
                else Inr [])"

text \<open>Lines 34--35: \<open>let recurringTasks = JSON.parse(localStorage.getItem('recurringTasks')) || []\<close>.\<close>

definition load_recurring :: "storage \<Rightarrow> load_error + recurring list" where
  "load_recurring st =
     (case parse_item st ''recurringTasks'' of
        Inl e \<Rightarrow> Inl (Parse_Error e)
      | Inr j \<Rightarrow> if json_truthy j then (case dec_rules j of None \<Rightarrow> Inl Unmodelled_Shape | Some rs \<Rightarrow> Inr rs)
                else Inr [])"

text \<open>Lines 37--38: \<open>let journalEntry = localStorage.getItem('journalEntry') || ''\<close>.\<close>

definition load_journal :: "storage \<Rightarrow> string" where
  "load_journal st = (case getItem st ''journalEntry'' of None \<Rightarrow> [] | Some s \<Rightarrow> if s \<noteq> [] then s else [])"

definition saveTasks :: "task_index \<Rightarrow> storage \<Rightarrow> storage" where
  "saveTasks tasks st = setItem ''tasks'' (stringify (enc_tasks tasks)) st"

definition saveRecurringTasks :: "recurring list \<Rightarrow> storage \<Rightarrow> storage" where
  "saveRecurringTasks rs st = setItem ''recurringTasks'' (stringify (enc_rules rs)) st"

text \<open>\<open>saveJournal\<close> (lines 450--453) stores the text area's content as it is.\<close>

definition saveJournal :: "string \<Rightarrow> storage \<Rightarrow> storage" where
  "saveJournal content st = setItem ''journalEntry'' content st"

text \<open>The keys of the index are distinct at both levels, as the property names of a
  JavaScript object are.\<close>

definition keys_distinct :: "task_index \<Rightarrow> bool" where
  "keys_distinct tasks \<longleftrightarrow> distinct (map fst tasks) \<and> list_all (\<lambda>(d, slots). distinct (map fst slots)) tasks"

section \<open>Encoding and decoding\<close>

lemma those_map_inverse: "(\<And>x. x \<in> set xs \<Longrightarrow> g (f x) = Some x) \<Longrightarrow> those (map g (map f xs)) = Some xs"
  by (induction xs) auto

lemma getItem_setItem: "getItem (setItem k v st) k' = (if k' = k then Some v else getItem st k')"
  by (simp add: getItem_def setItem_def update_conv')

lemma dec_enc_task: "dec_task (enc_task t) = Some t"
  by (simp add: enc_task_def field_def)

lemma dec_enc_slots: "dec_slots (enc_slots s) = Some s"
  unfolding enc_slots_def dec_slots.simps
  by (rule those_map_inverse) (auto simp: dec_enc_task those_map_inverse [unfolded map_map])

lemma dec_enc_tasks: "dec_tasks (enc_tasks t) = Some t"
  unfolding enc_tasks_def dec_tasks.simps
  by (rule those_map_inverse) (auto simp: dec_enc_slots)

lemma dec_num_enc_num: "dec_num (enc_num x) = Some x"
  by (cases x) simp_all

lemma dec_enc_rule: "dec_rule (enc_rule r) = Some r"
  by (cases r) (simp_all add: field_def dec_num_enc_num)

lemma dec_enc_rules: "dec_rules (enc_rules rs) = Some rs"
  unfolding enc_rules_def dec_rules.simps
  by (rule those_map_inverse) (simp add: dec_enc_rule)

lemma json_wf_enc_num: "json_wf (enc_num x)"
  by (cases x) simp_all

lemma json_wf_enc_rules: "json_wf (enc_rules rs)"
proof -
  have "json_wf (enc_rule r)" for r by (cases r) (simp_all add: json_wf_enc_num)
  then show ?thesis by (simp add: enc_rules_def)
qed

lemma json_wf_enc_tasks: "keys_distinct t \<Longrightarrow> json_wf (enc_tasks t)"
proof -
  have fst_map: "map (fst \<circ> (\<lambda>(a, b). (a, f b))) xs = map fst xs" for f :: "'a \<Rightarrow> 'b" and xs :: "('c \<times> 'a) list"
    by (induction xs) auto
  have slots: "distinct (map fst s) \<Longrightarrow> json_wf (enc_slots s)" for s
    by (auto simp: enc_slots_def enc_task_def fst_map)
  assume "keys_distinct t"
  then show ?thesis
    by (fastforce simp: keys_distinct_def enc_tasks_def fst_map list_all_iff intro: slots)
qed

lemma json_truthy_enc: "json_truthy (enc_tasks t)" "json_truthy (enc_rules rs)"
  by (simp_all add: enc_tasks_def enc_rules_def)

section \<open>A loaded index has distinct keys\<close>

lemma those_list_all2: "those (map f xs) = Some ys \<Longrightarrow> list_all2 (\<lambda>x y. f x = Some y) xs ys"
  by (induction xs arbitrary: ys) (auto split: option.splits)

lemma those_keys:
  assumes "those (map f kvs) = Some ys" "\<And>k j y. f (k, j) = Some y \<Longrightarrow> fst y = k"
  shows "map fst ys = map fst kvs \<and> (\<forall>y \<in> set ys. \<exists>j. (fst y, j) \<in> set kvs \<and> f (fst y, j) = Some y)"
proof -
  have "list_all2 (\<lambda>x y. f x = Some y) kvs ys" by (rule those_list_all2 [OF assms(1)])
  then show ?thesis
  proof (induction kvs ys rule: list_all2_induct)
    case (Cons x xs y ys)
    then show ?case using assms(2) [of "fst x" "snd x" y] by (cases x) auto
  qed simp
qed

lemma dec_slots_keys: "json_wf j \<Longrightarrow> dec_slots j = Some s \<Longrightarrow> distinct (map fst s)"
proof (cases j)
  case (JObj kvs)
  assume w: "json_wf j" and d: "dec_slots j = Some s"
  have "map fst s = map fst kvs"
    by (rule conjunct1 [OF those_keys [OF d [unfolded JObj dec_slots.simps]]]) (auto split: json.splits)
  then show ?thesis using w JObj by simp
qed simp_all

lemma dec_tasks_keys: "json_wf j \<Longrightarrow> dec_tasks j = Some t \<Longrightarrow> keys_distinct t"
proof (cases j)
  case (JObj kvs)
  assume w: "json_wf j" and d: "dec_tasks j = Some t"
  have k: "map fst t = map fst kvs \<and> (\<forall>y \<in> set t. \<exists>j'. (fst y, j') \<in> set kvs
             \<and> (\<lambda>(date, j). map_option (Pair date) (dec_slots j)) (fst y, j') = Some y)"
    by (rule those_keys [OF d [unfolded JObj dec_tasks.simps]]) auto
  have "distinct (map fst (snd y))" if yt: "y \<in> set t" for y
  proof -
    obtain j' z where j: "(fst y, j') \<in> set kvs" "dec_slots j' = Some z" "(fst y, z) = y"
      using k yt by force
    then have "json_wf j'" using w JObj by auto
    moreover have "snd y = z" using arg_cong [OF j(3), of snd] by simp
    ultimately show ?thesis using dec_slots_keys [of j' z] j(2) by simp
  qed
  then show ?thesis using k w JObj by (auto simp: keys_distinct_def list_all_iff)
qed simp_all

lemma load_tasks_keys: "load_tasks st = Inr t \<Longrightarrow> keys_distinct t"
  using json_parse_wf dec_tasks_keys
  by (auto simp: load_tasks_def parse_item_def keys_distinct_def split: sum.splits if_splits option.splits)

section \<open>The store operations keep the keys distinct\<close>

lemma keys_distinct_addOneTime: "keys_distinct t \<Longrightarrow> keys_distinct (addOneTime date time d t)"
proof -
  assume k: "keys_distinct t"
  have "distinct (map fst (slots_of t date))"
    using k map_of_list_all [of t date _ "\<lambda>(d, slots). distinct (map fst slots)"]
    by (cases "map_of t date") (auto simp: slots_of_def keys_distinct_def)
  then show ?thesis using k
    by (simp add: keys_distinct_def addOneTime_def Let_def distinct_update list_all_update)
qed

lemma keys_distinct_deleteTask:
  assumes k: "keys_distinct t" and del: "deleteTask date time index t = Some t'"
  shows "keys_distinct t'"
proof -
  obtain slots where s: "map_of t date = Some slots" using del by (auto simp: deleteTask_def split: option.splits)
  have ds: "distinct (map fst slots)"
    using k map_of_list_all [OF s, of "\<lambda>(d, slots). distinct (map fst slots)"] by (simp add: keys_distinct_def)
  show ?thesis using k del s ds
    by (auto simp: keys_distinct_def deleteTask_def Let_def distinct_update distinct_delete list_all_update
        list_all_delete split: option.splits)
qed

section \<open>Load after save\<close>

lemma parse_item_setItem: "parse_item (setItem k v st) k = json_parse v"
  by (simp add: parse_item_def getItem_setItem)

lemma parse_item_setItem_other: "k' \<noteq> k \<Longrightarrow> parse_item (setItem k v st) k' = parse_item st k'"
  by (simp add: parse_item_def getItem_setItem)

lemma load_journal_saveJournal: "load_journal (saveJournal c st) = c"
  by (simp add: load_journal_def saveJournal_def getItem_setItem)

text \<open>The facts that evaluate a load after saves: the definitions, and the round trip of
  the encodings through the JSON text.\<close>

lemmas load_save_defs = load_tasks_def load_recurring_def load_journal_def saveTasks_def
  saveRecurringTasks_def saveJournal_def

lemmas store_simps = parse_item_setItem parse_item_setItem_other getItem_setItem json_parse_stringify
  json_wf_enc_tasks json_wf_enc_rules dec_enc_tasks dec_enc_rules json_truthy_enc

text \<open>Loads after each save, as the handlers perform them.\<close>

lemma load_after_saveTasks:
  "keys_distinct t \<Longrightarrow> load_tasks (saveTasks t st) = Inr t \<and> load_recurring (saveTasks t st) = load_recurring st
   \<and> load_journal (saveTasks t st) = load_journal st"
  by (simp add: load_save_defs store_simps)

lemma load_after_saveRecurringTasks:
  "load_tasks (saveRecurringTasks rs st) = load_tasks st \<and> load_recurring (saveRecurringTasks rs st) = Inr rs
   \<and> load_journal (saveRecurringTasks rs st) = load_journal st"
  by (simp add: load_save_defs store_simps)

lemma load_after_saveJournal:
  "load_tasks (saveJournal c st) = load_tasks st \<and> load_recurring (saveJournal c st) = load_recurring st
   \<and> load_journal (saveJournal c st) = c"
  by (simp add: load_save_defs store_simps)

text \<open>Claim C21: saving the task index and loading it gives it back.\<close>

theorem load_saveTasks: "keys_distinct tasks \<Longrightarrow> load_tasks (saveTasks tasks st) = Inr tasks"
  by (simp add: load_save_defs store_simps)

theorem load_saveTasks_witness:
  "keys_distinct [(''2024-05-01'', [(''09:00'', [\<lparr>desc = ''Gym''\<rparr>])])]
   \<and> load_tasks (saveTasks [(''2024-05-01'', [(''09:00'', [\<lparr>desc = ''Gym''\<rparr>])])] [])
       = Inr [(''2024-05-01'', [(''09:00'', [\<lparr>desc = ''Gym''\<rparr>])])]"
proof -
  have k: "keys_distinct [(''2024-05-01'', [(''09:00'', [\<lparr>desc = ''Gym''\<rparr>])])]"
    by (simp add: keys_distinct_def)
  show ?thesis using k load_saveTasks [OF k, of "[]"] by simp
qed

text \<open>Claim C22: saving the recurring rules and loading them gives them back, NaN fields
  (written as \<open>null\<close>) included.\<close>

theorem load_saveRecurringTasks: "load_recurring (saveRecurringTasks rs st) = Inr rs"
  by (simp add: load_save_defs store_simps)

text \<open>Claim C23: each save writes its own entry only: the other two entries load as before.\<close>

theorem save_frames:
  "load_recurring (saveTasks t st) = load_recurring st \<and> load_journal (saveTasks t st) = load_journal st
   \<and> load_tasks (saveRecurringTasks rs st) = load_tasks st \<and> load_journal (saveRecurringTasks rs st) = load_journal st
   \<and> load_tasks (saveJournal c st) = load_tasks st \<and> load_recurring (saveJournal c st) = load_recurring st"
  by (simp add: load_save_defs store_simps)

text \<open>Claim C24: on a first visit (no entry stored) the data load as the defaults: no task,
  no rule, an empty journal.\<close>

theorem load_defaults:
  assumes "getItem st ''tasks'' = None" "getItem st ''recurringTasks'' = None" "getItem st ''journalEntry'' = None"
  shows "load_tasks st = Inr [] \<and> load_recurring st = Inr [] \<and> load_journal st = []"
proof -
  have "json_parse ''null'' = Inr JNull" by code_simp
  then show ?thesis using assms by (simp add: load_tasks_def load_recurring_def load_journal_def parse_item_def)
qed

theorem load_defaults_witness: "load_tasks [] = Inr [] \<and> load_recurring [] = Inr [] \<and> load_journal [] = []"
  using load_defaults [of "[]"] by (simp add: getItem_def)

text \<open>Claim C25: a stored text that \<open>JSON.parse\<close> rejects is no empty default: whatever
  error the parser raises on it is the result of the start-up load, for the index and for
  the rules alike, since \<open>JSON.parse\<close> throws before \<open>||\<close> is evaluated. In particular a
  stored empty or blank string, falsy in JavaScript, stops the script with a
  \<open>SyntaxError\<close>.\<close>

theorem load_malformed:
  "(json_parse txt = Inl e \<longrightarrow>
      load_tasks (setItem ''tasks'' txt st) = Inl (Parse_Error e)
      \<and> load_recurring (setItem ''recurringTasks'' txt st) = Inl (Parse_Error e))
   \<and> (list_all json_ws txt \<longrightarrow>
      load_tasks (setItem ''tasks'' txt st) = Inl (Parse_Error Syntax_Error)
      \<and> load_recurring (setItem ''recurringTasks'' txt st) = Inl (Parse_Error Syntax_Error))"
  by (simp add: load_tasks_def load_recurring_def parse_item_def getItem_setItem json_parse_blank)

theorem load_malformed_witness:
  "load_tasks (setItem ''tasks'' ''{'' []) = Inl (Parse_Error Syntax_Error)
   \<and> load_recurring (setItem ''recurringTasks'' [] []) = Inl (Parse_Error Syntax_Error)"
proof -
  have "json_parse ''{'' = Inl Syntax_Error" by code_simp
  then show ?thesis
    using load_malformed [of "''{''" Syntax_Error "[]"] load_malformed [of "[]" Syntax_Error "[]"] by simp
qed

end
