(* ===== verification/App.thy ===== *)
theory App
  imports Month_Grid Day_Agenda Persistence
begin

text \<open>
  The controller of \<open>src/script.js\<close>: the module-level state (lines 26--39 and the form
  and modal elements it reads and writes), the event handlers \<open>openDayModal\<close>,
  \<open>closeDayModal\<close>, \<open>openTaskModal\<close>, \<open>closeTaskModal\<close>, \<open>addTask\<close>, \<open>deleteTask\<close>,
  \<open>deleteRecurringTask\<close>, \<open>changeMonth\<close>, \<open>toggleJournal\<close> and \<open>saveJournal\<close>, and the
  events the page lets the user fire (lines 415--461 and the listeners the two
  renderers attach). A run of the page is a sequence of enabled events from the state
  the start-up code loads (\<open>reach\<close>, an inductive set of states).

  Results: in every reachable state, reloading the page would give back the in-memory
  data (the save after each mutation keeps \<open>localStorage\<close> in step), the keys of the
  index are distinct, and each modal is open exactly when its selection is set
  (\<open>reach_app_inv\<close>); every event keeps the pruning invariant; the handlers do what
  the specification's operations do on their success paths and nothing on the missing
  selection path; a delete button of the day view always deletes the entry it shows;
  a submitted task marks its day in the re-rendered grid; the month buttons move the
  displayed month and header; from every reachable state any slot of a displayed day
  can be emptied by enabled clicks (\<open>open_and_clear_live\<close>); the journal keeps the last
  text typed and flips with each toggle (\<open>journal_run\<close>); a blank description shows its
  placeholder; closing the day modal under the form makes a submit a no-op.
\<close>

section \<open>State and handlers\<close>

text \<open>The state: \<open>currentDate\<close> (a time value), \<open>selectedDate\<close> and \<open>selectedTime\<close>
  (\<open>null\<close> is \<open>None\<close>), the data, the values of the description input and the repeat
  select, which of the two modals and the journal sidebar are shown, the journal text area
  and \<open>localStorage\<close>.\<close>

record app_state =
  currentDate :: int
  selectedDate :: "string option"
  selectedTime :: "string option"
  tasks :: task_index
  recurringTasks :: "recurring list"
  taskDesc :: string
  taskRepeat :: string
  dayModalOpen :: bool
  taskModalOpen :: bool
  journalOpen :: bool
  journalText :: string
  storage :: storage

text \<open>The start-up code (lines 26--39) on the stored data it loaded.\<close>

definition init_state :: "int \<Rightarrow> storage \<Rightarrow> task_index \<Rightarrow> recurring list \<Rightarrow> app_state" where
  "init_state now st t rs =
     \<lparr>currentDate = now, selectedDate = None, selectedTime = None, tasks = t, recurringTasks = rs,
      taskDesc = [], taskRepeat = ''none'', dayModalOpen = False, taskModalOpen = False,
      journalOpen = False, journalText = load_journal st, storage = st\<rparr>"

text \<open>Lines 173--178 and 183--186 (the rendering of the day view is the view
  \<open>renderDayView\<close> of the new state).\<close>

definition openDayModal :: "string \<Rightarrow> app_state \<Rightarrow> app_state" where
  "openDayModal date s = s\<lparr>selectedDate := Some date, dayModalOpen := True\<rparr>"

definition closeDayModal :: "app_state \<Rightarrow> app_state" where
  "closeDayModal s = s\<lparr>dayModalOpen := False, selectedDate := None\<rparr>"

text \<open>Lines 294--301 and 306--309.\<close>

definition openTaskModal :: "string \<Rightarrow> app_state \<Rightarrow> app_state" where
  "openTaskModal time24 s =
     s\<lparr>selectedTime := Some time24, taskModalOpen := True, taskDesc := [], taskRepeat := ''none''\<rparr>"

definition closeTaskModal :: "app_state \<Rightarrow> app_state" where
  "closeTaskModal s = s\<lparr>taskModalOpen := False, selectedTime := None\<rparr>"

text \<open>\<open>addTask\<close> (lines 315--362): the guard \<open>!selectedDate || !selectedTime\<close> (an empty
  string is falsy too) returns at once; otherwise the branch of the repeat mode changes
  the data, both collections are saved, the form is reset (to the values
  \<open>openTaskModal\<close> sets) and the task modal closed.\<close>

definition add_to_store :: "int \<Rightarrow> string \<Rightarrow> string \<Rightarrow> string \<Rightarrow> string \<Rightarrow> app_state \<Rightarrow> app_state" where
  "add_to_store tza repeat sd st d s =
     (if repeat = ''none'' then s\<lparr>tasks := addOneTime sd st d (tasks s)\<rparr>
      else if repeat = ''weekly'' then s\<lparr>recurringTasks := addRecurring (weekly_rule tza sd st d) (recurringTasks s)\<rparr>
      else if repeat = ''yearly'' then s\<lparr>recurringTasks := addRecurring (yearly_rule tza sd st d) (recurringTasks s)\<rparr>
      else s)"

definition addTask :: "int \<Rightarrow> app_state \<Rightarrow> app_state" where
  "addTask tza s =
     (let d = js_trim (taskDesc s); repeat = taskRepeat s
      in case (selectedDate s, selectedTime s) of
           (Some sd, Some st) \<Rightarrow>
             if sd = [] \<or> st = [] then s
             else (let s1 = add_to_store tza repeat sd st d s;
                       s2 = s1\<lparr>storage := saveRecurringTasks (recurringTasks s1) (saveTasks (tasks s1) (storage s1))\<rparr>
                   in closeTaskModal (s2\<lparr>taskDesc := [], taskRepeat := ''none''\<rparr>))
         | _ \<Rightarrow> s)"

text \<open>The handler \<open>deleteTask\<close> (lines 370--383) around the store operation
  \<open>Task_Store.deleteTask\<close>: nothing happens unless the date and the slot exist; then the
  index is saved.\<close>

definition deleteTask_ui :: "string \<Rightarrow> string \<Rightarrow> int \<Rightarrow> app_state \<Rightarrow> app_state" where
  "deleteTask_ui date time index s =
     (case deleteTask date time index (tasks s) of
        None \<Rightarrow> s
      | Some t \<Rightarrow> s\<lparr>tasks := t, storage := saveTasks t (storage s)\<rparr>)"

text \<open>The handler \<open>deleteRecurringTask\<close> (lines 389--396).\<close>

definition deleteRecurringTask_ui :: "int \<Rightarrow> app_state \<Rightarrow> app_state" where
  "deleteRecurringTask_ui index s =
     (case deleteRecurringTask index (recurringTasks s) of
        None \<Rightarrow> s
      | Some rs \<Rightarrow> s\<lparr>recurringTasks := rs, storage := saveRecurringTasks rs (storage s)\<rparr>)"

text \<open>\<open>changeMonth(delta)\<close> (lines 416--419): \<open>currentDate.setMonth(currentDate.getMonth() + delta)\<close>.\<close>

definition changeMonth :: "int \<Rightarrow> int \<Rightarrow> app_state \<Rightarrow> app_state" where
  "changeMonth tza delta s =
     s\<lparr>currentDate := set_month tza (currentDate s) (month_of tza (currentDate s) + delta)\<rparr>"

text \<open>Lines 443--445 and 450--453: the sidebar's \<open>open\<close> class, and the \<open>input\<close>
  listener that stores the text area's value.\<close>

definition toggleJournal :: "app_state \<Rightarrow> app_state" where
  "toggleJournal s = s\<lparr>journalOpen := \<not> journalOpen s\<rparr>"

definition journalInput :: "string \<Rightarrow> app_state \<Rightarrow> app_state" where
  "journalInput content s = s\<lparr>journalText := content, storage := saveJournal content (storage s)\<rparr>"

section \<open>Events\<close>

text \<open>What the user can do: click a day cell of the grid, close the day modal (its close
  button, the back button or the backdrop), click an hour slot, close the task modal, type
  a description, choose a repeat mode, submit the form, click a delete button, the two
  month buttons, the journal toggle, and type in the journal. \<open>script.js\<close> registers no
  listener for the form's \<open>submit\<close> event: \<open>Submit\<close> runs \<open>addTask\<close> (which calls
  \<open>e.preventDefault()\<close> on its event) by the wiring of the page markup, which is not in the
  repository; this wiring is assumed.\<close>

datatype event = ClickDay string | CloseDay | ClickSlot string | CloseTask | TypeDesc string
  | ChooseRepeat string | Submit | ClickDeleteTask string string nat | ClickDeleteRecurring nat
  | PrevMonth | NextMonth | ToggleJournal | TypeJournal string

fun handle :: "int \<Rightarrow> event \<Rightarrow> app_state \<Rightarrow> app_state" where
  "handle tza (ClickDay d) s = openDayModal d s"
| "handle tza CloseDay s = closeDayModal s"
| "handle tza (ClickSlot t) s = openTaskModal t s"
| "handle tza CloseTask s = closeTaskModal s"
| "handle tza (TypeDesc x) s = s\<lparr>taskDesc := x\<rparr>"
| "handle tza (ChooseRepeat r) s = s\<lparr>taskRepeat := r\<rparr>"
| "handle tza Submit s = addTask tza s"
| "handle tza (ClickDeleteTask d t i) s = deleteTask_ui d t (int i) s"
| "handle tza (ClickDeleteRecurring i) s = deleteRecurringTask_ui (int i) s"
| "handle tza PrevMonth s = changeMonth tza (-1) s"
| "handle tza NextMonth s = changeMonth tza 1 s"
| "handle tza ToggleJournal s = toggleJournal s"
| "handle tza (TypeJournal c) s = journalInput c s"

text \<open>The delete buttons the day view of a date shows.\<close>

definition view_delete_refs :: "int \<Rightarrow> app_state \<Rightarrow> string \<Rightarrow> delete_ref list" where
  "view_delete_refs tza s date =
     map deleteRef (concat (map entries (renderDayView tza (tasks s) (recurringTasks s) date)))"

text \<open>Which events the page offers: a day cell can be clicked when the grid shows it
  with a date (active cells only); the slots and delete buttons exist while the day modal
  shows the day view of the selected date; the form while the task modal is shown; the
  journal text area while the sidebar is open. Whether a modal covers the elements under
  it depends on the style sheet, which is not in the repository, so \<open>enabled\<close> does not
  model overlays: it may offer a click the real page covers. The invariants over
  \<open>reach\<close> hold a fortiori; the liveness claim may need the user to close a covering
  modal first.\<close>

fun enabled :: "int \<Rightarrow> int \<Rightarrow> app_state \<Rightarrow> event \<Rightarrow> bool" where
  "enabled tza today s (ClickDay d) =
     (Some d \<in> set (map fullDate (renderCalendar tza today (tasks s) (recurringTasks s) (currentDate s))))"
| "enabled tza today s CloseDay = dayModalOpen s"
| "enabled tza today s (ClickSlot t) =
     (dayModalOpen s \<and> (case selectedDate s of
        None \<Rightarrow> False
      | Some date \<Rightarrow> t \<in> set (map slotTime (renderDayView tza (tasks s) (recurringTasks s) date))))"
| "enabled tza today s CloseTask = taskModalOpen s"
| "enabled tza today s (TypeDesc x) = taskModalOpen s"
| "enabled tza today s (ChooseRepeat r) = taskModalOpen s"
| "enabled tza today s Submit = taskModalOpen s"
| "enabled tza today s (ClickDeleteTask d t i) =
     (dayModalOpen s \<and> (case selectedDate s of
        None \<Rightarrow> False | Some date \<Rightarrow> DeleteOneTime d t i \<in> set (view_delete_refs tza s date)))"
| "enabled tza today s (ClickDeleteRecurring i) =
     (dayModalOpen s \<and> (case selectedDate s of
        None \<Rightarrow> False | Some date \<Rightarrow> DeleteRecurring i \<in> set (view_delete_refs tza s date)))"
| "enabled tza today s PrevMonth = True"
| "enabled tza today s NextMonth = True"
| "enabled tza today s ToggleJournal = True"
| "enabled tza today s (TypeJournal c) = journalOpen s"

text \<open>The states of a page opened at time \<open>now\<close> on the store \<open>st\<close>: the start-up state,
  when both loads succeed (a \<open>SyntaxError\<close> stops the script), and every state an
  enabled event leads to. \<open>now\<close> also stands for the \<open>new Date()\<close> of each rendering.\<close>

inductive reach :: "int \<Rightarrow> int \<Rightarrow> storage \<Rightarrow> app_state \<Rightarrow> bool" where
  start: "load_tasks st = Inr t \<Longrightarrow> load_recurring st = Inr rs \<Longrightarrow> reach tza now st (init_state now st t rs)"
| step: "reach tza now st s \<Longrightarrow> enabled tza now s e \<Longrightarrow> reach tza now st (handle tza e s)"

text \<open>A sequence of events, and that each of them is enabled when it is fired.\<close>

fun run :: "int \<Rightarrow> event list \<Rightarrow> app_state \<Rightarrow> app_state" where
  "run tza [] s = s"
| "run tza (e # es) s = run tza es (handle tza e s)"

fun runnable :: "int \<Rightarrow> int \<Rightarrow> event list \<Rightarrow> app_state \<Rightarrow> bool" where
  "runnable tza now [] s = True"
| "runnable tza now (e # es) s = (enabled tza now s e \<and> runnable tza now es (handle tza e s))"

text \<open>The last text typed into the journal during a sequence of events.\<close>

fun last_journal :: "event list \<Rightarrow> string option" where
  "last_journal [] = None"
| "last_journal (TypeJournal c # es) = (case last_journal es of None \<Rightarrow> Some c | Some c' \<Rightarrow> Some c')"
| "last_journal (e # es) = last_journal es"

text \<open>The invariant of the running page.\<close>

definition app_inv :: "app_state \<Rightarrow> bool" where
  "app_inv s \<longleftrightarrow>
     load_tasks (storage s) = Inr (tasks s) \<and> load_recurring (storage s) = Inr (recurringTasks s)
     \<and> load_journal (storage s) = journalText s \<and> keys_distinct (tasks s)
     \<and> (dayModalOpen s \<longleftrightarrow> selectedDate s \<noteq> None) \<and> (taskModalOpen s \<longleftrightarrow> selectedTime s \<noteq> None)"

text \<open>An example page: the day modal open on 2024-05-01, with two one-time tasks at
  09:00, a weekly rule made at 10:00 of that day and a yearly rule.\<close>

definition demo_day :: app_state where
  "demo_day = (init_state 0 [] [(''2024-05-01'', [(''09:00'', [\<lparr>desc = ''Gym''\<rparr>, \<lparr>desc = ''Run''\<rparr>])])]
       [weekly_rule 0 ''2024-05-01'' ''10:00'' ''Yoga'', Yearly (Some 11) (Some 25) ''08:00'' ''Xmas''])
     \<lparr>selectedDate := Some ''2024-05-01'', dayModalOpen := True\<rparr>"

section \<open>The invariant of the running page\<close>

lemma app_inv_storage_frame:
  "app_inv s \<Longrightarrow> tasks s' = tasks s \<Longrightarrow> recurringTasks s' = recurringTasks s \<Longrightarrow> storage s' = storage s
   \<Longrightarrow> journalText s' = journalText s \<Longrightarrow> (dayModalOpen s' \<longleftrightarrow> selectedDate s' \<noteq> None)
   \<Longrightarrow> (taskModalOpen s' \<longleftrightarrow> selectedTime s' \<noteq> None) \<Longrightarrow> app_inv s'"
  by (simp add: app_inv_def)

lemma add_to_store_frame:
  "storage (add_to_store tza r sd st d s) = storage s \<and> journalText (add_to_store tza r sd st d s) = journalText s
   \<and> selectedDate (add_to_store tza r sd st d s) = selectedDate s \<and> selectedTime (add_to_store tza r sd st d s) = selectedTime s
   \<and> dayModalOpen (add_to_store tza r sd st d s) = dayModalOpen s"
  by (simp add: add_to_store_def)

lemma add_to_store_keys: "keys_distinct (tasks s) \<Longrightarrow> keys_distinct (tasks (add_to_store tza r sd st d s))"
  by (simp add: add_to_store_def keys_distinct_addOneTime)

lemma app_inv_addTask: "app_inv s \<Longrightarrow> app_inv (addTask tza s)"
proof -
  assume inv: "app_inv s"
  have "app_inv (closeTaskModal (s1\<lparr>storage := saveRecurringTasks (recurringTasks s1) (saveTasks (tasks s1) (storage s1)),
          taskDesc := [], taskRepeat := ''none''\<rparr>))"
    if s1: "s1 = add_to_store tza r sd st d s" for r sd st d s1
  proof -
    have k: "keys_distinct (tasks s1)" using inv s1 add_to_store_keys by (simp add: app_inv_def)
    show ?thesis
      using inv s1 add_to_store_frame [of tza r sd st d s] load_after_saveTasks [OF k]
        load_after_saveRecurringTasks [of "recurringTasks s1"] k
      by (simp add: app_inv_def closeTaskModal_def)
  qed
  then show ?thesis using inv by (auto simp: addTask_def Let_def split: option.splits)
qed

lemma app_inv_handle: "app_inv s \<Longrightarrow> app_inv (handle tza e s)"
proof (cases e)
  case Submit
  then show "app_inv s \<Longrightarrow> app_inv (handle tza e s)" using app_inv_addTask by simp
next
  case (ClickDeleteTask d t i)
  then show "app_inv s \<Longrightarrow> app_inv (handle tza e s)"
    using keys_distinct_deleteTask load_after_saveTasks
    by (auto simp: deleteTask_ui_def app_inv_def split: option.splits)
next
  case (ClickDeleteRecurring i)
  then show "app_inv s \<Longrightarrow> app_inv (handle tza e s)"
    using load_after_saveRecurringTasks
    by (auto simp: deleteRecurringTask_ui_def app_inv_def split: option.splits)
next
  case (TypeJournal c)
  then show "app_inv s \<Longrightarrow> app_inv (handle tza e s)"
    using load_after_saveJournal by (auto simp: journalInput_def app_inv_def)
qed (auto simp: app_inv_def openDayModal_def closeDayModal_def openTaskModal_def closeTaskModal_def
       changeMonth_def toggleJournal_def)

lemma handle_tasks:
  "tasks (handle tza e s) = tasks s
   \<or> (\<exists>t. tasks (handle tza e s) = addOneTime (the (selectedDate s)) (the (selectedTime s)) t (tasks s))
   \<or> (\<exists>d t i. deleteTask d t i (tasks s) = Some (tasks (handle tza e s)))"
proof (cases e)
  case Submit
  then show ?thesis
    by (auto simp: addTask_def add_to_store_def closeTaskModal_def Let_def split: option.splits)
next
  case (ClickDeleteTask d t i)
  then show ?thesis by (auto simp: deleteTask_ui_def split: option.splits)
next
  case (ClickDeleteRecurring i)
  then show ?thesis by (auto simp: deleteRecurringTask_ui_def split: option.splits)
next
  case (TypeJournal c)
  then show ?thesis by (simp add: journalInput_def)
qed (simp_all add: openDayModal_def closeDayModal_def openTaskModal_def closeTaskModal_def
       changeMonth_def toggleJournal_def)

section \<open>Handlers in terms of the store and the views\<close>

lemma addTask_selected:
  assumes "selectedDate s = Some sd" "sd \<noteq> []" "selectedTime s = Some st" "st \<noteq> []"
  shows "addTask tza s =
           (let s1 = add_to_store tza (taskRepeat s) sd st (js_trim (taskDesc s)) s
            in s1\<lparr>storage := saveRecurringTasks (recurringTasks s1) (saveTasks (tasks s1) (storage s1)),
                  taskDesc := [], taskRepeat := ''none'', taskModalOpen := False, selectedTime := None\<rparr>)"
  using assms by (simp add: addTask_def closeTaskModal_def Let_def)

lemma has_one_time_addOneTime: "has_one_time (addOneTime date time d t) date"
  by (simp add: has_one_time_def addOneTime_def Let_def update_conv')

lemma rules_match_own_date:
  assumes "1000 \<le> y" "y \<le> 9999" "valid_ymd y m d"
  shows "rule_matches (date_parts tza (formatDate y (m + 1) d)) (weekly_rule tza (formatDate y (m + 1) d) t x)
       \<and> rule_matches (date_parts tza (formatDate y (m + 1) d)) (yearly_rule tza (formatDate y (m + 1) d) t x)"
  using date_parts_formatDate [OF assms, of tza] by (simp add: weekly_rule_parts yearly_rule_parts Let_def)

lemma formatDate_not_Nil: "formatDate y m d \<noteq> []"
  by (simp add: formatDate_def)

text \<open>The day view of a date shows a delete button for every one-time entry of a slot
  and for every rule that matches the date at a slot.\<close>

lemma view_delete_refs_one_time:
  assumes "i < length (slot_tasks (tasks s) date (time24_of_hour h))" "h < 24"
  shows "DeleteOneTime date (time24_of_hour h) i \<in> set (view_delete_refs tza s date)"
proof -
  have "(i, slot_tasks (tasks s) date (time24_of_hour h) ! i) \<in> set (enumerate 0 (slot_tasks (tasks s) date (time24_of_hour h)))"
    using assms(1) by (simp add: in_set_enumerate_eq)
  then have "DeleteOneTime date (time24_of_hour h) i \<in> set (map deleteRef (entries (day_slot tza (tasks s) (recurringTasks s) date h)))"
    by (force simp: day_slot_spec one_time_view_def)
  then show ?thesis using assms(2) by (force simp: view_delete_refs_def renderDayView_def)
qed

lemma view_delete_refs_recurring:
  assumes "i < length (recurringTasks s)" "rule_matches (date_parts tza date) (recurringTasks s ! i)"
    "rule_time (recurringTasks s ! i) = time24_of_hour h" "h < 24"
  shows "DeleteRecurring i \<in> set (view_delete_refs tza s date)"
proof -
  have "(i, recurringTasks s ! i) \<in> set (recurring_at tza date (time24_of_hour h) (recurringTasks s))"
    using assms(1-3) by (simp add: recurring_at_def in_set_enumerate_eq)
  then have "DeleteRecurring i \<in> set (map deleteRef (entries (day_slot tza (tasks s) (recurringTasks s) date h)))"
    by (force simp: day_slot_spec deleteRef_recurring_view)
  then show ?thesis using assms(4) by (force simp: view_delete_refs_def renderDayView_def)
qed

lemma demo_day_key: "formatDate 2024 5 1 = ''2024-05-01''"
  by code_simp

lemma demo_day_hours: "time24_of_hour 9 = ''09:00''" "time24_of_hour 10 = ''10:00''"
  by code_simp+

lemma demo_day_weekly: "rule_matches (date_parts 0 ''2024-05-01'') (weekly_rule 0 ''2024-05-01'' t x)"
proof -
  have "valid_ymd 2024 4 1" by (simp add: valid_ymd_def month_lengths_def)
  then show ?thesis using rules_match_own_date [of 2024 4 1 0 t x] by (simp add: demo_day_key)
qed

lemma reach_run: "reach tza now st s \<Longrightarrow> runnable tza now es s \<Longrightarrow> reach tza now st (run tza es s)"
  by (induction es arbitrary: s) (auto intro: reach.step)

lemma deleteTask_ui_view:
  "selectedDate (deleteTask_ui d t i s) = selectedDate s \<and> dayModalOpen (deleteTask_ui d t i s) = dayModalOpen s"
  by (simp add: deleteTask_ui_def split: option.splits)

lemma click_delete_first:
  assumes "dayModalOpen s" "selectedDate s = Some d" "h < 24" "slot_tasks (tasks s) d (time24_of_hour h) = x # xs"
  shows "enabled tza now s (ClickDeleteTask d (time24_of_hour h) 0)
         \<and> slot_tasks (tasks (handle tza (ClickDeleteTask d (time24_of_hour h) 0) s)) d' t' =
             (if d' = d \<and> t' = time24_of_hour h then xs else slot_tasks (tasks s) d' t')"
proof -
  obtain ts' where del: "deleteTask d (time24_of_hour h) 0 (tasks s) = Some ts'"
    using deleteTask_Some [of "tasks s" d "time24_of_hour h" 0] assms(4) by auto
  have "enabled tza now s (ClickDeleteTask d (time24_of_hour h) 0)"
    using view_delete_refs_one_time [of 0 s d h tza] assms by simp
  then show ?thesis
    using slot_tasks_deleteTask [OF del, of d' t'] del assms(4) by (simp add: deleteTask_ui_def js_splice1_nonneg)
qed

lemma clear_slot_run:
  "dayModalOpen s \<Longrightarrow> selectedDate s = Some d \<Longrightarrow> h < 24 \<Longrightarrow> length (slot_tasks (tasks s) d (time24_of_hour h)) = n \<Longrightarrow>
   runnable tza now (replicate n (ClickDeleteTask d (time24_of_hour h) 0)) s
   \<and> (\<forall>d' t'. slot_tasks (tasks (run tza (replicate n (ClickDeleteTask d (time24_of_hour h) 0)) s)) d' t' =
         (if d' = d \<and> t' = time24_of_hour h then [] else slot_tasks (tasks s) d' t'))"
proof (induction n arbitrary: s)
  case 0
  then show ?case by simp
next
  case (Suc n)
  then obtain x xs where sl: "slot_tasks (tasks s) d (time24_of_hour h) = x # xs"
    by (cases "slot_tasks (tasks s) d (time24_of_hour h)") auto
  let ?s1 = "handle tza (ClickDeleteTask d (time24_of_hour h) 0) s"
  have c: "enabled tza now s (ClickDeleteTask d (time24_of_hour h) 0)"
     "\<And>d' t'. slot_tasks (tasks ?s1) d' t' = (if d' = d \<and> t' = time24_of_hour h then xs else slot_tasks (tasks s) d' t')"
    using click_delete_first [OF Suc.prems(1-3) sl] by blast+
  have "dayModalOpen ?s1" "selectedDate ?s1 = Some d" "length (slot_tasks (tasks ?s1) d (time24_of_hour h)) = n"
    using Suc.prems deleteTask_ui_view c(2) sl by simp_all
  from Suc.IH [OF this(1,2) Suc.prems(3) this(3)] show ?case
    using c by simp
qed

text \<open>Every day of the displayed month has a clickable cell.\<close>

lemma grid_day_clickable:
  assumes "1 \<le> k" "k \<le> month_lengths (in_leap_year (js_full_year (year_of tza date))) ! nat (month_of tza date)"
  shows "Some (formatDate (year_of tza date) (month_of tza date + 1) k) \<in> set (map fullDate (renderCalendar tza today ts rs date))"
  using day_cell_in_grid [OF assms, of today ts rs] by (force simp: day_cell_def Let_def)

text \<open>The month buttons.\<close>

lemma changeMonth_local:
  assumes "local_civil tza (currentDate s) = (y, m, dt)" "dt \<le> 28"
  shows "local_civil tza (currentDate (changeMonth tza delta s)) = (y + (m + delta) div 12, (m + delta) mod 12, dt)"
proof -
  have v: "valid_ymd y m dt"
    using assms(1) civil_of_day_valid by (simp add: local_civil_def)
  have m: "month_of tza (currentDate s) = m" using assms(1) by (simp add: month_of_def)
  have "valid_ymd (y + (m + delta) div 12) ((m + delta) mod 12) dt"
    using v assms(2) month_lengths_pos [of "nat ((m + delta) mod 12)" "in_leap_year (y + (m + delta) div 12)"]
    by (simp add: valid_ymd_def nat_less_iff)
  then show ?thesis
    using local_civil_set_month [OF assms(1), of "m + delta"] m
    by (simp add: changeMonth_def make_day_normal [of y "m + delta"] civil_of_make_day)
qed

lemma month_buttons_run:
  "local_civil tza (currentDate s) = (y, m, dt) \<Longrightarrow> dt \<le> 28 \<Longrightarrow> set es \<subseteq> {PrevMonth, NextMonth} \<Longrightarrow>
   runnable tza now es s \<and>
   local_civil tza (currentDate (run tza es s)) =
     (let d = int (count_list es NextMonth) - int (count_list es PrevMonth)
      in (y + (m + d) div 12, (m + d) mod 12, dt))"
proof (induction es arbitrary: s y m)
  case Nil
  then have "valid_ymd y m dt" using civil_of_day_valid by (simp add: local_civil_def)
  then show ?case using Nil.prems(1) by (simp add: valid_ymd_def)
next
  case (Cons e es)
  obtain delta where e: "handle tza e s = changeMonth tza delta s"
    and dl: "delta = (if e = NextMonth then 1 else -1)" "e = NextMonth \<or> e = PrevMonth"
    using Cons.prems(3) by auto
  have c1: "local_civil tza (currentDate (handle tza e s)) = (y + (m + delta) div 12, (m + delta) mod 12, dt)"
    unfolding e by (rule changeMonth_local [OF Cons.prems(1,2)])
  have ih: "runnable tza now es (handle tza e s) \<and>
    local_civil tza (currentDate (run tza es (handle tza e s))) =
     (let d = int (count_list es NextMonth) - int (count_list es PrevMonth)
      in (y + (m + delta) div 12 + ((m + delta) mod 12 + d) div 12, ((m + delta) mod 12 + d) mod 12, dt))"
    using Cons.IH [OF c1 Cons.prems(2)] Cons.prems(3) by simp
  have en: "enabled tza now s e" using dl(2) by auto
  let ?D = "int (count_list es NextMonth) - int (count_list es PrevMonth)"
  have d: "int (count_list (e # es) NextMonth) - int (count_list (e # es) PrevMonth) = delta + ?D"
    using dl by auto
  have q: "y + (m + delta) div 12 + ((m + delta) mod 12 + ?D) div 12 = y + (m + (delta + ?D)) div 12"
    using div_mod_12_carry [of "m + delta" ?D] by (simp add: add.assoc)
  have r: "((m + delta) mod 12 + ?D) mod 12 = (m + (delta + ?D)) mod 12"
    by (simp add: mod_add_left_eq add.assoc)
  show ?case
    using ih en unfolding d Let_def q r by simp
qed

text \<open>What each event does to the journal.\<close>

lemma handle_journal:
  "getItem (storage (handle tza e s)) ''journalEntry''
     = (case e of TypeJournal c \<Rightarrow> Some c | _ \<Rightarrow> getItem (storage s) ''journalEntry'')
   \<and> journalText (handle tza e s) = (case e of TypeJournal c \<Rightarrow> c | _ \<Rightarrow> journalText s)
   \<and> journalOpen (handle tza e s) = (if e = ToggleJournal then \<not> journalOpen s else journalOpen s)"
proof (cases e)
  case Submit
  then show ?thesis
    by (auto simp: addTask_def add_to_store_def closeTaskModal_def Let_def saveTasks_def
        saveRecurringTasks_def getItem_setItem split: option.splits)
next
  case (ClickDeleteTask d t i)
  then show ?thesis by (auto simp: deleteTask_ui_def saveTasks_def getItem_setItem split: option.splits)
next
  case (ClickDeleteRecurring i)
  then show ?thesis
    by (auto simp: deleteRecurringTask_ui_def saveRecurringTasks_def getItem_setItem split: option.splits)
next
  case (TypeJournal c)
  then show ?thesis by (simp add: journalInput_def saveJournal_def getItem_setItem)
qed (simp_all add: openDayModal_def closeDayModal_def openTaskModal_def closeTaskModal_def
       changeMonth_def toggleJournal_def)

lemma renderDayView_nth: "h < 24 \<Longrightarrow> renderDayView tza ts rs d ! h = day_slot tza ts rs d h"
  by (simp add: renderDayView_def)

section \<open>Properties of the page\<close>

text \<open>Claim C6: in every state of a running page, reloading it would give back the
  in-memory data: \<open>localStorage\<close> holds the index, the rules and the journal text the
  page shows; the index keys are distinct; each modal is open exactly when its
  selection is set.\<close>

theorem reach_app_inv: "reach tza now st s \<Longrightarrow> app_inv s"
proof (induction rule: reach.induct)
  case (start st t rs tza now)
  then show ?case
    using load_tasks_keys [OF start(1)] by (simp add: app_inv_def init_state_def)
next
  case (step tza now st s e)
  then show ?case using app_inv_handle by blast
qed

theorem reach_app_inv_witness:
  "reach 0 0 [] (handle 0 (TypeJournal ''notes'') (handle 0 ToggleJournal (init_state 0 [] [] [])))
   \<and> app_inv (handle 0 (TypeJournal ''notes'') (handle 0 ToggleJournal (init_state 0 [] [] [])))"
proof -
  have l: "load_tasks [] = Inr []" "load_recurring [] = Inr []" by code_simp+
  have r0: "reach 0 0 [] (init_state 0 [] [] [])" by (rule reach.start [OF l])
  have r1: "reach 0 0 [] (handle 0 ToggleJournal (init_state 0 [] [] []))"
    by (rule reach.step [OF r0]) simp
  have r2: "reach 0 0 [] (handle 0 (TypeJournal ''notes'') (handle 0 ToggleJournal (init_state 0 [] [] [])))"
    by (rule reach.step [OF r1]) (simp add: toggleJournal_def init_state_def)
  show ?thesis using r2 reach_app_inv [OF r2] by simp
qed

text \<open>Claim C11: every event keeps the pruning invariant of the task index: the only
  changes to the index are an \<open>addOneTime\<close> at the selection and a \<open>deleteTask\<close> that ran.\<close>

theorem handle_tasks_wf: "tasks_wf (tasks s) \<Longrightarrow> tasks_wf (tasks (handle tza e s))"
proof -
  assume w: "tasks_wf (tasks s)"
  from handle_tasks [of tza e s] show ?thesis
  proof (elim disjE exE)
    assume "tasks (handle tza e s) = tasks s"
    then show ?thesis using w by simp
  next
    fix t assume "tasks (handle tza e s) = addOneTime (the (selectedDate s)) (the (selectedTime s)) t (tasks s)"
    then show ?thesis using addOneTime_wf [OF w] by simp
  next
    fix d t i assume "deleteTask d t i (tasks s) = Some (tasks (handle tza e s))"
    then show ?thesis using deleteTask_wf [OF w] by blast
  qed
qed

theorem handle_tasks_wf_witness:
  "tasks_wf [] \<and> tasks_wf (tasks (handle 0 Submit ((init_state 0 [] [] [])\<lparr>selectedDate := Some ''2024-05-01'',
      selectedTime := Some ''09:00'', taskDesc := ''Gym''\<rparr>)))"
proof -
  have w: "tasks_wf []" by (simp add: tasks_wf_def)
  show ?thesis using w handle_tasks_wf [of "(init_state 0 [] [] [])\<lparr>selectedDate := Some ''2024-05-01'',
      selectedTime := Some ''09:00'', taskDesc := ''Gym''\<rparr>" 0 Submit] by (simp add: init_state_def)
qed

lemma addTask_hasTasks:
  assumes "selectedDate s = Some (formatDate y (m + 1) d)" "1000 \<le> y" "y \<le> 9999" "valid_ymd y m d"
    and "selectedTime s = Some t" "t \<noteq> []" "taskRepeat s \<in> {''none'', ''weekly'', ''yearly''}"
  shows "hasTasks tza (tasks (addTask tza s)) (recurringTasks (addTask tza s)) (formatDate y (m + 1) d)
         \<and> \<not> taskModalOpen (addTask tza s) \<and> selectedTime (addTask tza s) = None"
  using addTask_selected [OF assms(1) formatDate_not_Nil assms(5,6), of tza] assms(7)
    rules_match_own_date [OF assms(2-4), of tza t "js_trim (taskDesc s)"]
    has_one_time_addOneTime [of "formatDate y (m + 1) d" t "js_trim (taskDesc s)" "tasks s"]
  by (auto simp: add_to_store_def hasTasks_def addRecurring_def any_rule_matches_iff Let_def)

text \<open>Claim C8: submitting the form for a day of the displayed month (a year of four
  digits) and a slot, with repeat mode none, weekly or yearly, closes the task modal, and
  the grid rendered afterwards shows that day's cell, active and with the \<open>has-task\<close>
  class, in every time zone: the store, the recurrence rules and the grid agree.\<close>

theorem submit_marks_grid_day:
  assumes key: "selectedDate s = Some (formatDate (year_of tza (currentDate s)) (month_of tza (currentDate s) + 1) k)"
    and k: "1 \<le> k" "k \<le> month_lengths (in_leap_year (year_of tza (currentDate s))) ! nat (month_of tza (currentDate s))"
    and y: "1000 \<le> year_of tza (currentDate s)" "year_of tza (currentDate s) \<le> 9999"
    and t: "selectedTime s = Some t" "t \<noteq> []" "taskRepeat s \<in> {''none'', ''weekly'', ''yearly''}"
  shows "\<not> taskModalOpen (handle tza Submit s)
         \<and> (\<exists>c \<in> set (renderCalendar tza now (tasks (handle tza Submit s)) (recurringTasks (handle tza Submit s))
                        (currentDate (handle tza Submit s))).
              fullDate c = selectedDate s \<and> hasTask c \<and> \<not> inactive c)"
proof -
  let ?y = "year_of tza (currentDate s)"
  let ?m = "month_of tza (currentDate s)"
  let ?s' = "addTask tza s"
  have v: "valid_ymd ?y ?m k" using k month_of_range [of tza "currentDate s"] by (simp add: valid_ymd_def)
  have h: "hasTasks tza (tasks ?s') (recurringTasks ?s') (formatDate ?y (?m + 1) k) \<and> \<not> taskModalOpen ?s'"
    using addTask_hasTasks [OF key y v t] by blast
  have cd: "currentDate ?s' = currentDate s"
    using t(1,2) key by (simp add: addTask_def add_to_store_def closeTaskModal_def Let_def formatDate_not_Nil)
  have "day_cell tza now (tasks ?s') (recurringTasks ?s') ?y ?m k \<in> set (renderCalendar tza now (tasks ?s') (recurringTasks ?s') (currentDate ?s'))"
    using day_cell_in_grid [OF k(1), of tza "currentDate s" now "tasks ?s'" "recurringTasks ?s'"] k(2) y cd by simp
  then show ?thesis using h key by (force simp: day_cell_def Let_def)
qed

theorem submit_marks_grid_day_witness:
  "\<exists>c \<in> set (renderCalendar 0 0 (tasks (handle 0 Submit ((init_state (make_local 0 2024 4 1) [] [] [])
             \<lparr>selectedDate := Some ''2024-05-01'', selectedTime := Some ''09:00''\<rparr>)))
           (recurringTasks (handle 0 Submit ((init_state (make_local 0 2024 4 1) [] [] [])
             \<lparr>selectedDate := Some ''2024-05-01'', selectedTime := Some ''09:00''\<rparr>)))
           (make_local 0 2024 4 1)).
     fullDate c = Some ''2024-05-01'' \<and> hasTask c \<and> \<not> inactive c"
proof -
  let ?s = "(init_state (make_local 0 2024 4 1) [] [] [])\<lparr>selectedDate := Some ''2024-05-01'', selectedTime := Some ''09:00''\<rparr>"
  have v: "valid_ymd 2024 4 1" by (simp add: valid_ymd_def month_lengths_def)
  have ym: "year_of 0 (currentDate ?s) = 2024" "month_of 0 (currentDate ?s) = 4"
    using make_local_civil [of 2024 4 1 0] v by (simp_all add: init_state_def)
  have key: "selectedDate ?s = Some (formatDate (year_of 0 (currentDate ?s)) (month_of 0 (currentDate ?s) + 1) 1)"
    using ym by (simp add: demo_day_key)
  have k: "1 \<le> (1::int)" "1 \<le> month_lengths (in_leap_year (year_of 0 (currentDate ?s))) ! nat (month_of 0 (currentDate ?s))"
    using ym by (simp_all add: month_lengths_def)
  have y: "1000 \<le> year_of 0 (currentDate ?s)" "year_of 0 (currentDate ?s) \<le> 9999" using ym by simp_all
  have cd: "currentDate (handle 0 Submit ?s) = make_local 0 2024 4 1"
    by (simp add: addTask_def add_to_store_def closeTaskModal_def init_state_def Let_def)
  from submit_marks_grid_day [OF key k y, of "''09:00''" 0] show ?thesis
    using cd by (simp add: init_state_def)
qed

text \<open>Claim C13: the guard of \<open>addTask\<close>: without a selected date or time (\<open>null\<close> or the
  empty string, both falsy) submitting the form changes nothing, neither the data nor
  \<open>localStorage\<close> nor the form.\<close>

theorem addTask_no_selection:
  "selectedDate s = None \<or> selectedTime s = None \<or> selectedDate s = Some [] \<or> selectedTime s = Some []
   \<Longrightarrow> addTask tza s = s"
  by (auto simp: addTask_def Let_def split: option.splits)

theorem addTask_no_selection_witness:
  "addTask 0 (init_state 0 [] [] []\<lparr>taskDesc := ''Gym''\<rparr>) = init_state 0 [] [] []\<lparr>taskDesc := ''Gym''\<rparr>"
  using addTask_no_selection [of "init_state 0 [] [] []\<lparr>taskDesc := ''Gym''\<rparr>" 0]
  by (simp add: init_state_def)

text \<open>Claim C7: a delete button of a one-time entry that the day view shows deletes
  exactly that entry: the slot loses its \<open>i\<close>-th task, every other slot of the abstract
  index keeps its list, the rules are untouched and the new index is saved.\<close>

theorem delete_button_one_time:
  assumes en: "enabled tza now s (ClickDeleteTask d t i)"
  shows "slot_tasks (tasks (handle tza (ClickDeleteTask d t i) s)) d' t' =
           (if d' = d \<and> t' = t then take i (slot_tasks (tasks s) d t) @ drop (Suc i) (slot_tasks (tasks s) d t)
            else slot_tasks (tasks s) d' t')
         \<and> recurringTasks (handle tza (ClickDeleteTask d t i) s) = recurringTasks s
         \<and> storage (handle tza (ClickDeleteTask d t i) s) = saveTasks (tasks (handle tza (ClickDeleteTask d t i) s)) (storage s)"
proof -
  obtain date where "selectedDate s = Some date" "DeleteOneTime d t i \<in> set (view_delete_refs tza s date)"
    using en by (auto split: option.splits)
  then have i: "i < length (slot_tasks (tasks s) d t)"
    using view_delete_one_time by (auto simp: view_delete_refs_def)
  then obtain ts' where del: "deleteTask d t (int i) (tasks s) = Some ts'"
    using deleteTask_Some [of "tasks s" d t "int i"] by fastforce
  show ?thesis
    using slot_tasks_deleteTask [OF del, of d' t'] del by (simp add: deleteTask_ui_def js_splice1_nonneg)
qed

theorem delete_button_one_time_witness:
  "enabled 0 0 demo_day (ClickDeleteTask ''2024-05-01'' ''09:00'' 0)
   \<and> slot_tasks (tasks (handle 0 (ClickDeleteTask ''2024-05-01'' ''09:00'' 0) demo_day)) ''2024-05-01'' ''09:00''
       = [\<lparr>desc = ''Run''\<rparr>]"
proof -
  have sl: "slot_tasks (tasks demo_day) ''2024-05-01'' ''09:00'' = [\<lparr>desc = ''Gym''\<rparr>, \<lparr>desc = ''Run''\<rparr>]"
    by (simp add: demo_day_def init_state_def slot_tasks_def slots_of_def)
  have e: "enabled 0 0 demo_day (ClickDeleteTask ''2024-05-01'' ''09:00'' 0)"
    using view_delete_refs_one_time [of 0 demo_day "''2024-05-01''" 9 0] sl
    by (simp add: demo_day_hours) (simp add: demo_day_def init_state_def)
  show ?thesis using e sl delete_button_one_time [OF e, of "''2024-05-01''" "''09:00''"] by simp
qed

text \<open>Claim C12: a delete button of a recurring entry that the day view shows deletes
  exactly that rule (the \<open>i\<close>-th of the array, which exists), leaves the one-time index
  alone and saves the new array.\<close>

theorem delete_button_recurring:
  assumes en: "enabled tza now s (ClickDeleteRecurring i)"
  shows "recurringTasks (handle tza (ClickDeleteRecurring i) s) = take i (recurringTasks s) @ drop (Suc i) (recurringTasks s)
         \<and> tasks (handle tza (ClickDeleteRecurring i) s) = tasks s
         \<and> storage (handle tza (ClickDeleteRecurring i) s)
             = saveRecurringTasks (recurringTasks (handle tza (ClickDeleteRecurring i) s)) (storage s)"
proof -
  obtain date where "selectedDate s = Some date" "DeleteRecurring i \<in> set (view_delete_refs tza s date)"
    using en by (auto split: option.splits)
  then have "i < length (recurringTasks s)"
    using view_delete_recurring by (auto simp: view_delete_refs_def)
  then show ?thesis
    by (simp add: deleteRecurringTask_ui_def deleteRecurringTask_in_range)
qed

theorem delete_button_recurring_witness:
  "enabled 0 0 demo_day (ClickDeleteRecurring 0)
   \<and> recurringTasks (handle 0 (ClickDeleteRecurring 0) demo_day) = [Yearly (Some 11) (Some 25) ''08:00'' ''Xmas'']"
proof -
  have e: "enabled 0 0 demo_day (ClickDeleteRecurring 0)"
    using view_delete_refs_recurring [of 0 demo_day 0 "''2024-05-01''" 10] demo_day_weekly
    by (simp add: demo_day_hours) (simp add: demo_day_def init_state_def weekly_rule_def)
  show ?thesis using e delete_button_recurring [OF e] by (simp add: demo_day_def init_state_def)
qed

text \<open>Claim C14: navigation: from a date whose day of the month is at most 28, any
  sequence of clicks on the two month buttons is enabled and moves the local date by
  the number of "next" clicks minus the number of "previous" clicks, carrying into the
  year and keeping the day; the header names that month and year.\<close>

theorem month_buttons_navigate:
  assumes "local_civil tza (currentDate s) = (y, m, dt)" "dt \<le> 28" "set es \<subseteq> {PrevMonth, NextMonth}"
  defines "d \<equiv> int (count_list es NextMonth) - int (count_list es PrevMonth)"
  shows "runnable tza now es s
         \<and> local_civil tza (currentDate (run tza es s)) = (y + (m + d) div 12, (m + d) mod 12, dt)
         \<and> monthYear_text tza (currentDate (run tza es s))
             = month_long_name ((m + d) mod 12) @ '' '' @ js_string_of_int (y + (m + d) div 12)"
  using month_buttons_run [OF assms(1-3), of now] unfolding d_def
  by (simp add: Let_def monthYear_text_def month_of_def year_of_def)

theorem month_buttons_navigate_witness:
  "monthYear_text 0 (currentDate (run 0 [NextMonth, NextMonth, PrevMonth, NextMonth]
      (init_state (make_local 0 2024 10 15) [] [] []))) = ''January 2025''"
proof -
  have v: "valid_ymd 2024 10 15" by (simp add: valid_ymd_def month_lengths_def)
  have l: "local_civil 0 (currentDate (init_state (make_local 0 2024 10 15) [] [] [])) = (2024, 10, 15)"
    using v by (simp add: init_state_def local_civil_make_local civil_of_make_day)
  have y: "js_string_of_int 2025 = ''2025''" by code_simp
  show ?thesis
    using month_buttons_navigate [OF l, of "[NextMonth, NextMonth, PrevMonth, NextMonth]" 0]
    by (simp add: y month_long_name_def)
qed

text \<open>Claim C27: on the 31st of January the "next month" button skips February:
  \<open>setMonth(1)\<close> keeps the date 31, which \<open>MakeDay\<close> carries into March, so the grid
  shows March 2024 (in every time zone).\<close>

theorem changeMonth_skips_february:
  "local_civil tza (currentDate (handle tza NextMonth (init_state (make_local tza 2024 0 31) st t rs))) = (2024, 2, 2)"
proof -
  have v: "valid_ymd 2024 0 31" by (simp add: valid_ymd_def month_lengths_def)
  have l: "local_civil tza (make_local tza 2024 0 31) = (2024, 0, 31)"
    using v by (simp add: local_civil_make_local civil_of_make_day)
  have m: "month_of tza (make_local tza 2024 0 31) = 0" using l by (simp add: month_of_def)
  have d: "make_day 2024 1 31 = make_day 2024 2 2"
    by (simp add: make_day_def month_start_def month_lengths_def in_leap_year_def days_in_year_def)
  have v2: "valid_ymd 2024 2 2" by (simp add: valid_ymd_def month_lengths_def)
  show ?thesis
    using local_civil_set_month [OF l, of 1] m d civil_of_make_day [OF v2]
    by (simp add: changeMonth_def init_state_def)
qed

text \<open>Claim C10: liveness of deletion: from every state of a running page, any day of
  the displayed month can be opened from the grid and any of its hour slots emptied by
  clicking its delete buttons, each click enabled when it is made; the run stays a run of
  the page and no other slot changes.\<close>

theorem open_and_clear_live:
  assumes "reach tza now st s" "1 \<le> k" "k \<le> month_lengths (in_leap_year (js_full_year (year_of tza (currentDate s)))) ! nat (month_of tza (currentDate s))"
    and "h < 24"
    and key: "d = formatDate (year_of tza (currentDate s)) (month_of tza (currentDate s) + 1) k"
  shows "\<exists>es. runnable tza now es s \<and> reach tza now st (run tza es s)
           \<and> slot_tasks (tasks (run tza es s)) d (time24_of_hour h) = []
           \<and> (\<forall>d' t'. (d', t') \<noteq> (d, time24_of_hour h) \<longrightarrow> slot_tasks (tasks (run tza es s)) d' t' = slot_tasks (tasks s) d' t')"
proof -
  let ?s1 = "handle tza (ClickDay d) s"
  let ?n = "length (slot_tasks (tasks s) d (time24_of_hour h))"
  let ?es = "ClickDay d # replicate ?n (ClickDeleteTask d (time24_of_hour h) 0)"
  have e: "enabled tza now s (ClickDay d)"
    using grid_day_clickable [OF assms(2,3), of now "tasks s" "recurringTasks s"] key by simp
  have s1: "dayModalOpen ?s1" "selectedDate ?s1 = Some d" "tasks ?s1 = tasks s"
    by (simp_all add: openDayModal_def)
  have c: "runnable tza now (replicate ?n (ClickDeleteTask d (time24_of_hour h) 0)) ?s1
     \<and> (\<forall>d' t'. slot_tasks (tasks (run tza (replicate ?n (ClickDeleteTask d (time24_of_hour h) 0)) ?s1)) d' t' =
         (if d' = d \<and> t' = time24_of_hour h then [] else slot_tasks (tasks ?s1) d' t'))"
    using clear_slot_run [OF s1(1,2) assms(4)] s1(3) by simp
  have r: "runnable tza now ?es s" using e c by simp
  moreover have "reach tza now st (run tza ?es s)" by (rule reach_run [OF assms(1) r])
  ultimately show ?thesis using c s1(3) by (intro exI [of _ ?es]) auto
qed

theorem open_and_clear_live_witness:
  "\<exists>es. runnable 0 (make_local 0 2024 4 1) es (init_state (make_local 0 2024 4 1) [] [] [])
     \<and> reach 0 (make_local 0 2024 4 1) [] (run 0 es (init_state (make_local 0 2024 4 1) [] [] []))
     \<and> slot_tasks (tasks (run 0 es (init_state (make_local 0 2024 4 1) [] [] []))) ''2024-05-01'' ''09:00'' = []
     \<and> (\<forall>d' t'. (d', t') \<noteq> (''2024-05-01'', ''09:00'') \<longrightarrow>
          slot_tasks (tasks (run 0 es (init_state (make_local 0 2024 4 1) [] [] []))) d' t'
          = slot_tasks (tasks (init_state (make_local 0 2024 4 1) [] [] [])) d' t')"
proof -
  have l: "load_tasks [] = Inr []" "load_recurring [] = Inr []" by code_simp+
  have r: "reach 0 (make_local 0 2024 4 1) [] (init_state (make_local 0 2024 4 1) [] [] [])" by (rule reach.start [OF l])
  have v: "valid_ymd 2024 4 1" by (simp add: valid_ymd_def month_lengths_def)
  have ym: "year_of 0 (currentDate (init_state (make_local 0 2024 4 1) [] [] [])) = 2024"
     "month_of 0 (currentDate (init_state (make_local 0 2024 4 1) [] [] [])) = 4"
    using make_local_civil [of 2024 4 1 0] v by (simp_all add: init_state_def)
  have k: "1 \<le> (1::int)" "1 \<le> month_lengths (in_leap_year (js_full_year (year_of 0 (currentDate (init_state (make_local 0 2024 4 1) [] [] []))))) ! nat (month_of 0 (currentDate (init_state (make_local 0 2024 4 1) [] [] [])))"
    using ym by (simp_all add: month_lengths_def)
  have d: "''2024-05-01'' = formatDate (year_of 0 (currentDate (init_state (make_local 0 2024 4 1) [] [] []))) (month_of 0 (currentDate (init_state (make_local 0 2024 4 1) [] [] [])) + 1) 1"
    using ym demo_day_key by simp
  from open_and_clear_live [OF r k _ d, of 9] show ?thesis by (simp add: demo_day_hours)
qed

text \<open>Claim C32: the journal sidebar over any sequence of events: the stored
  \<open>journalEntry\<close> and the text area hold the last text typed (the earlier value when
  nothing was typed), and the sidebar is open exactly when it was open before and the
  toggle was clicked an even number of times, or closed before and clicked an odd
  number of times.\<close>

theorem journal_run:
  "getItem (storage (run tza es s)) ''journalEntry''
     = (case last_journal es of None \<Rightarrow> getItem (storage s) ''journalEntry'' | Some c \<Rightarrow> Some c)
   \<and> journalText (run tza es s) = (case last_journal es of None \<Rightarrow> journalText s | Some c \<Rightarrow> c)
   \<and> journalOpen (run tza es s) = (journalOpen s \<noteq> odd (count_list es ToggleJournal))"
proof (induction es arbitrary: s)
  case (Cons e es)
  show ?case
    using Cons.IH [of "handle tza e s"] handle_journal [of tza e s]
    by (cases e) (auto split: option.splits)
qed simp

text \<open>Claim C33: a description of blanks only: \<open>trim\<close> makes it empty, the slot gets one
  more task with the empty description, and the day view shows it, as the last one-time
  entry of its slot, with the placeholder text and a delete button for its index.\<close>

theorem submit_blank_description:
  assumes sel: "selectedDate s = Some d" "d \<noteq> []" "selectedTime s = Some (time24_of_hour h)" "h < 24"
    and r: "taskRepeat s = ''none''" and b: "list_all js_space (taskDesc s)"
  shows "slot_tasks (tasks (handle tza Submit s)) d (time24_of_hour h)
           = slot_tasks (tasks s) d (time24_of_hour h) @ [\<lparr>desc = []\<rparr>]
         \<and> (\<exists>e \<in> set (entries (renderDayView tza (tasks (handle tza Submit s)) (recurringTasks (handle tza Submit s)) d ! h)).
              entryText e = ''No Description'' \<and> \<not> isRecurring e
              \<and> deleteRef e = DeleteOneTime d (time24_of_hour h) (length (slot_tasks (tasks s) d (time24_of_hour h))))"
proof -
  let ?t = "time24_of_hour h"
  let ?s' = "handle tza Submit s"
  have t: "?t \<noteq> []" by (simp add: time24_of_hour_def)
  have ts: "tasks ?s' = addOneTime d ?t [] (tasks s)"
    using addTask_selected [OF sel(1,2) sel(3) t, of tza] r js_trim_blank [OF b]
    by (simp add: add_to_store_def Let_def)
  have sl: "slot_tasks (tasks ?s') d ?t = slot_tasks (tasks s) d ?t @ [\<lparr>desc = []\<rparr>]"
    using ts by (simp add: slot_tasks_addOneTime)
  let ?i = "length (slot_tasks (tasks s) d ?t)"
  have "(?i, \<lparr>desc = []\<rparr>) \<in> set (enumerate 0 (slot_tasks (tasks ?s') d ?t))"
    using sl by (simp add: in_set_enumerate_eq nth_append)
  then have "one_time_view d ?t \<lparr>desc = []\<rparr> ?i \<in> set (entries (renderDayView tza (tasks ?s') (recurringTasks ?s') d ! h))"
    using sel(4) by (force simp: renderDayView_nth day_slot_spec)
  then show ?thesis using sl by (force simp: one_time_view_def)
qed

theorem submit_blank_description_witness:
  "\<exists>e \<in> set (entries (renderDayView 0 (tasks (handle 0 Submit (demo_day\<lparr>selectedTime := Some ''09:00'', taskDesc := ''  ''\<rparr>)))
        (recurringTasks (handle 0 Submit (demo_day\<lparr>selectedTime := Some ''09:00'', taskDesc := ''  ''\<rparr>))) ''2024-05-01'' ! 9)).
     entryText e = ''No Description'' \<and> \<not> isRecurring e \<and> deleteRef e = DeleteOneTime ''2024-05-01'' ''09:00'' 2"
proof -
  let ?s = "demo_day\<lparr>selectedTime := Some ''09:00'', taskDesc := ''  ''\<rparr>"
  have sel: "selectedDate ?s = Some ''2024-05-01''" "selectedTime ?s = Some (time24_of_hour 9)"
    "taskRepeat ?s = ''none''" "list_all js_space (taskDesc ?s)"
    by (simp_all add: demo_day_def init_state_def demo_day_hours js_space_def)
  have l: "length (slot_tasks (tasks ?s) ''2024-05-01'' ''09:00'') = 2"
    by (simp add: demo_day_def init_state_def slot_tasks_def slots_of_def)
  from submit_blank_description [OF sel(1) _ sel(2) _ sel(3,4), of 0] show ?thesis
    using l by (simp add: demo_day_hours)
qed

text \<open>Claim C34: ordering of the two modals: closing the day modal while the task form is
  open clears the selected date but leaves the form open; a submit then hits the guard
  and returns early, so nothing is stored, nothing is saved and the form stays open.\<close>

theorem close_day_then_submit:
  assumes "taskModalOpen s"
  shows "handle tza Submit (handle tza CloseDay s) = closeDayModal s
         \<and> taskModalOpen (handle tza Submit (handle tza CloseDay s))"
  using assms by (simp add: closeDayModal_def addTask_def)

theorem close_day_then_submit_witness:
  "handle 0 Submit (handle 0 CloseDay (handle 0 (ClickSlot ''09:00'') demo_day))
     = closeDayModal (handle 0 (ClickSlot ''09:00'') demo_day)"
proof -
  have "taskModalOpen (handle 0 (ClickSlot ''09:00'') demo_day)" by (simp add: openTaskModal_def)
  from close_day_then_submit [OF this, of 0] show ?thesis by blast
qed

end
