(* ===== verification/Store_Spec.thy ===== *)
theory Store_Spec
  imports Task_Store
begin

text \<open>
  The Mutation API of the specification (section 4.2) as an abstract machine, and the
  task store of \<open>src/script.js\<close> as its implementation. The abstract state is the
  function from a date and a time key to the list of entries of that slot, and the
  array of recurring rules; the specification's operations append to a slot, remove
  the entry at an index of a slot (nothing when the index does not exist), append a
  rule and remove the rule at an index (nothing out of bounds). The program's
  operations are the data effects of \<open>addTask\<close> (one-time and recurring branches),
  \<open>deleteTask\<close> and \<open>deleteRecurringTask\<close>; a failed guard changes nothing. Result: every
  sequence of operations with non-negative indices (the only ones the page produces)
  keeps the pruning invariant and commutes with the abstraction \<open>slot_tasks\<close>.
\<close>

section \<open>Operations\<close>

datatype store_op =
  OpAddOneTime string string string
| OpDeleteOneTime string string int
| OpAddRecurring recurring
| OpDeleteRecurring int

type_synonym store = "task_index \<times> recurring list"
type_synonym abs_store = "(string \<Rightarrow> string \<Rightarrow> task list) \<times> recurring list"

text \<open>One operation of the program on the two collections.\<close>

fun store_step :: "store_op \<Rightarrow> store \<Rightarrow> store" where
  "store_step (OpAddOneTime date time d) (ts, rs) = (addOneTime date time d ts, rs)"
| "store_step (OpDeleteOneTime date time i) (ts, rs) =
     (case deleteTask date time i ts of None \<Rightarrow> (ts, rs) | Some ts' \<Rightarrow> (ts', rs))"
| "store_step (OpAddRecurring r) (ts, rs) = (ts, addRecurring r rs)"
| "store_step (OpDeleteRecurring i) (ts, rs) =
     (case deleteRecurringTask i rs of None \<Rightarrow> (ts, rs) | Some rs' \<Rightarrow> (ts, rs'))"

text \<open>Removing the entry at an index of a list, nothing when the index does not exist.\<close>

definition remove_at :: "int \<Rightarrow> 'a list \<Rightarrow> 'a list" where
  "remove_at i xs = (if 0 \<le> i \<and> i < int (length xs) then take (nat i) xs @ drop (Suc (nat i)) xs else xs)"

text \<open>The specification's operations on the abstract store.\<close>

fun spec_step :: "store_op \<Rightarrow> abs_store \<Rightarrow> abs_store" where
  "spec_step (OpAddOneTime date time d) (F, rs) = (F(date := (F date)(time := F date time @ [\<lparr>desc = d\<rparr>])), rs)"
| "spec_step (OpDeleteOneTime date time i) (F, rs) = (F(date := (F date)(time := remove_at i (F date time))), rs)"
| "spec_step (OpAddRecurring r) (F, rs) = (F, rs @ [r])"
| "spec_step (OpDeleteRecurring i) (F, rs) = (F, remove_at i rs)"

fun index_ok :: "store_op \<Rightarrow> bool" where
  "index_ok (OpDeleteOneTime _ _ i) = (0 \<le> i)"
| "index_ok _ = True"

definition abs_store :: "store \<Rightarrow> abs_store" where
  "abs_store st = (slot_tasks (fst st), snd st)"

section \<open>Refinement\<close>

lemma js_splice1_remove_at: "0 \<le> i \<Longrightarrow> js_splice1 i xs = remove_at i xs"
  by (simp add: js_splice1_nonneg remove_at_def)

lemma store_step_wf: "tasks_wf (fst st) \<Longrightarrow> tasks_wf (fst (store_step op st))"
  by (cases st; cases op) (auto simp: addOneTime_wf deleteTask_wf split: option.splits)

lemma store_step_refines:
  assumes "index_ok op"
  shows "abs_store (store_step op st) = spec_step op (abs_store st)"
proof (cases st)
  case (Pair ts rs)
  show ?thesis
  proof (cases op)
    case (OpAddOneTime date time d)
    then show ?thesis using Pair
      by (auto simp: abs_store_def slot_tasks_addOneTime fun_eq_iff)
  next
    case (OpDeleteOneTime date time i)
    show ?thesis
    proof (cases "deleteTask date time i ts")
      case None
      then have "slot_tasks ts date time = []"
        using deleteTask_None by (simp add: slot_tasks_def)
      then show ?thesis using None Pair OpDeleteOneTime
        by (auto simp: abs_store_def remove_at_def fun_eq_iff)
    next
      case (Some ts')
      then show ?thesis using Pair OpDeleteOneTime assms slot_tasks_deleteTask [OF Some]
        by (auto simp: abs_store_def js_splice1_remove_at fun_eq_iff)
    qed
  next
    case (OpAddRecurring r)
    then show ?thesis using Pair by (simp add: abs_store_def addRecurring_def)
  next
    case (OpDeleteRecurring i)
    then show ?thesis using Pair
      by (auto simp: abs_store_def remove_at_def deleteRecurringTask_def js_splice1_nonneg)
  qed
qed

text \<open>Claim C9: the task store implements the specification's Mutation API: along
  every sequence of operations whose one-time deletions use non-negative indices, the
  program's store keeps the pruning invariant and its abstraction follows the
  specification's operations step by step.\<close>

theorem store_refines_spec:
  "list_all index_ok ops \<Longrightarrow> tasks_wf (fst st) \<Longrightarrow>
   tasks_wf (fst (fold store_step ops st)) \<and> abs_store (fold store_step ops st) = fold spec_step ops (abs_store st)"
proof (induction ops arbitrary: st)
  case (Cons op ops)
  then show ?case using store_step_wf store_step_refines by simp
qed simp

theorem store_refines_spec_witness:
  "tasks_wf (fst (fold store_step [OpAddOneTime ''2024-05-01'' ''09:00'' ''Gym'', OpAddRecurring (Weekly (Some 3) ''10:00'' ''Yoga''),
       OpDeleteOneTime ''2024-05-01'' ''09:00'' 0, OpDeleteRecurring 5] ([], [])))
   \<and> abs_store (fold store_step [OpAddOneTime ''2024-05-01'' ''09:00'' ''Gym'', OpAddRecurring (Weekly (Some 3) ''10:00'' ''Yoga''),
       OpDeleteOneTime ''2024-05-01'' ''09:00'' 0, OpDeleteRecurring 5] ([], []))
     = fold spec_step [OpAddOneTime ''2024-05-01'' ''09:00'' ''Gym'', OpAddRecurring (Weekly (Some 3) ''10:00'' ''Yoga''),
       OpDeleteOneTime ''2024-05-01'' ''09:00'' 0, OpDeleteRecurring 5] (abs_store ([], []))"
  using store_refines_spec [of "[OpAddOneTime ''2024-05-01'' ''09:00'' ''Gym'', OpAddRecurring (Weekly (Some 3) ''10:00'' ''Yoga''),
       OpDeleteOneTime ''2024-05-01'' ''09:00'' 0, OpDeleteRecurring 5]" "([], [])"]
  by (simp add: tasks_wf_def)

end
