(* ===== verification/Spec2Isabelle.thy ===== *)
theory Spec2Isabelle
  imports App Store_Spec
begin

text \<open>
  \<^bold>\<open>A verification development of the browser calendar \<open>src/script.js\<close>.\<close>

  \<^bold>\<open>The program.\<close> One script drives a month grid, a day view of 24 hour slots with
  one-time and recurring tasks, a task form and a journal sidebar, and keeps its data in
  \<open>localStorage\<close>. The parts and how they interact:
  \<^item> date utilities: \<open>formatDate\<close> builds the \<open>YYYY-MM-DD\<close> keys of the task index,
    \<open>convertTo12Hour\<close> the slot labels;
  \<^item> the task store: the object \<open>tasks\<close> (date key, then time key, then an array of
    \<open>{desc}\<close>) and the array \<open>recurringTasks\<close> of weekly and yearly rules, changed by
    \<open>addTask\<close>, \<open>deleteTask\<close> and \<open>deleteRecurringTask\<close> and written through to
    \<open>localStorage\<close>;
  \<^item> recurrence matching: \<open>hasTasks(date)\<close> and the rule checks of \<open>renderDayView\<close> read
    the weekday, month and date of \<open>new Date(dateKey)\<close>;
  \<^item> the month grid \<open>renderCalendar\<close> (42 cells, uses \<open>formatDate\<close> and \<open>hasTasks\<close>);
  \<^item> the day view \<open>renderDayView\<close> (24 slots, uses the store and the rule checks);
  \<^item> the event handlers: opening and closing the two modals (the selection state
    \<open>selectedDate\<close>, \<open>selectedTime\<close>), \<open>addTask\<close>, the deletions, \<open>changeMonth\<close> and the
    journal.

  \<^bold>\<open>The theories.\<close>
  \<^item> \<open>Prelude\<close>: the JavaScript primitives the script calls (\<open>===\<close> with NaN, \<open>%\<close>,
    \<open>String(n)\<close>, \<open>padStart\<close>, \<open>split\<close>, \<open>trim\<close>, \<open>parseInt\<close>, \<open>splice\<close>) over
    \<open>jsnum = int option\<close> (\<open>None\<close> is NaN); objects are association lists in insertion
    order (\<open>AList.update\<close>, \<open>AList.delete\<close>); shared lemmas on lists and division.
  \<^item> \<open>Date_Runtime\<close>: the ECMAScript \<open>Date\<close> arithmetic (\<open>DayFromYear\<close>, \<open>YearFromTime\<close>,
    \<open>MonthFromTime\<close>, \<open>MakeDay\<close>, \<open>WeekDay\<close>, local time at a constant offset \<open>tza\<close>,
    the date-only string form parsed as UTC, \<open>setMonth\<close>). The year of a day number is
    found by a walk from an estimate (\<open>year_up\<close>, \<open>year_down\<close>, \<open>function\<close>s with
    measures); \<open>civil_of_day\<close> and \<open>make_day\<close> are inverse on valid dates.
  \<^item> \<open>Date_Utils\<close>: \<open>formatDate\<close>, \<open>convertTo12Hour\<close> and the slot keys; a key of a
    valid date of a four-digit year parses back to that day (\<open>parse_formatDate\<close>).
  \<^item> \<open>Task_Store\<close>: \<open>tasks\<close> and \<open>recurringTasks\<close>, \<open>addOneTime\<close>, \<open>deleteTask\<close>,
    \<open>addRecurring\<close>, \<open>deleteRecurringTask\<close>; the pruning invariant \<open>tasks_wf\<close> and its
    preservation; the abstraction \<open>slot_tasks\<close> and the refinement lemmas; the
    add-then-delete round trip.
  \<^item> \<open>Recurrence\<close>: \<open>hasTasks\<close>, the date fields of a key, the rules \<open>addTask\<close> builds;
    \<open>hasTasks\<close> is the specification's \<open>hasAnyTaskOn\<close> under the invariant.
  \<^item> \<open>Month_Grid\<close>: \<open>renderCalendar\<close> cell by cell; the grid is the tail of the
    previous month, the days of the month and the head of the next, with the month
    quantities computed by \<open>Date\<close> arithmetic shown to be the calendar's.
  \<^item> \<open>Day_Agenda\<close>: \<open>renderDayView\<close> as the list of its 24 slots, each with its key,
    label and entries (text, recurring flag, the arguments its delete button passes);
    the view is the specification's slot aggregation (\<open>renderDayView_spec\<close>) and every
    delete button designates the entry it is shown on.
  \<^item> \<open>Json\<close>: \<open>JSON.stringify\<close> and \<open>JSON.parse\<close> (modelled from ECMA-262/ECMA-404, not
    code of the repository). The parser is a recursive descent given fuel; each call
    consumes input, so the fuel \<open>length s + 1\<close> that \<open>json_parse\<close> gives is always
    enough (\<open>parse_enough_fuel\<close>, \<open>json_parse_total\<close>); parsing a printed value gives
    it back, and parsed values have distinct object keys.
  \<^item> \<open>Persistence\<close>: \<open>localStorage\<close> as a string store, the start-up loads (lines
    31--38, errors as \<open>load_error + 'a\<close>) and the three save functions; load-after-save
    round trips, the frame of each save, the defaults, the \<open>SyntaxError\<close> path.
  \<^item> \<open>App\<close>: the controller. The page state is the record \<open>app_state\<close>; every handler
    (\<open>openDayModal\<close>, \<open>closeDayModal\<close>, \<open>openTaskModal\<close>, \<open>closeTaskModal\<close>,
    \<open>addTask\<close> with its guard, branches, saves and form reset, \<open>deleteTask\<close> and
    \<open>deleteRecurringTask\<close> with their guards and saves, \<open>changeMonth\<close>,
    \<open>toggleJournal\<close>, \<open>saveJournal\<close>) is a function on it; the listeners are the
    datatype \<open>event\<close>, dispatched by \<open>handle\<close>; \<open>enabled\<close> says which events the
    rendered views offer (day cells of \<open>renderCalendar\<close>, slots and delete buttons of
    \<open>renderDayView\<close>). The runs of the page are the inductive \<open>reach\<close>: the start-up
    state after two successful loads, closed under enabled events; \<open>run\<close> and
    \<open>runnable\<close> fire a sequence of events.
  \<^item> \<open>Store_Spec\<close>: the specification's Mutation API as an abstract machine on the
    slot function and the rule list (\<open>spec_step\<close>), the program's store operations as
    \<open>store_step\<close> over the datatype \<open>store_op\<close>, and the refinement between them.

  \<^bold>\<open>What is shown.\<close> The grid, the day view and \<open>hasTasks\<close> meet the specification
  (claims C1--C5); the grid's cells stay within their bounds (C29) and exactly one cell
  is highlighted as today when today's month is shown and today is among its days (C31). In every
  reachable state \<open>localStorage\<close> reloads to the in-memory data and the modals agree
  with the selection (C6, by rule induction on \<open>reach\<close>); every event keeps the pruning
  invariant (C11). The store refines the specification's Mutation API along any
  sequence of operations (C9, theory \<open>Store_Spec\<close>). The handlers do what the
  specification's operations do: the delete buttons delete exactly what they show (C7,
  C12), a submitted task marks its day in the re-rendered grid (C8, the controller,
  store, recurrence rules and grid composed), the \<open>addTask\<close> guard is a no-op (C13),
  any sequence of month-button clicks moves the month and the header accordingly from a
  day up to the 28th (C14). From every reachable state any slot of any
  displayed day can be emptied by enabled clicks (C10, liveness). Over any sequence of
  events the journal keeps the last text typed, in the text area and in
  \<open>localStorage\<close>, and the sidebar flips with each toggle (C32); a blank description is
  trimmed and shown with its placeholder and its delete index (C33). The recurrence rules
  behave as the specification says east of UTC and differ from it west of UTC
  (C15--C20), and the rules recorded have the specification's field ranges, NaN exactly
  for keys that do not parse (C30). Saving then loading is the identity, absent entries
  load as the defaults, and every text \<open>JSON.parse\<close> rejects, the empty string
  included, is a load error (C21--C25). The JSON parser's fuel (one more than the
  length of the text) is always enough (\<open>json_parse_total\<close>, a lemma of \<open>Json\<close>).

  \<^bold>\<open>Findings.\<close> \<open>new Date('YYYY-MM-DD')\<close> is UTC midnight, so west of UTC the
  weekday, month and day the rules record and check are those of the previous day
  (C17--C19); a text in \<open>localStorage\<close> that is not JSON, even the empty string, stops the
  script instead of loading the defaults (C25); for the years 0--99 the grid is laid
  out from the same month of 1900 + year, because \<open>new Date(y, m, d)\<close> maps those years
  (C1, C26); \<open>changeMonth\<close> from a 29th--31st skips a shorter month
  (C27); \<open>deleteTask\<close> with a negative index deletes from the end of the slot instead
  of doing nothing (C28); closing the day modal under an open task form leaves the form
  open and makes the next submit drop the task silently, a case the specification does
  not cover (C34).

  \<^bold>\<open>Modelling choices.\<close> JavaScript numbers are integers or NaN; \<open>TimeClip\<close> and
  non-integral numbers do not occur in the program's arithmetic and are not modelled.
  The local time zone is a constant offset \<open>tza\<close> in milliseconds (no daylight saving
  time). \<open>new Date()\<close> is a parameter, the same for every rendering of a run. Strings
  are byte strings; only ASCII characters are inspected by the program. DOM
  construction is modelled by what the elements show and which handler they get;
  styling is not modelled. \<open>taskForm.reset()\<close> restores the description to empty and
  the repeat select to \<open>none\<close>, its first option. \<open>new Date(y, m, d)\<close> maps a year 0--99
  to 1900 + y (\<open>js_full_year\<close>). Two assumptions on the page markup, which is not in
  the repository: the task form's \<open>submit\<close> event runs \<open>addTask\<close> (\<open>script.js\<close> registers
  no such listener), and no element is covered by a modal overlay (\<open>enabled\<close> offers
  every element the renderers create; the invariants hold a fortiori, the liveness claim
  C10 may need an extra click to close a covering modal).

  \<^bold>\<open>Not modelled.\<close> The \<open>getElementById\<close> lookups (lines 1--24), which only bind
  names to elements (the listeners registered on them are \<open>handle\<close> and \<open>enabled\<close>);
  locales other than English for the month header (\<open>toLocaleDateString\<close> takes the
  host's default) and years before 1; stored values of a shape the program never
  writes; \<open>localStorage\<close> quota errors; daylight saving time; the page markup and
  style sheet (not in the repository).
\<close>

end
